theory Spec2Isabelle
  imports Complex_Main "HOL-Library.Sublist" "HOL-Library.Word"
begin

section \<open>JavaScript numbers\<close>

text \<open>
  A JavaScript number is a double. The finite ones are modelled as reals, the three
  special values are kept: the code produces \<open>Infinity\<close> (a PSNR of identical images, the
  PSNR of a lossless encode) and \<open>NaN\<close> (a read past the end of a typed array, \<open>0 / 0\<close>)
  and compares against them. Where the rounding of an operation decides a result (the
  predictions of the optimizer, which take the floor of a product of fractions), every
  operation and every decimal literal is rounded to the nearest double by \<open>fl\<close>; elsewhere
  the operations are exact.
\<close>

datatype jsnum = Num real | PosInf | NegInf | NaN

fun js_neg :: "jsnum \<Rightarrow> jsnum" where
  "js_neg (Num a) = Num (- a)"
| "js_neg PosInf = NegInf"
| "js_neg NegInf = PosInf"
| "js_neg NaN = NaN"

fun js_add :: "jsnum \<Rightarrow> jsnum \<Rightarrow> jsnum" where
  "js_add NaN _ = NaN"
| "js_add _ NaN = NaN"
| "js_add (Num a) (Num b) = Num (a + b)"
| "js_add PosInf NegInf = NaN"
| "js_add NegInf PosInf = NaN"
| "js_add PosInf _ = PosInf"
| "js_add _ PosInf = PosInf"
| "js_add NegInf _ = NegInf"
| "js_add _ NegInf = NegInf"

definition js_sub :: "jsnum \<Rightarrow> jsnum \<Rightarrow> jsnum" where
  "js_sub a b = js_add a (js_neg b)"

text \<open>The sign of an infinite product or quotient: \<open>Infinity * 0\<close> is \<open>NaN\<close>.\<close>

definition signed_inf :: "real \<Rightarrow> jsnum" where
  "signed_inf s = (if s = 0 then NaN else if 0 < s then PosInf else NegInf)"

fun js_mul :: "jsnum \<Rightarrow> jsnum \<Rightarrow> jsnum" where
  "js_mul NaN _ = NaN"
| "js_mul _ NaN = NaN"
| "js_mul (Num a) (Num b) = Num (a * b)"
| "js_mul (Num a) PosInf = signed_inf a"
| "js_mul (Num a) NegInf = signed_inf (- a)"
| "js_mul PosInf (Num b) = signed_inf b"
| "js_mul NegInf (Num b) = signed_inf (- b)"
| "js_mul PosInf PosInf = PosInf"
| "js_mul NegInf NegInf = PosInf"
| "js_mul PosInf NegInf = NegInf"
| "js_mul NegInf PosInf = NegInf"

text \<open>
  Division: a finite number over zero is an infinity of its sign (\<open>0 / 0\<close> is \<open>NaN\<close>;
  the zero is taken as \<open>+0\<close>), a finite number over an infinity is zero.
\<close>

fun js_div :: "jsnum \<Rightarrow> jsnum \<Rightarrow> jsnum" where
  "js_div NaN _ = NaN"
| "js_div _ NaN = NaN"
| "js_div (Num a) (Num b) = (if b = 0 then signed_inf a else Num (a / b))"
| "js_div (Num a) _ = Num 0"
| "js_div PosInf (Num b) = (if 0 \<le> b then PosInf else NegInf)"
| "js_div NegInf (Num b) = (if 0 \<le> b then NegInf else PosInf)"
| "js_div _ _ = NaN"

text \<open>Comparisons with \<open>NaN\<close> are false.\<close>

fun js_le :: "jsnum \<Rightarrow> jsnum \<Rightarrow> bool" where
  "js_le NaN _ = False"
| "js_le _ NaN = False"
| "js_le NegInf _ = True"
| "js_le _ PosInf = True"
| "js_le (Num a) (Num b) = (a \<le> b)"
| "js_le _ _ = False"

definition js_ge :: "jsnum \<Rightarrow> jsnum \<Rightarrow> bool" where
  "js_ge a b = js_le b a"

text \<open>\<open>Math.max\<close> and \<open>Math.min\<close> return \<open>NaN\<close> as soon as one argument is \<open>NaN\<close>.\<close>

fun js_max :: "jsnum \<Rightarrow> jsnum \<Rightarrow> jsnum" where
  "js_max NaN _ = NaN"
| "js_max _ NaN = NaN"
| "js_max a b = (if js_le a b then b else a)"

fun js_min :: "jsnum \<Rightarrow> jsnum \<Rightarrow> jsnum" where
  "js_min NaN _ = NaN"
| "js_min _ NaN = NaN"
| "js_min a b = (if js_le a b then a else b)"

text \<open>\<open>Math.round\<close> rounds to the nearest integer, a half towards \<open>+Infinity\<close>.\<close>

fun js_round :: "jsnum \<Rightarrow> jsnum" where
  "js_round (Num a) = Num (of_int \<lfloor>a + 1 / 2\<rfloor>)"
| "js_round x = x"

fun js_sqrt :: "jsnum \<Rightarrow> jsnum" where
  "js_sqrt (Num a) = (if a < 0 then NaN else Num (sqrt a))"
| "js_sqrt PosInf = PosInf"
| "js_sqrt _ = NaN"

fun js_log10 :: "jsnum \<Rightarrow> jsnum" where
  "js_log10 (Num a) = (if a < 0 then NaN else if a = 0 then NegInf else Num (log 10 a))"
| "js_log10 PosInf = PosInf"
| "js_log10 _ = NaN"

text \<open>
  Rounding to the nearest double: 53 significant bits, ties to the even significand. The
  exponent is not bounded (no overflow and no subnormal numbers).
\<close>

definition round_even :: "real \<Rightarrow> int" where
  "round_even x =
     (let f = \<lfloor>x\<rfloor>; d = x - of_int f
      in if d < 1 / 2 then f else if 1 / 2 < d then f + 1 else if even f then f else f + 1)"

definition fl :: "real \<Rightarrow> real" where
  "fl x =
     (if x = 0 then 0
      else (let e = \<lfloor>log 2 \<bar>x\<bar>\<rfloor>; u = 2 powr (of_int e - 52)
            in of_int (round_even (x / u)) * u))"

section \<open>Adaptive parameter optimizer\<close>

subsection \<open>Data\<close>

text \<open>The analysis of a GIF file (\<open>GIFAnalysis\<close>): sizes and counts are whole numbers.\<close>

record analysis =
  fileSize :: nat
  width :: nat
  height :: nat
  frames :: nat
  format :: string
  density :: nat
  hasAlpha :: bool

text \<open>
  The merged options (\<open>OptimizationOptions\<close>) and the defaults of the module. A number in
  them is a double: the literal \<open>0.62\<close> is \<open>fl (62 / 100)\<close>.
\<close>

record options =
  targetCompressionRatio :: real
  minPSNR :: real
  maxQuality :: real
  minQuality :: real
  maxEffort :: real
  allowLossless :: bool

definition DEFAULT_OPTIONS :: options where
  "DEFAULT_OPTIONS = \<lparr> targetCompressionRatio = fl (62 / 100), minPSNR = 35, maxQuality = 95,
     minQuality = 45, maxEffort = 6, allowLossless = False \<rparr>"

text \<open>
  The options a caller passes: every key may be absent. \<open>{ ...DEFAULT_OPTIONS, ...options }\<close>
  takes the caller's value where the key is present and the default elsewhere.
\<close>

record overrides =
  o_targetCompressionRatio :: "real option"
  o_minPSNR :: "real option"
  o_maxQuality :: "real option"
  o_minQuality :: "real option"
  o_maxEffort :: "real option"
  o_allowLossless :: "bool option"

definition no_overrides :: overrides where
  "no_overrides = \<lparr> o_targetCompressionRatio = None, o_minPSNR = None, o_maxQuality = None,
     o_minQuality = None, o_maxEffort = None, o_allowLossless = None \<rparr>"

definition spread :: "options \<Rightarrow> overrides \<Rightarrow> options" where
  "spread d ov = \<lparr>
     targetCompressionRatio =
       (case o_targetCompressionRatio ov of None \<Rightarrow> targetCompressionRatio d | Some v \<Rightarrow> v),
     minPSNR = (case o_minPSNR ov of None \<Rightarrow> minPSNR d | Some v \<Rightarrow> v),
     maxQuality = (case o_maxQuality ov of None \<Rightarrow> maxQuality d | Some v \<Rightarrow> v),
     minQuality = (case o_minQuality ov of None \<Rightarrow> minQuality d | Some v \<Rightarrow> v),
     maxEffort = (case o_maxEffort ov of None \<Rightarrow> maxEffort d | Some v \<Rightarrow> v),
     allowLossless = (case o_allowLossless ov of None \<Rightarrow> allowLossless d | Some v \<Rightarrow> v) \<rparr>"

text \<open>A merged record passed on as the options of a nested call: every key is present.\<close>

definition as_overrides :: "options \<Rightarrow> overrides" where
  "as_overrides p = \<lparr> o_targetCompressionRatio = Some (targetCompressionRatio p),
     o_minPSNR = Some (minPSNR p), o_maxQuality = Some (maxQuality p),
     o_minQuality = Some (minQuality p), o_maxEffort = Some (maxEffort p),
     o_allowLossless = Some (allowLossless p) \<rparr>"

datatype strategy = Compression | Quality | Balanced

text \<open>
  The result (\<open>OptimizationResult\<close>). Of the metadata the strategy label, the strategy the
  adaptive selector chose and its reason are kept; \<open>predictedSize\<close> is a \<open>Math.floor\<close>.

  The target ratio and the predicted ratio, size and PSNR are fractions: each operation on
  them, and each decimal literal, is rounded by \<open>fl\<close>, in the order in which the source
  writes it. The quality is computed from whole numbers (the base quality, the floor of the
  adjustment, the penalties 10 and 5) and the caller's two bounds; its subtractions and the
  sum of two qualities are exact in doubles for whole-number bounds, and are written
  without rounding.
\<close>

record opt_result =
  quality :: real
  effort :: real
  lossless :: bool
  predictedSize :: int
  compressionRatio :: real
  estimatedPSNR :: jsnum
  optimizationStrategy :: string
  selectedStrategy :: "strategy option"
  selectionReason :: "string option"

datatype opt_error = AnalysisFailed string | AdaptiveFailed opt_error

subsection \<open>Base quality and the three strategies\<close>

definition predictQualityFromSize :: "nat \<Rightarrow> nat \<Rightarrow> nat \<Rightarrow> real" where
  "predictQualityFromSize w h f =
     (let totalPixels = w * h * f in
      if totalPixels < 50000 then 85
      else if totalPixels < 200000 then 80
      else if totalPixels < 800000 then 75
      else if totalPixels < 2000000 then 70
      else 65)"

definition optimizeForCompression :: "analysis \<Rightarrow> overrides \<Rightarrow> opt_result" where
  "optimizeForCompression a ov =
     (let opts = spread DEFAULT_OPTIONS ov;
          baseQuality = predictQualityFromSize (width a) (height a) (frames a);
          targetSizeReduction = targetCompressionRatio opts;
          qualityAdjustment = real_of_int \<lfloor>fl (fl (1 - targetSizeReduction) * 30)\<rfloor>;
          q0 = max (minQuality opts) (min (maxQuality opts) (baseQuality - qualityAdjustment));
          q1 = (if width a * height a > 1000000 then max (minQuality opts) (q0 - 10) else q0);
          recommendedQuality = (if frames a > 20 then max (minQuality opts) (q1 - 5) else q1);
          estimatedCompressionRatio =
            min (fl (8 / 10))
              (fl (fl (3 / 10) + fl (fl (fl (100 - recommendedQuality) / 100) * fl (4 / 10))))
      in \<lparr> quality = recommendedQuality,
           effort = maxEffort opts,
           lossless = False,
           predictedSize = \<lfloor>fl (real (fileSize a) * fl (1 - estimatedCompressionRatio))\<rfloor>,
           compressionRatio = estimatedCompressionRatio,
           estimatedPSNR = Num (max 30 (fl (25 + fl (fl (recommendedQuality / 100) * 20)))),
           optimizationStrategy = ''compression-focused'',
           selectedStrategy = None,
           selectionReason = None \<rparr>)"

definition optimizeForQuality :: "analysis \<Rightarrow> overrides \<Rightarrow> opt_result" where
  "optimizeForQuality a ov =
     (let opts = spread DEFAULT_OPTIONS ov;
          recommendedQuality =
            (if fileSize a > 5 * 1024 * 1024 then 80
             else if fileSize a > 1 * 1024 * 1024 then 85
             else 90)
      in if allowLossless opts \<and> fileSize a < 2 * 1024 * 1024 then
           \<lparr> quality = 100,
             effort = maxEffort opts,
             lossless = True,
             predictedSize = \<lfloor>fl (real (fileSize a) * fl (7 / 10))\<rfloor>,
             compressionRatio = fl (3 / 10),
             estimatedPSNR = PosInf,
             optimizationStrategy = ''quality-focused-lossless'',
             selectedStrategy = None,
             selectionReason = None \<rparr>
         else
           (let estimatedCompressionRatio =
                  min (fl (6 / 10))
                    (fl (fl (2 / 10)
                         + fl (fl (fl (100 - recommendedQuality) / 100) * fl (3 / 10))))
            in \<lparr> quality = recommendedQuality,
                 effort = maxEffort opts,
                 lossless = False,
                 predictedSize =
                   \<lfloor>fl (real (fileSize a) * fl (1 - estimatedCompressionRatio))\<rfloor>,
                 compressionRatio = estimatedCompressionRatio,
                 estimatedPSNR =
                   Num (max (minPSNR opts) (fl (30 + fl (fl (recommendedQuality / 100) * 25)))),
                 optimizationStrategy = ''quality-focused'',
                 selectedStrategy = None,
                 selectionReason = None \<rparr>))"

definition optimizeBalanced :: "analysis \<Rightarrow> overrides \<Rightarrow> opt_result" where
  "optimizeBalanced a ov =
     (let opts = spread DEFAULT_OPTIONS ov;
          compressionResult = optimizeForCompression a (as_overrides opts);
          qualityResult = optimizeForQuality a (as_overrides opts);
          balancedQuality =
            real_of_int \<lfloor>(quality compressionResult + quality qualityResult) / 2\<rfloor>;
          balancedCompressionRatio =
            fl (fl (compressionRatio compressionResult + compressionRatio qualityResult) / 2)
      in \<lparr> quality = balancedQuality,
           effort = maxEffort opts,
           lossless = False,
           predictedSize = \<lfloor>fl (real (fileSize a) * fl (1 - balancedCompressionRatio))\<rfloor>,
           compressionRatio = balancedCompressionRatio,
           estimatedPSNR =
             Num (max (minPSNR opts) (fl (30 + fl (fl (balancedQuality / 100) * 25)))),
           optimizationStrategy = ''balanced'',
           selectedStrategy = None,
           selectionReason = None \<rparr>)"

subsection \<open>The adaptive selector\<close>

text \<open>The strategy chosen by the branches of \<open>optimizeAdaptive\<close>.\<close>

definition selectStrategy :: "analysis \<Rightarrow> strategy" where
  "selectStrategy a =
     (if fileSize a > 10 * 1024 * 1024 then Compression
      else if fileSize a < 500 * 1024 then Quality
      else if width a * height a > 2000000 then Compression
      else if frames a > 50 then Compression
      else Balanced)"

text \<open>The reason strings of the source, as UTF-8 bytes.\<close>

definition reason_large_file :: string where
  "reason_large_file = [CHR 0xEB, CHR 0x8C, CHR 0x80, CHR 0xEC, CHR 0x9A, CHR 0xA9, CHR 0xEB,
     CHR 0x9F, CHR 0x89, CHR 0x20, CHR 0xED, CHR 0x8C, CHR 0x8C, CHR 0xEC, CHR 0x9D, CHR 0xBC]
     @ '' (>10MB)''"

definition reason_small_file :: string where
  "reason_small_file = [CHR 0xEC, CHR 0x86, CHR 0x8C, CHR 0xEC, CHR 0x9A, CHR 0xA9, CHR 0xEB,
     CHR 0x9F, CHR 0x89, CHR 0x20, CHR 0xED, CHR 0x8C, CHR 0x8C, CHR 0xEC, CHR 0x9D, CHR 0xBC]
     @ '' (<500KB)''"

definition reason_high_res :: string where
  "reason_high_res = [CHR 0xEA, CHR 0xB3, CHR 0xA0, CHR 0xED, CHR 0x95, CHR 0xB4, CHR 0xEC,
     CHR 0x83, CHR 0x81, CHR 0xEB, CHR 0x8F, CHR 0x84, CHR 0x20, CHR 0xEC, CHR 0x9D, CHR 0xB4,
     CHR 0xEB, CHR 0xAF, CHR 0xB8, CHR 0xEC, CHR 0xA7, CHR 0x80]"

definition reason_many_frames :: string where
  "reason_many_frames = [CHR 0xEB, CHR 0x8B, CHR 0xA4, CHR 0xEB, CHR 0x9F, CHR 0x89, CHR 0x20,
     CHR 0xED, CHR 0x94, CHR 0x84, CHR 0xEB, CHR 0xA0, CHR 0x88, CHR 0xEC, CHR 0x9E, CHR 0x84]
     @ '' (>50)''"

definition reason_default :: string where
  "reason_default = [CHR 0xEA, CHR 0xB8, CHR 0xB0, CHR 0xEB, CHR 0xB3, CHR 0xB8, CHR 0x20,
     CHR 0xEA, CHR 0xB7, CHR 0xA0, CHR 0xED, CHR 0x98, CHR 0x95, CHR 0x20, CHR 0xEC, CHR 0xA0,
     CHR 0x84, CHR 0xEB, CHR 0x9E, CHR 0xB5]"

text \<open>\<open>Array.prototype.join\<close>.\<close>

fun join :: "string \<Rightarrow> string list \<Rightarrow> string" where
  "join sep [] = []"
| "join sep [x] = x"
| "join sep (x # y # ys) = x @ sep @ join sep (y # ys)"

definition getStrategyReason :: "analysis \<Rightarrow> strategy \<Rightarrow> string" where
  "getStrategyReason a s =
     (let reasons =
            (if fileSize a > 10 * 1024 * 1024 then [reason_large_file] else [])
          @ (if fileSize a < 500 * 1024 then [reason_small_file] else [])
          @ (if width a * height a > 2000000 then [reason_high_res] else [])
          @ (if frames a > 50 then [reason_many_frames] else [])
      in if length reasons > 0 then join '', '' reasons else reason_default)"

text \<open>
  \<open>optimizeAdaptive\<close> first probes the file (\<open>analyzeGIF\<close>: a stat and the image metadata,
  both of the codec and the file system). The outcome of the probe is the argument here;
  a failed probe is rethrown wrapped.
\<close>

definition optimizeAdaptive :: "opt_error + analysis \<Rightarrow> overrides \<Rightarrow> opt_error + opt_result" where
  "optimizeAdaptive probe ov =
     (case probe of
        Inl e \<Rightarrow> Inl (AdaptiveFailed e)
      | Inr a \<Rightarrow>
          (let opts = spread DEFAULT_OPTIONS ov;
               strategy = selectStrategy a;
               result =
                 (case strategy of
                    Compression \<Rightarrow> optimizeForCompression a (as_overrides opts)
                  | Quality \<Rightarrow> optimizeForQuality a (as_overrides opts)
                  | Balanced \<Rightarrow> optimizeBalanced a (as_overrides opts))
           in Inr (result \<lparr> selectedStrategy := Some strategy,
                            selectionReason := Some (getStrategyReason a strategy) \<rparr>)))"

text \<open>
  The selector as the specification words it: an ordered list of rules, the first rule
  whose condition holds decides, and the balanced strategy is the default.
\<close>

definition adaptive_rules :: "((analysis \<Rightarrow> bool) \<times> strategy) list" where
  "adaptive_rules =
     [(\<lambda>a. fileSize a > 10 * 1024 * 1024, Compression),
      (\<lambda>a. fileSize a < 500 * 1024, Quality),
      (\<lambda>a. width a * height a > 2000000, Compression),
      (\<lambda>a. frames a > 50, Compression)]"

fun first_match :: "(('a \<Rightarrow> bool) \<times> strategy) list \<Rightarrow> 'a \<Rightarrow> strategy" where
  "first_match [] a = Balanced"
| "first_match ((p, s) # rs) a = (if p a then s else first_match rs a)"

definition scenario_attributes :: analysis where
  "scenario_attributes = \<lparr> fileSize = 12000000, width = 1920, height = 1080, frames = 30,
     format = ''gif'', density = 72, hasAlpha = False \<rparr>"

subsection \<open>Terms of the claims about the optimizer\<close>

text \<open>The results of the four strategies on one input.\<close>

definition strategy_results :: "analysis \<Rightarrow> overrides \<Rightarrow> opt_result list" where
  "strategy_results a ov =
     [optimizeForCompression a ov, optimizeForQuality a ov, optimizeBalanced a ov]
     @ (case optimizeAdaptive (Inr a) ov of Inr r \<Rightarrow> [r] | Inl e \<Rightarrow> [])"

text \<open>\<open>clamp(x, lo, hi)\<close> of the specification.\<close>

definition clamp :: "real \<Rightarrow> real \<Rightarrow> real \<Rightarrow> real" where
  "clamp x lo hi = max lo (min hi x)"

definition baseQuality :: "analysis \<Rightarrow> real" where
  "baseQuality a = predictQualityFromSize (width a) (height a) (frames a)"

definition targetAdjustment :: "options \<Rightarrow> real" where
  "targetAdjustment opts =
     real_of_int \<lfloor>fl (fl (1 - targetCompressionRatio opts) * 30)\<rfloor>"

text \<open>
  The quality of the compression strategy as the specification words it: both penalties
  are subtracted first and the difference is clamped once.
\<close>

definition claimed_compression_quality :: "analysis \<Rightarrow> options \<Rightarrow> real" where
  "claimed_compression_quality a opts =
     clamp (baseQuality a - targetAdjustment opts
              - (if width a * height a > 1000000 then 10 else 0)
              - (if frames a > 20 then 5 else 0))
           (minQuality opts) (maxQuality opts)"

text \<open>
  The order of the source: the adjusted base quality is clamped to both bounds, then each
  penalty is subtracted and the difference is raised to the lower bound only.
\<close>

definition stepwise_compression_quality :: "analysis \<Rightarrow> options \<Rightarrow> real" where
  "stepwise_compression_quality a opts =
     max (minQuality opts)
       (max (minQuality opts)
          (clamp (baseQuality a - targetAdjustment opts) (minQuality opts) (maxQuality opts)
             - (if width a * height a > 1000000 then 10 else 0))
        - (if frames a > 20 then 5 else 0))"

text \<open>Concrete inputs.\<close>

definition small_gif :: analysis where
  "small_gif = \<lparr> fileSize = 1001, width = 10, height = 10, frames = 30,
     format = ''gif'', density = 72, hasAlpha = False \<rparr>"

definition low_ceiling :: overrides where
  "low_ceiling = no_overrides \<lparr> o_maxQuality := Some 60 \<rparr>"

definition lossless_on :: overrides where
  "lossless_on = no_overrides \<lparr> o_allowLossless := Some True \<rparr>"

definition high_effort :: overrides where
  "high_effort = no_overrides \<lparr> o_maxEffort := Some 9 \<rparr>"

definition high_floor :: overrides where
  "high_floor = no_overrides \<lparr> o_minQuality := Some 93 \<rparr>"

definition tight_target :: overrides where
  "tight_target = no_overrides \<lparr> o_targetCompressionRatio := Some (fl (9 / 10)) \<rparr>"

definition half_floor :: overrides where
  "half_floor = no_overrides \<lparr> o_minQuality := Some (159 / 2) \<rparr>"

definition one_frame :: analysis where
  "one_frame = \<lparr> fileSize = 1000, width = 10, height = 10, frames = 1,
     format = ''gif'', density = 72, hasAlpha = False \<rparr>"

definition large_gif :: analysis where
  "large_gif = \<lparr> fileSize = 6000000, width = 10, height = 10, frames = 1,
     format = ''gif'', density = 72, hasAlpha = False \<rparr>"

section \<open>Pixel comparison and quality scoring\<close>

subsection \<open>Thresholds\<close>

record threshold =
  th_psnr :: real
  th_ssim :: real
  th_score :: real

definition QT_excellent :: threshold where
  "QT_excellent = \<lparr> th_psnr = 40, th_ssim = 95 / 100, th_score = 90 \<rparr>"

definition QT_good :: threshold where
  "QT_good = \<lparr> th_psnr = 35, th_ssim = 90 / 100, th_score = 75 \<rparr>"

definition QT_acceptable :: threshold where
  "QT_acceptable = \<lparr> th_psnr = 30, th_ssim = 85 / 100, th_score = 60 \<rparr>"

definition QT_poor :: threshold where
  "QT_poor = \<lparr> th_psnr = 25, th_ssim = 80 / 100, th_score = 40 \<rparr>"

definition QT_unacceptable :: threshold where
  "QT_unacceptable = \<lparr> th_psnr = 20, th_ssim = 70 / 100, th_score = 20 \<rparr>"

subsection \<open>Mean squared error\<close>

datatype quality_error = SizeMismatch | CompareFailed quality_error

text \<open>
  A pixel buffer is a \<open>Uint8Array\<close>. Reading past its end gives \<open>undefined\<close>, which the
  subtraction turns into \<open>NaN\<close>.
\<close>

type_synonym pixels = "8 word list"

definition px :: "pixels \<Rightarrow> nat \<Rightarrow> jsnum" where
  "px a k = (if k < length a then Num (real (unat (a ! k))) else NaN)"

text \<open>The inner loop over the channels of the pixel that starts at index \<open>i\<close>.\<close>

definition channel_loop :: "pixels \<Rightarrow> pixels \<Rightarrow> nat \<Rightarrow> nat \<Rightarrow> jsnum \<Rightarrow> jsnum" where
  "channel_loop a b channels i totalSquaredDiff =
     fold (\<lambda>c acc. let diff = js_sub (px a (i + c)) (px b (i + c))
                     in js_add acc (js_mul diff diff))
          [0..<channels] totalSquaredDiff"

text \<open>
  The outer loop steps by \<open>channels\<close>: with \<open>channels = 0\<close> and a non-empty buffer it never
  ends, which is the value \<open>None\<close>.
\<close>

partial_function (option) pixel_loop ::
  "pixels \<Rightarrow> pixels \<Rightarrow> nat \<Rightarrow> nat \<Rightarrow> jsnum \<Rightarrow> jsnum option" where
  "pixel_loop a b channels i totalSquaredDiff =
     (if i < length a
      then pixel_loop a b channels (i + channels) (channel_loop a b channels i totalSquaredDiff)
      else Some totalSquaredDiff)"

definition calculateMSE :: "pixels \<Rightarrow> pixels \<Rightarrow> nat \<Rightarrow> (quality_error + jsnum) option" where
  "calculateMSE originalPixels compressedPixels channels =
     (if length originalPixels \<noteq> length compressedPixels then Some (Inl SizeMismatch)
      else
        (let pixelCount = js_div (Num (real (length originalPixels))) (Num (real channels))
         in case pixel_loop originalPixels compressedPixels channels 0 (Num 0) of
              None \<Rightarrow> None
            | Some totalSquaredDiff \<Rightarrow>
                Some (Inr (js_div totalSquaredDiff (js_mul pixelCount (Num (real channels)))))))"

subsection \<open>PSNR, estimated SSIM, score and grade\<close>

definition calculatePSNR :: "jsnum \<Rightarrow> jsnum \<Rightarrow> jsnum" where
  "calculatePSNR mse maxPixelValue =
     (if mse = Num 0 then PosInf
      else
        (let psnr = js_mul (Num 20) (js_log10 (js_div maxPixelValue (js_sqrt mse)))
         in js_div (js_round (js_mul psnr (Num 100))) (Num 100)))"

definition estimateSSIM :: "jsnum \<Rightarrow> jsnum" where
  "estimateSSIM psnr =
     (if psnr = PosInf then Num 1
      else
        (let normalizedPSNR = js_div (js_max (Num 0) (js_min (Num 50) psnr)) (Num 50);
             ssim = js_add (Num (5 / 10)) (js_mul normalizedPSNR (Num (5 / 10)))
         in js_div (js_round (js_mul ssim (Num 1000))) (Num 1000)))"

text \<open>The value of the local \<open>psnrScore\<close> of \<open>calculateQualityScore\<close>.\<close>

definition psnrScore :: "jsnum \<Rightarrow> jsnum" where
  "psnrScore psnr =
     (if js_ge psnr (Num (th_psnr QT_excellent)) then Num 100
      else if js_ge psnr (Num (th_psnr QT_good)) then
        js_add (Num 75)
          (js_mul (js_div (js_sub psnr (Num (th_psnr QT_good)))
                          (Num (th_psnr QT_excellent - th_psnr QT_good))) (Num 25))
      else if js_ge psnr (Num (th_psnr QT_acceptable)) then
        js_add (Num 50)
          (js_mul (js_div (js_sub psnr (Num (th_psnr QT_acceptable)))
                          (Num (th_psnr QT_good - th_psnr QT_acceptable))) (Num 25))
      else js_max (Num 0) (js_mul (js_div psnr (Num (th_psnr QT_acceptable))) (Num 50)))"

definition calculateQualityScore :: "jsnum \<Rightarrow> jsnum \<Rightarrow> jsnum \<Rightarrow> jsnum" where
  "calculateQualityScore psnr ssim ratio =
     (let ssimScore = js_mul ssim (Num 100);
          compressionBonus = js_min (Num 10) (js_mul ratio (Num 15));
          totalScore =
            js_add (js_add (js_mul (psnrScore psnr) (Num (6 / 10)))
                           (js_mul ssimScore (Num (3 / 10))))
                   (js_mul compressionBonus (Num (1 / 10)))
      in js_round (js_min (Num 100) (js_max (Num 0) totalScore)))"

definition getQualityGrade :: "jsnum \<Rightarrow> jsnum \<Rightarrow> jsnum \<Rightarrow> string" where
  "getQualityGrade psnr ssim qualityScore =
     (if js_ge psnr (Num (th_psnr QT_excellent)) \<and> js_ge qualityScore (Num (th_score QT_excellent))
      then ''excellent''
      else if js_ge psnr (Num (th_psnr QT_good)) \<and> js_ge qualityScore (Num (th_score QT_good))
      then ''good''
      else if js_ge psnr (Num (th_psnr QT_acceptable))
              \<and> js_ge qualityScore (Num (th_score QT_acceptable))
      then ''acceptable''
      else if js_ge psnr (Num (th_psnr QT_poor)) then ''poor''
      else ''unacceptable'')"

subsection \<open>Comparing two images\<close>

text \<open>
  A decoded image, as \<open>imageToPixelArray\<close> returns it, and the result of a comparison
  (of the metadata the grade is kept).
\<close>

record raw_image =
  data :: pixels
  img_width :: nat
  img_height :: nat
  img_channels :: nat

record quality_result =
  r_psnr :: jsnum
  r_mse :: jsnum
  r_ssim :: jsnum
  r_compressionRatio :: jsnum
  r_qualityScore :: jsnum
  r_qualityGrade :: string

text \<open>
  \<open>compareImageQuality\<close> after its reads: the two file sizes and the two decoded images are
  the arguments (a failed stat or decode is not modelled). An error of \<open>calculateMSE\<close> is
  rethrown wrapped.
\<close>

definition compareImageQuality ::
  "nat \<Rightarrow> nat \<Rightarrow> raw_image \<Rightarrow> raw_image \<Rightarrow> (quality_error + quality_result) option" where
  "compareImageQuality originalSize compressedSize originalPixels compressedPixels =
     (let compressionRatio =
            js_div (js_sub (Num (real originalSize)) (Num (real compressedSize)))
                   (Num (real originalSize));
          channels = min (min (img_channels originalPixels) (img_channels compressedPixels)) 3
      in case calculateMSE (data originalPixels) (data compressedPixels) channels of
           None \<Rightarrow> None
         | Some (Inl e) \<Rightarrow> Some (Inl (CompareFailed e))
         | Some (Inr mse) \<Rightarrow>
             (let psnr = calculatePSNR mse (Num 255);
                  ssim = estimateSSIM psnr;
                  qualityScore = calculateQualityScore psnr ssim compressionRatio;
                  qualityGrade = getQualityGrade psnr ssim qualityScore
              in Some (Inr \<lparr> r_psnr = psnr, r_mse = mse, r_ssim = ssim,
                               r_compressionRatio = compressionRatio,
                               r_qualityScore = qualityScore,
                               r_qualityGrade = qualityGrade \<rparr>)))"

declare pixel_loop.simps [code]

subsection \<open>Terms of the claims about the quality metrics\<close>

text \<open>The squared difference of two buffers at index \<open>k\<close>.\<close>

definition sq_diff :: "pixels \<Rightarrow> pixels \<Rightarrow> nat \<Rightarrow> real" where
  "sq_diff a b k = (real (unat (a ! k)) - real (unat (b ! k)))\<^sup>2"

text \<open>
  The values of \<open>psnrScore\<close> and \<open>calculateQualityScore\<close> on finite arguments, as real
  functions.
\<close>

definition psnr_points :: "real \<Rightarrow> real" where
  "psnr_points p =
     (if 40 \<le> p then 100
      else if 35 \<le> p then 75 + (p - 35) / 5 * 25
      else if 30 \<le> p then 50 + (p - 30) / 5 * 25
      else max 0 (p / 30 * 50))"

definition score_of_points :: "real \<Rightarrow> real \<Rightarrow> real \<Rightarrow> real" where
  "score_of_points x s r =
     of_int \<lfloor>min 100 (max 0 (x * (6 / 10) + s * 100 * (3 / 10) + min 10 (r * 15) * (1 / 10)))
              + 1 / 2\<rfloor>"

text \<open>A decoded image of one pixel.\<close>

definition flat_image :: raw_image where
  "flat_image = \<lparr> data = [10, 20, 30], img_width = 1, img_height = 1, img_channels = 3 \<rparr>"

section \<open>Converter\<close>

text \<open>The running totals of a converter (\<open>this.stats\<close>).\<close>

record stats =
  processed :: nat
  failed :: nat
  totalSizeBefore :: nat
  totalSizeAfter :: nat

text \<open>The totals of a new converter, and of one after \<open>resetStats\<close>.\<close>

definition resetStats :: stats where
  "resetStats = \<lparr> processed = 0, failed = 0, totalSizeBefore = 0, totalSizeAfter = 0 \<rparr>"

definition updateStats :: "stats \<Rightarrow> nat \<Rightarrow> nat \<Rightarrow> bool \<Rightarrow> stats" where
  "updateStats st inputSize outputSize ok =
     (if ok then st \<lparr> processed := processed st + 1,
                       totalSizeBefore := totalSizeBefore st + inputSize,
                       totalSizeAfter := totalSizeAfter st + outputSize \<rparr>
      else st \<lparr> failed := failed st + 1 \<rparr>)"

text \<open>What \<open>getStats\<close> returns: the totals, the ratio as a percentage and the bytes saved.\<close>

record stats_report =
  rep_processed :: nat
  rep_failed :: nat
  rep_totalSizeBefore :: nat
  rep_totalSizeAfter :: nat
  totalCompressionRatio :: real
  totalSaved :: int

definition getStats :: "stats \<Rightarrow> stats_report" where
  "getStats st =
     \<lparr> rep_processed = processed st,
       rep_failed = failed st,
       rep_totalSizeBefore = totalSizeBefore st,
       rep_totalSizeAfter = totalSizeAfter st,
       totalCompressionRatio =
         (if totalSizeBefore st > 0
          then ((real (totalSizeBefore st) - real (totalSizeAfter st)) / real (totalSizeBefore st))
               * 100
          else 0),
       totalSaved = int (totalSizeBefore st) - int (totalSizeAfter st) \<rparr>"

text \<open>
  Everything \<open>convertFile\<close> does inside its \<open>try\<close> block is input and output: the
  validation of the input file, the directory creation, the two stats, the encoder and the
  write. For one input path the environment either lets all of it pass, with the byte sizes
  of the input and of the written output, or throws somewhere with a message.
\<close>

datatype attempt = Encoded nat nat | Throws string

text \<open>
  The record \<open>convertFile\<close> returns: \<open>success: true\<close> with both paths and both sizes, or
  \<open>success: false\<close> with the input path and the message (the processing time and the ratio
  of the single file are left out).
\<close>

datatype conv_result = Converted string string nat nat | NotConverted string string

fun success :: "conv_result \<Rightarrow> bool" where
  "success (Converted inputPath outputPath inputSize outputSize) = True"
| "success (NotConverted inputPath msg) = False"

fun inputPath :: "conv_result \<Rightarrow> string" where
  "inputPath (Converted p outputPath inputSize outputSize) = p"
| "inputPath (NotConverted p msg) = p"

text \<open>
  \<open>convertFile\<close> catches every error of its body, counts the failure and returns a record:
  it never throws.
\<close>

definition convertFile ::
  "(string \<Rightarrow> attempt) \<Rightarrow> stats \<Rightarrow> string \<Rightarrow> string \<Rightarrow> conv_result \<times> stats" where
  "convertFile codec st inPath outPath =
     (case codec inPath of
        Encoded inputSize outputSize \<Rightarrow>
          (Converted inPath outPath inputSize outputSize,
           updateStats st inputSize outputSize True)
      | Throws msg \<Rightarrow> (NotConverted inPath msg, updateStats st 0 0 False))"

section \<open>Batch processor\<close>

subsection \<open>Processor, environment and the job of one item\<close>

text \<open>The event passed to the progress callback.\<close>

record progress =
  prog_completed :: nat
  prog_total :: nat
  prog_current :: string
  prog_result :: conv_result

text \<open>
  A batch processor: its two options, the progress callback (\<open>Some msg\<close> when the callback
  throws) and the totals of its converter.
\<close>

record batch_processor =
  concurrency :: nat
  stopOnError :: bool
  progressCallback :: "(progress \<Rightarrow> string option) option"
  converter_stats :: stats

text \<open>
  The constructor: a key that the caller passes wins over the default (the spread of
  \<open>options\<close> comes last), the callback is unset and the totals are zero.
\<close>

definition new_BatchProcessor :: "nat option \<Rightarrow> bool option \<Rightarrow> batch_processor" where
  "new_BatchProcessor conc stop =
     \<lparr> concurrency = (case conc of None \<Rightarrow> 4 | Some c \<Rightarrow> c),
       stopOnError = (case stop of None \<Rightarrow> False | Some b \<Rightarrow> b),
       progressCallback = None,
       converter_stats = resetStats \<rparr>"

definition setProgressCallback ::
  "batch_processor \<Rightarrow> (progress \<Rightarrow> string option) \<Rightarrow> batch_processor" where
  "setProgressCallback bp callback = bp \<lparr> progressCallback := Some callback \<rparr>"

text \<open>
  The environment of a run: the codec and file system behind \<open>convertFile\<close>, the creation
  of the output directory (\<open>Some msg\<close> when it throws) and the output path that
  \<open>generateOutputPath\<close> computes with the path library.
\<close>

record environment =
  codec :: "string \<Rightarrow> attempt"
  ensureDir :: "string \<Rightarrow> string option"
  generateOutputPath :: "string \<Rightarrow> string \<Rightarrow> string"

datatype settlement = Resolved conv_result | Rejected string

text \<open>
  The job that \<open>convertFiles\<close> hands to the pool for one input path. It converts, counts the
  completion and calls the progress callback; it resolves with the record of
  \<open>convertFile\<close>, failed or not, and rejects only when the callback throws. The state it
  changes is the counter \<open>completed\<close> of the run and the totals of the converter.
\<close>

definition item_job ::
  "environment \<Rightarrow> batch_processor \<Rightarrow> string list \<Rightarrow> string \<Rightarrow> nat \<times> stats \<Rightarrow> string
     \<Rightarrow> settlement \<times> nat \<times> stats" where
  "item_job env bp inputPaths outputDir state inPath =
     (let outPath = generateOutputPath env inPath outputDir;
          (result, st) = convertFile (codec env) (snd state) inPath outPath;
          completed = fst state + 1
      in case progressCallback bp of
           None \<Rightarrow> (Resolved result, completed, st)
         | Some callback \<Rightarrow>
             (case callback \<lparr> prog_completed = completed, prog_total = length inputPaths,
                               prog_current = inPath, prog_result = result \<rparr> of
                None \<Rightarrow> (Resolved result, completed, st)
              | Some msg \<Rightarrow> (Rejected msg, completed, st)))"

subsection \<open>The work pool\<close>

text \<open>Modelled from the spec: the work pool behind \<open>pMap\<close>, a library whose code is not under
  src/. The specification describes it: at most \<open>C\<close> jobs are in flight; when a job
  finishes, the next queued item, if any and if the pool is not stopped, is admitted at
  once; with \<open>stopOnError\<close> a rejected job stops further admissions and the jobs in flight
  still finish; without it the rejection is collected and the pool goes on. Results are
  returned in input order. A concurrency below 1 is refused.

  The state of the pool: the index of the next queued item, the indices in flight, the
  result slots, the rejection that stopped the pool, the collected rejections, and the two
  pieces of state the jobs change (the counter of the run and the totals of the converter).
\<close>

record pool =
  next_index :: nat
  in_flight :: "nat list"
  result_slots :: "nat \<rightharpoonup> conv_result"
  rejection :: "string option"
  collected :: "string list"
  completed_count :: nat
  pool_stats :: stats

text \<open>Modelled from the spec: the admission of the next queued item by the pool of \<open>pMap\<close>
  (not under src/): nothing is admitted once the pool is stopped or the queue is empty.
\<close>

definition admit :: "nat \<Rightarrow> pool \<Rightarrow> pool" where
  "admit n p =
     (if rejection p \<noteq> None then p
      else if next_index p < n
      then p \<lparr> next_index := next_index p + 1, in_flight := in_flight p @ [next_index p] \<rparr>
      else p)"

text \<open>Modelled from the spec: the start of the pool of \<open>pMap\<close> (not under src/), which admits
  up to \<open>concurrency\<close> items.
\<close>

definition start_pool :: "batch_processor \<Rightarrow> nat \<Rightarrow> pool" where
  "start_pool bp n =
     (admit n ^^ concurrency bp)
       \<lparr> next_index = 0, in_flight = [], result_slots = Map.empty, rejection = None,
         collected = [], completed_count = 0, pool_stats = converter_stats bp \<rparr>"

text \<open>Modelled from the spec: the step of the pool of \<open>pMap\<close> (not under src/) when the job of
  item \<open>i\<close>, in flight, finishes. The job itself is \<open>item_job\<close>, from the source. A
  resolved job fills its result slot and the next item is admitted; a rejected job stops
  the pool under \<open>stopOnError\<close> and is collected otherwise.
\<close>

definition finish ::
  "environment \<Rightarrow> batch_processor \<Rightarrow> string list \<Rightarrow> string \<Rightarrow> pool \<Rightarrow> nat \<Rightarrow> pool option" where
  "finish env bp inputPaths outputDir p i =
     (if i \<notin> set (in_flight p) then None
      else
        (let (outcome, completed, st) =
               item_job env bp inputPaths outputDir (completed_count p, pool_stats p)
                 (inputPaths ! i);
             p1 = p \<lparr> in_flight := removeAll i (in_flight p), completed_count := completed,
                      pool_stats := st \<rparr>
         in Some
              (case outcome of
                 Resolved r \<Rightarrow>
                   admit (length inputPaths) (p1 \<lparr> result_slots := (result_slots p1)(i \<mapsto> r) \<rparr>)
               | Rejected msg \<Rightarrow>
                   if stopOnError bp
                   then p1 \<lparr> rejection :=
                               (case rejection p1 of None \<Rightarrow> Some msg | Some m \<Rightarrow> Some m) \<rparr>
                   else admit (length inputPaths) (p1 \<lparr> collected := collected p1 @ [msg] \<rparr>))))"

text \<open>Modelled from the spec: a run of the pool of \<open>pMap\<close> (not under src/). A schedule is the
  order in which the jobs finish, by item index; a schedule that names an item not in flight
  is not a run.
\<close>

fun run_pool ::
  "environment \<Rightarrow> batch_processor \<Rightarrow> string list \<Rightarrow> string \<Rightarrow> pool \<Rightarrow> nat list \<Rightarrow> pool option" where
  "run_pool env bp inputPaths outputDir p [] = Some p"
| "run_pool env bp inputPaths outputDir p (i # schedule) =
     (case finish env bp inputPaths outputDir p i of
        None \<Rightarrow> None
      | Some p' \<Rightarrow> run_pool env bp inputPaths outputDir p' schedule)"

text \<open>
  The status of item \<open>i\<close> in a state of the pool. Neither the source nor the pool keeps a
  status: an item is pending while it is queued, running while its job is in flight, and
  afterwards completed when its result slot holds a success record, failed otherwise (a
  failure record, or no record because the job was rejected).
\<close>

datatype task_status = Pending | Running | Completed | Failed

definition status_of :: "pool \<Rightarrow> nat \<Rightarrow> task_status" where
  "status_of p i =
     (if i \<in> set (in_flight p) then Running
      else if next_index p \<le> i then Pending
      else (case result_slots p i of
              Some r \<Rightarrow> if success r then Completed else Failed
            | None \<Rightarrow> Failed))"

text \<open>The number of items whose job has not finished: in flight or queued.\<close>

definition remaining :: "nat \<Rightarrow> pool \<Rightarrow> nat" where
  "remaining n p = length (in_flight p) + (n - next_index p)"

definition all_finished :: "nat \<Rightarrow> pool \<Rightarrow> bool" where
  "all_finished n p = (in_flight p = [] \<and> next_index p = n)"

subsection \<open>Converting a list of files and a directory\<close>

datatype batch_error =
  NoFiles | EnsureDirFailed string | BadConcurrency | JobRejected string
  | AggregateError "string list"

text \<open>
  \<open>convertFiles\<close> along a schedule. The value is what the caller gets (\<open>None\<close> while the
  promise is still pending at the end of the schedule) and the processor with the totals of
  its converter. An empty or missing list throws before anything else is done.
\<close>

definition convertFiles ::
  "environment \<Rightarrow> batch_processor \<Rightarrow> string list option \<Rightarrow> string \<Rightarrow> nat list
     \<Rightarrow> (batch_error + conv_result list) option \<times> batch_processor" where
  "convertFiles env bp inputPaths outputDir schedule =
     (case inputPaths of
        None \<Rightarrow> (Some (Inl NoFiles), bp)
      | Some paths \<Rightarrow>
          if length paths = 0 then (Some (Inl NoFiles), bp)
          else
            (case ensureDir env outputDir of
               Some msg \<Rightarrow> (Some (Inl (EnsureDirFailed msg)), bp)
             | None \<Rightarrow>
                 if concurrency bp < 1 then (Some (Inl BadConcurrency), bp)
                 else
                   (case run_pool env bp paths outputDir (start_pool bp (length paths)) schedule of
                      None \<Rightarrow> (None, bp)
                    | Some p \<Rightarrow>
                        (case rejection p of
                           Some msg \<Rightarrow> Some (Inl (JobRejected msg))
                         | None \<Rightarrow>
                             if \<not> all_finished (length paths) p then None
                             else if collected p \<noteq> [] then Some (Inl (AggregateError (collected p)))
                             else Some (Inr (map (\<lambda>i. the (result_slots p i)) [0..<length paths])),
                         bp \<lparr> converter_stats := pool_stats p \<rparr>))))"

text \<open>
  A directory tree as \<open>readdir\<close> shows it: a node is a file, a directory with its named
  entries, a directory that cannot be read (\<open>readdir\<close> throws) or something else.
\<close>

datatype fsnode = File | Dir "(string \<times> fsnode) list" | UnreadableDir | Other

text \<open>
  The path library on the names of a listing: \<open>extname\<close> is the part from the last dot on,
  empty when there is no dot or when the only dot leads the name; \<open>toLowerCase\<close> on the
  ASCII letters; \<open>join\<close> of a directory and a name.
\<close>

definition extname :: "string \<Rightarrow> string" where
  "extname name =
     (let tail = takeWhile (\<lambda>c. c \<noteq> CHR ''.'') (rev name);
          k = length name - length tail - 1
      in if CHR ''.'' \<notin> set name \<or> k = 0 then [] else drop k name)"

definition toLowerCase :: "string \<Rightarrow> string" where
  "toLowerCase s =
     map (\<lambda>c. case map_of (zip ''ABCDEFGHIJKLMNOPQRSTUVWXYZ'' ''abcdefghijklmnopqrstuvwxyz'') c of
                 None \<Rightarrow> c | Some l \<Rightarrow> l) s"

definition path_join :: "string \<Rightarrow> string \<Rightarrow> string" where
  "path_join d name = d @ ''/'' @ name"

text \<open>
  \<open>findGifFiles\<close> on the node at \<open>inputDir\<close>. A failed \<open>readdir\<close> is caught and leaves the
  list empty.
\<close>

fun findGifFiles :: "fsnode \<Rightarrow> string \<Rightarrow> bool \<Rightarrow> string list" where
  "findGifFiles (Dir entries) inputDir recursive =
     concat (map (\<lambda>(name, node).
        (case node of
           File \<Rightarrow>
             if toLowerCase (extname name) = ''.gif'' then [path_join inputDir name] else []
         | Other \<Rightarrow> []
         | _ \<Rightarrow>
             if recursive then findGifFiles node (path_join inputDir name) recursive else []))
       entries)"
| "findGifFiles node inputDir recursive = []"

definition convertDirectory ::
  "environment \<Rightarrow> batch_processor \<Rightarrow> fsnode \<Rightarrow> string \<Rightarrow> string
     \<Rightarrow> bool \<Rightarrow> nat list \<Rightarrow> (batch_error + conv_result list) option \<times> batch_processor" where
  "convertDirectory env bp node inputDir outputDir recursive schedule =
     (let gifFiles = findGifFiles node inputDir recursive
      in if length gifFiles = 0 then (Some (Inr []), bp)
         else convertFiles env bp (Some gifFiles) outputDir schedule)"

subsection \<open>Terms of the claims about batch runs\<close>

text \<open>The record that \<open>convertFile\<close> returns for a path, whatever the totals are.\<close>

definition record_of :: "environment \<Rightarrow> string \<Rightarrow> string \<Rightarrow> conv_result" where
  "record_of env outputDir path =
     (case codec env path of
        Encoded inputSize outputSize \<Rightarrow>
          Converted path (generateOutputPath env path outputDir) inputSize outputSize
      | Throws msg \<Rightarrow> NotConverted path msg)"

text \<open>The bytes a path adds to the totals, and whether its conversion succeeds.\<close>

definition bytes_before :: "environment \<Rightarrow> string \<Rightarrow> nat" where
  "bytes_before env path = (case codec env path of Encoded a b \<Rightarrow> a | Throws msg \<Rightarrow> 0)"

definition bytes_after :: "environment \<Rightarrow> string \<Rightarrow> nat" where
  "bytes_after env path = (case codec env path of Encoded a b \<Rightarrow> b | Throws msg \<Rightarrow> 0)"

definition converts :: "environment \<Rightarrow> string \<Rightarrow> bool" where
  "converts env path = (case codec env path of Encoded a b \<Rightarrow> True | Throws msg \<Rightarrow> False)"

text \<open>
  The totals after every path of the list has been converted once: the byte totals grow
  over the converted paths only, the failure count over the others.
\<close>

definition stats_after :: "environment \<Rightarrow> string list \<Rightarrow> stats \<Rightarrow> stats" where
  "stats_after env paths st =
     \<lparr> processed = processed st + length (filter (converts env) paths),
       failed = failed st + length (filter (\<lambda>path. \<not> converts env path) paths),
       totalSizeBefore =
         totalSizeBefore st + sum_list (map (bytes_before env) (filter (converts env) paths)),
       totalSizeAfter =
         totalSizeAfter st + sum_list (map (bytes_after env) (filter (converts env) paths)) \<rparr>"

text \<open>The items whose job has finished, and the totals after the items of a set.\<close>

definition settled :: "pool \<Rightarrow> nat set" where
  "settled p = {i. i < next_index p \<and> i \<notin> set (in_flight p)}"

definition tally :: "environment \<Rightarrow> string list \<Rightarrow> stats \<Rightarrow> nat set \<Rightarrow> stats" where
  "tally env paths st S =
     \<lparr> processed = processed st + (\<Sum>i \<in> S. if converts env (paths ! i) then 1 else 0),
       failed = failed st + (\<Sum>i \<in> S. if converts env (paths ! i) then 0 else 1),
       totalSizeBefore = totalSizeBefore st + (\<Sum>i \<in> S. bytes_before env (paths ! i)),
       totalSizeAfter = totalSizeAfter st + (\<Sum>i \<in> S. bytes_after env (paths ! i)) \<rparr>"

text \<open>The invariants of a run: of the pool, and of the totals and result slots.\<close>

definition pool_inv :: "nat \<Rightarrow> nat \<Rightarrow> pool \<Rightarrow> bool" where
  "pool_inv c n p =
     (distinct (in_flight p) \<and> (\<forall>i \<in> set (in_flight p). i < next_index p)
      \<and> next_index p \<le> n \<and> length (in_flight p) \<le> c
      \<and> (rejection p = None \<longrightarrow> next_index p = n \<or> length (in_flight p) = c))"

definition run_inv :: "environment \<Rightarrow> string list \<Rightarrow> string \<Rightarrow> stats \<Rightarrow> pool \<Rightarrow> bool" where
  "run_inv env paths out st0 p =
     (pool_stats p = tally env paths st0 (settled p)
      \<and> completed_count p = card (settled p)
      \<and> (\<forall>i r. result_slots p i = Some r \<longrightarrow> r = record_of env out (paths ! i))
      \<and> (rejection p = None \<and> collected p = [] \<longrightarrow>
            (\<forall>i \<in> settled p. result_slots p i \<noteq> None)))"

text \<open>Concrete inputs.\<close>

definition plain_env :: environment where
  "plain_env = \<lparr> codec = (\<lambda>p. if p = ''bad.gif'' then Throws ''not found'' else Encoded 100 50),
     ensureDir = (\<lambda>d. None),
     generateOutputPath = (\<lambda>p d. d @ ''/'' @ p @ ''.webp'') \<rparr>"

definition three_paths :: "string list" where
  "three_paths = [''a.gif'', ''b.gif'', ''c.gif'']"

definition two_at_once :: batch_processor where
  "two_at_once = new_BatchProcessor (Some 2) None"

definition stop_first :: batch_processor where
  "stop_first = new_BatchProcessor (Some 1) (Some True)"

definition bad_then_ok :: "string list" where
  "bad_then_ok = [''bad.gif'', ''ok.gif'']"

definition no_gifs_here :: fsnode where
  "no_gifs_here = Dir [(''notes.txt'', File), (''photo.png'', File),
                       (''sub'', Dir [(''inner.gif'', File)])]"

definition stop_two :: batch_processor where
  "stop_two = new_BatchProcessor (Some 2) (Some True)"

text \<open>A progress callback that throws when it is shown a failed conversion.\<close>

definition strict_observer :: "progress \<Rightarrow> string option" where
  "strict_observer event =
     (if success (prog_result event) then None else Some ''observer failed'')"

definition stop_two_observed :: batch_processor where
  "stop_two_observed = setProgressCallback stop_two strict_observer"

definition bad_first :: "string list" where
  "bad_first = [''bad.gif'', ''b.gif'', ''c.gif'']"

section \<open>Rounding to doubles\<close>

text \<open>
  A number whose magnitude lies in \<open>[2^(52 - k), 2^(53 - k))\<close> is rounded to a multiple of
  \<open>2^(- k)\<close>: the rounding of a given rational is a computation on integers.
\<close>

lemma fl_scaled:
  assumes lo: "2 ^ 52 \<le> \<bar>x\<bar> * 2 ^ k" and hi: "\<bar>x\<bar> * 2 ^ k < 2 ^ 53"
  shows "fl x = of_int (round_even (x * 2 ^ k)) / 2 ^ k"
proof -
  have pos: "0 < \<bar>x\<bar>"
  proof (rule ccontr)
    assume "\<not> 0 < \<bar>x\<bar>"
    then have "\<bar>x\<bar> = 0" by simp
    with lo show False by simp
  qed
  then have nz: "x \<noteq> 0" by auto
  have pk: "(2::real) powr real k = 2 ^ k" by (simp add: powr_realpow)
  have d52: "(2::real) powr (52 - real k) = 2 ^ 52 / 2 ^ k"
    unfolding powr_diff pk by simp
  have d53: "(2::real) powr (53 - real k) = 2 ^ 53 / 2 ^ k"
    unfolding powr_diff pk by simp
  have p1: "(2::real) powr (of_int (52 - int k)) \<le> \<bar>x\<bar>"
    using lo by (simp add: d52 field_simps)
  have p2: "\<bar>x\<bar> < (2::real) powr (of_int (52 - int k + 1))"
    using hi by (simp add: d53 field_simps)
  have e: "\<lfloor>log 2 \<bar>x\<bar>\<rfloor> = 52 - int k"
    using p1 p2 pos by (simp add: floor_log_eq_powr_iff)
  have u: "(2::real) powr (- real k) = 1 / 2 ^ k"
    unfolding powr_minus pk by (simp add: field_simps)
  show ?thesis using nz by (simp add: fl_def Let_def e u)
qed

section \<open>Properties of the optimizer\<close>

lemma spread_as_overrides: "spread d (as_overrides p) = p"
  by (simp add: spread_def as_overrides_def)

lemma compression_strategy_label:
  "optimizationStrategy (optimizeForCompression a ov) = ''compression-focused''"
  by (simp only: optimizeForCompression_def Let_def opt_result.select_convs)

lemma compression_quality:
  "quality (optimizeForCompression a ov) =
     (let opts = spread DEFAULT_OPTIONS ov;
          q0 = max (minQuality opts) (min (maxQuality opts)
                 (predictQualityFromSize (width a) (height a) (frames a)
                    - real_of_int \<lfloor>fl (fl (1 - targetCompressionRatio opts) * 30)\<rfloor>));
          q1 = (if width a * height a > 1000000 then max (minQuality opts) (q0 - 10) else q0)
      in if frames a > 20 then max (minQuality opts) (q1 - 5) else q1)"
  by (simp only: optimizeForCompression_def Let_def opt_result.select_convs)

lemma compression_effort:
  "effort (optimizeForCompression a ov) = maxEffort (spread DEFAULT_OPTIONS ov)"
  by (simp only: optimizeForCompression_def Let_def opt_result.select_convs)

lemma compression_ratio:
  "compressionRatio (optimizeForCompression a ov) =
     min (fl (8 / 10))
       (fl (fl (3 / 10)
            + fl (fl (fl (100 - quality (optimizeForCompression a ov)) / 100) * fl (4 / 10))))"
  by (simp only: optimizeForCompression_def Let_def opt_result.select_convs)

lemma compression_size:
  "predictedSize (optimizeForCompression a ov) =
     \<lfloor>fl (real (fileSize a) * fl (1 - compressionRatio (optimizeForCompression a ov)))\<rfloor>"
  by (simp only: optimizeForCompression_def Let_def opt_result.select_convs)

lemma compression_psnr:
  "estimatedPSNR (optimizeForCompression a ov) =
     Num (max 30 (fl (25 + fl (fl (quality (optimizeForCompression a ov) / 100) * 20))))"
  by (simp only: optimizeForCompression_def Let_def opt_result.select_convs)

lemma compression_lossless: "lossless (optimizeForCompression a ov) = False"
  by (simp only: optimizeForCompression_def Let_def opt_result.select_convs)

lemma quality_quality:
  "quality (optimizeForQuality a ov) =
     (if allowLossless (spread DEFAULT_OPTIONS ov) \<and> fileSize a < 2 * 1024 * 1024 then 100
      else if fileSize a > 5 * 1024 * 1024 then 80
      else if fileSize a > 1 * 1024 * 1024 then 85 else 90)"
  by (simp only: optimizeForQuality_def Let_def opt_result.select_convs if_distrib[of quality] cong: if_cong)

lemma quality_effort:
  "effort (optimizeForQuality a ov) = maxEffort (spread DEFAULT_OPTIONS ov)"
  by (simp only: optimizeForQuality_def Let_def opt_result.select_convs if_distrib[of effort] if_cancel cong: if_cong)

lemma quality_lossless:
  "lossless (optimizeForQuality a ov) =
     (allowLossless (spread DEFAULT_OPTIONS ov) \<and> fileSize a < 2 * 1024 * 1024)"
  by (simp only: optimizeForQuality_def Let_def opt_result.select_convs if_distrib[of lossless]
        if_True if_False simp_thms if_bool_eq_conj cong: if_cong)

lemma balanced_quality:
  "quality (optimizeBalanced a ov) =
     real_of_int \<lfloor>(quality (optimizeForCompression a ov) + quality (optimizeForQuality a ov)) / 2\<rfloor>"
  by (simp only: optimizeBalanced_def Let_def opt_result.select_convs spread_as_overrides
       optimizeForCompression_def optimizeForQuality_def)

lemma balanced_effort:
  "effort (optimizeBalanced a ov) = maxEffort (spread DEFAULT_OPTIONS ov)"
  by (simp only: optimizeBalanced_def Let_def opt_result.select_convs)

text \<open>
  Claim C6. The adaptive selector is the ordered rule list of the specification, first
  match wins and balanced is the default (sizes in binary units: 10 MB is
  \<open>10 * 1024 * 1024\<close> bytes, 500 KB is \<open>500 * 1024\<close> bytes); the result of the chosen
  strategy is returned with the choice and its reason recorded. For the attributes
  \<open>{fileSize = 12000000, width = 1920, height = 1080, frames = 30}\<close> the choice is the
  compression strategy and the reason contains the large-file trigger (followed by the
  high-resolution trigger, which also fires).
\<close>

theorem adaptive_selector_first_match:
  "selectStrategy a = first_match adaptive_rules a
   \<and> optimizeAdaptive (Inr a) ov =
       Inr ((case selectStrategy a of
               Compression \<Rightarrow> optimizeForCompression a ov
             | Quality \<Rightarrow> optimizeForQuality a ov
             | Balanced \<Rightarrow> optimizeBalanced a ov)
            \<lparr> selectedStrategy := Some (selectStrategy a),
              selectionReason := Some (getStrategyReason a (selectStrategy a)) \<rparr>)
   \<and> selectStrategy scenario_attributes = Compression
   \<and> (\<exists>r. optimizeAdaptive (Inr scenario_attributes) ov = Inr r
          \<and> selectedStrategy r = Some Compression
          \<and> optimizationStrategy r = ''compression-focused''
          \<and> selectionReason r = Some (reason_large_file @ '', '' @ reason_high_res)
          \<and> sublist reason_large_file (the (selectionReason r)))"
proof -
  have sel: "selectStrategy a = first_match adaptive_rules a"
    by (simp add: selectStrategy_def adaptive_rules_def)
  have run: "optimizeAdaptive (Inr a) ov =
       Inr ((case selectStrategy a of
               Compression \<Rightarrow> optimizeForCompression a ov
             | Quality \<Rightarrow> optimizeForQuality a ov
             | Balanced \<Rightarrow> optimizeBalanced a ov)
            \<lparr> selectedStrategy := Some (selectStrategy a),
              selectionReason := Some (getStrategyReason a (selectStrategy a)) \<rparr>)" for a
    unfolding optimizeAdaptive_def Let_def sum.case optimizeForCompression_def
      optimizeForQuality_def optimizeBalanced_def spread_as_overrides ..
  have scen: "selectStrategy scenario_attributes = Compression"
    by (simp add: selectStrategy_def scenario_attributes_def)
  have reason: "getStrategyReason scenario_attributes Compression
      = reason_large_file @ '', '' @ reason_high_res"
    by (simp add: getStrategyReason_def scenario_attributes_def)
  have scen_run: "optimizeAdaptive (Inr scenario_attributes) ov =
      Inr ((optimizeForCompression scenario_attributes ov)
            \<lparr> selectedStrategy := Some Compression,
              selectionReason := Some (reason_large_file @ '', '' @ reason_high_res) \<rparr>)"
    unfolding run[of scenario_attributes] scen reason by simp
  have ex: "\<exists>r. optimizeAdaptive (Inr scenario_attributes) ov = Inr r
          \<and> selectedStrategy r = Some Compression
          \<and> optimizationStrategy r = ''compression-focused''
          \<and> selectionReason r = Some (reason_large_file @ '', '' @ reason_high_res)
          \<and> sublist reason_large_file (the (selectionReason r))"
    unfolding scen_run by (simp add: compression_strategy_label)
  show ?thesis by (intro conjI) (rule sel, rule run, rule scen, rule ex)
qed

lemma adaptive_run:
  "optimizeAdaptive (Inr a) ov =
       Inr ((case selectStrategy a of
               Compression \<Rightarrow> optimizeForCompression a ov
             | Quality \<Rightarrow> optimizeForQuality a ov
             | Balanced \<Rightarrow> optimizeBalanced a ov)
            \<lparr> selectedStrategy := Some (selectStrategy a),
              selectionReason := Some (getStrategyReason a (selectStrategy a)) \<rparr>)"
    unfolding optimizeAdaptive_def Let_def sum.case optimizeForCompression_def
      optimizeForQuality_def optimizeBalanced_def spread_as_overrides ..

lemma strategy_results_set:
  "r \<in> set (strategy_results a ov) \<Longrightarrow>
     (quality r = quality (optimizeForCompression a ov) \<and> effort r = effort (optimizeForCompression a ov))
   \<or> (quality r = quality (optimizeForQuality a ov) \<and> effort r = effort (optimizeForQuality a ov))
   \<or> (quality r = quality (optimizeBalanced a ov) \<and> effort r = effort (optimizeBalanced a ov))"
  unfolding strategy_results_def adaptive_run
  by (cases "selectStrategy a") auto

lemma compression_quality_lower:
  "minQuality (spread DEFAULT_OPTIONS ov) \<le> quality (optimizeForCompression a ov)"
  unfolding compression_quality Let_def by (simp add: max_def min_def)

lemma compression_quality_upper:
  "(quality (optimizeForCompression a ov) \<le> maxQuality (spread DEFAULT_OPTIONS ov))
     = (minQuality (spread DEFAULT_OPTIONS ov) \<le> maxQuality (spread DEFAULT_OPTIONS ov))"
proof
  assume "quality (optimizeForCompression a ov) \<le> maxQuality (spread DEFAULT_OPTIONS ov)"
  with compression_quality_lower[of ov a]
  show "minQuality (spread DEFAULT_OPTIONS ov) \<le> maxQuality (spread DEFAULT_OPTIONS ov)"
    by (rule order_trans)
next
  assume "minQuality (spread DEFAULT_OPTIONS ov) \<le> maxQuality (spread DEFAULT_OPTIONS ov)"
  then show "quality (optimizeForCompression a ov) \<le> maxQuality (spread DEFAULT_OPTIONS ov)"
    unfolding compression_quality Let_def by (simp add: max_def min_def)
qed

lemma balanced_quality_lower:
  "(lo \<le> quality (optimizeBalanced a ov))
     = (of_int \<lceil>lo\<rceil>
          \<le> (quality (optimizeForCompression a ov) + quality (optimizeForQuality a ov)) / 2)"
  unfolding balanced_quality by (simp add: le_floor_iff ceiling_le_iff[symmetric])

lemma balanced_quality_upper:
  "(quality (optimizeBalanced a ov) \<le> hi)
     = ((quality (optimizeForCompression a ov) + quality (optimizeForQuality a ov)) / 2
          < of_int \<lfloor>hi\<rfloor> + 1)"
proof -
  let ?m = "(quality (optimizeForCompression a ov) + quality (optimizeForQuality a ov)) / 2"
  have "(real_of_int \<lfloor>?m\<rfloor> \<le> hi) = (\<lfloor>?m\<rfloor> \<le> \<lfloor>hi\<rfloor>)" by (simp only: le_floor_iff)
  also have "\<dots> = (\<lfloor>?m\<rfloor> < \<lfloor>hi\<rfloor> + 1)" by linarith
  also have "\<dots> = (?m < of_int (\<lfloor>hi\<rfloor> + 1))" by (rule floor_less_iff)
  also have "\<dots> = (?m < of_int \<lfloor>hi\<rfloor> + 1)" by simp
  finally show ?thesis unfolding balanced_quality .
qed

lemma strategies_within_bounds:
  assumes whole: "minQuality (spread DEFAULT_OPTIONS ov) \<in> \<int>"
    and lower: "minQuality (spread DEFAULT_OPTIONS ov) \<le> quality (optimizeForQuality a ov)"
    and upper: "quality (optimizeForQuality a ov) \<le> maxQuality (spread DEFAULT_OPTIONS ov)"
    and r: "r \<in> set (strategy_results a ov)"
  shows "minQuality (spread DEFAULT_OPTIONS ov) \<le> quality r
    \<and> quality r \<le> maxQuality (spread DEFAULT_OPTIONS ov)"
proof -
  let ?lo = "minQuality (spread DEFAULT_OPTIONS ov)" and ?hi = "maxQuality (spread DEFAULT_OPTIONS ov)"
  let ?c = "quality (optimizeForCompression a ov)" and ?q = "quality (optimizeForQuality a ov)"
  have le: "?lo \<le> ?hi" using lower upper by (rule order_trans)
  have c: "?lo \<le> ?c" "?c \<le> ?hi"
    using compression_quality_lower[of ov a] compression_quality_upper[of a ov] le by blast+
  have mid1: "?lo \<le> (?c + ?q) / 2" using c lower by argo
  have mid2: "(?c + ?q) / 2 \<le> ?hi" using c upper by argo
  have ce: "of_int \<lceil>?lo\<rceil> = ?lo" using whole by (auto elim: Ints_cases)
  have b1: "?lo \<le> quality (optimizeBalanced a ov)"
    unfolding balanced_quality_lower ce by (rule mid1)
  have "real_of_int \<lfloor>(?c + ?q) / 2\<rfloor> \<le> (?c + ?q) / 2" by (rule of_int_floor_le)
  then have b2: "quality (optimizeBalanced a ov) \<le> ?hi"
    unfolding balanced_quality using mid2 by (rule order_trans)
  show ?thesis
    using strategy_results_set[OF r] c lower upper b1 b2 by auto
qed

text \<open>
  Claim C3, as amended. Every strategy (compression, quality, balanced, adaptive) returns
  \<open>effort = maxEffort\<close> as the options give it, so an effort in \<open>[0, 6]\<close> exactly when the
  option is (the default 6 is). The compression strategy returns a quality of at least
  \<open>minQuality\<close>, and of at most \<open>maxQuality\<close> exactly when \<open>minQuality \<le> maxQuality\<close>. The
  quality strategy returns a fixed quality that no option bounds: 100 in the lossless
  branch (\<open>allowLossless\<close> and a file under 2 MiB), otherwise 80, 85 or 90 by the file size.
  The balanced strategy returns the floor of the mean of these two qualities, which is at
  least \<open>minQuality\<close> exactly when the mean is at least \<open>minQuality\<close> rounded up, and at most
  \<open>maxQuality\<close> exactly when the mean is below \<open>maxQuality\<close> rounded down plus one. The
  adaptive strategy returns the quality of one of the three. Hence, whenever
  \<open>minQuality\<close> is a whole number and the fixed quality of the quality strategy lies in
  \<open>[minQuality, maxQuality]\<close>, all four strategies return a quality in
  \<open>[minQuality, maxQuality]\<close>.
\<close>

theorem optimizer_quality_effort_bounds:
  "length (strategy_results a ov) = 4
   \<and> (\<forall>r \<in> set (strategy_results a ov).
        effort r = maxEffort (spread DEFAULT_OPTIONS ov)
        \<and> (0 \<le> effort r \<and> effort r \<le> 6)
            = (0 \<le> maxEffort (spread DEFAULT_OPTIONS ov)
               \<and> maxEffort (spread DEFAULT_OPTIONS ov) \<le> 6)
        \<and> (quality r = quality (optimizeForCompression a ov)
           \<or> quality r = quality (optimizeForQuality a ov)
           \<or> quality r = quality (optimizeBalanced a ov)))
   \<and> minQuality (spread DEFAULT_OPTIONS ov) \<le> quality (optimizeForCompression a ov)
   \<and> (quality (optimizeForCompression a ov) \<le> maxQuality (spread DEFAULT_OPTIONS ov))
       = (minQuality (spread DEFAULT_OPTIONS ov) \<le> maxQuality (spread DEFAULT_OPTIONS ov))
   \<and> quality (optimizeForQuality a ov)
       = (if allowLossless (spread DEFAULT_OPTIONS ov) \<and> fileSize a < 2 * 1024 * 1024 then 100
          else if fileSize a > 5 * 1024 * 1024 then 80
          else if fileSize a > 1 * 1024 * 1024 then 85 else 90)
   \<and> lossless (optimizeForQuality a ov)
       = (allowLossless (spread DEFAULT_OPTIONS ov) \<and> fileSize a < 2 * 1024 * 1024)
   \<and> quality (optimizeBalanced a ov)
       = real_of_int \<lfloor>(quality (optimizeForCompression a ov)
                          + quality (optimizeForQuality a ov)) / 2\<rfloor>
   \<and> (minQuality (spread DEFAULT_OPTIONS ov) \<le> quality (optimizeBalanced a ov))
       = (of_int \<lceil>minQuality (spread DEFAULT_OPTIONS ov)\<rceil>
            \<le> (quality (optimizeForCompression a ov) + quality (optimizeForQuality a ov)) / 2)
   \<and> (quality (optimizeBalanced a ov) \<le> maxQuality (spread DEFAULT_OPTIONS ov))
       = ((quality (optimizeForCompression a ov) + quality (optimizeForQuality a ov)) / 2
            < of_int \<lfloor>maxQuality (spread DEFAULT_OPTIONS ov)\<rfloor> + 1)
   \<and> (minQuality (spread DEFAULT_OPTIONS ov) \<in> \<int>
        \<and> minQuality (spread DEFAULT_OPTIONS ov) \<le> quality (optimizeForQuality a ov)
        \<and> quality (optimizeForQuality a ov) \<le> maxQuality (spread DEFAULT_OPTIONS ov) \<longrightarrow>
        (\<forall>r \<in> set (strategy_results a ov).
           minQuality (spread DEFAULT_OPTIONS ov) \<le> quality r
           \<and> quality r \<le> maxQuality (spread DEFAULT_OPTIONS ov)))"
proof -
  have len: "length (strategy_results a ov) = 4"
    unfolding strategy_results_def adaptive_run by simp
  have each: "effort r = maxEffort (spread DEFAULT_OPTIONS ov)
        \<and> (0 \<le> effort r \<and> effort r \<le> 6)
            = (0 \<le> maxEffort (spread DEFAULT_OPTIONS ov)
               \<and> maxEffort (spread DEFAULT_OPTIONS ov) \<le> 6)
        \<and> (quality r = quality (optimizeForCompression a ov)
           \<or> quality r = quality (optimizeForQuality a ov)
           \<or> quality r = quality (optimizeBalanced a ov))"
    if "r \<in> set (strategy_results a ov)" for r
    using strategy_results_set[OF that]
    by (auto simp: compression_effort quality_effort balanced_effort)
  show ?thesis
    using len each compression_quality_lower[of ov a] compression_quality_upper[of a ov]
      quality_quality[of a ov] quality_lossless[of a ov] balanced_quality[of a ov]
      balanced_quality_lower[of "minQuality (spread DEFAULT_OPTIONS ov)" a ov]
      balanced_quality_upper[of a ov "maxQuality (spread DEFAULT_OPTIONS ov)"]
      strategies_within_bounds[of ov a]
    by (intro conjI ballI impI) blast+
qed

lemma default_spread: "spread DEFAULT_OPTIONS no_overrides = DEFAULT_OPTIONS"
  by (simp add: spread_def no_overrides_def)

lemma lossless_on_spread:
  "spread DEFAULT_OPTIONS lossless_on = DEFAULT_OPTIONS \<lparr> allowLossless := True \<rparr>"
  by (simp add: spread_def lossless_on_def no_overrides_def DEFAULT_OPTIONS_def)

lemma high_effort_spread:
  "spread DEFAULT_OPTIONS high_effort = DEFAULT_OPTIONS \<lparr> maxEffort := 9 \<rparr>"
  by (simp add: spread_def high_effort_def no_overrides_def DEFAULT_OPTIONS_def)

lemma low_ceiling_spread:
  "spread DEFAULT_OPTIONS low_ceiling = DEFAULT_OPTIONS \<lparr> maxQuality := 60 \<rparr>"
  by (simp add: spread_def low_ceiling_def no_overrides_def DEFAULT_OPTIONS_def)

lemma high_floor_spread:
  "spread DEFAULT_OPTIONS high_floor = DEFAULT_OPTIONS \<lparr> minQuality := 93 \<rparr>"
  by (simp add: spread_def high_floor_def no_overrides_def DEFAULT_OPTIONS_def)

lemma tight_target_spread:
  "spread DEFAULT_OPTIONS tight_target
     = DEFAULT_OPTIONS \<lparr> targetCompressionRatio := fl (9 / 10) \<rparr>"
  by (simp add: spread_def tight_target_def no_overrides_def DEFAULT_OPTIONS_def)

lemma half_floor_spread:
  "spread DEFAULT_OPTIONS half_floor = DEFAULT_OPTIONS \<lparr> minQuality := 159 / 2 \<rparr>"
  by (simp add: spread_def half_floor_def no_overrides_def DEFAULT_OPTIONS_def)

lemma stepwise_eq:
  "quality (optimizeForCompression a ov) = stepwise_compression_quality a (spread DEFAULT_OPTIONS ov)"
  unfolding compression_quality stepwise_compression_quality_def Let_def clamp_def
    baseQuality_def targetAdjustment_def
  by (simp add: max_def min_def)

lemma stepwise_is_clamp:
  assumes "baseQuality a - targetAdjustment opts \<le> maxQuality opts"
  shows "stepwise_compression_quality a opts = claimed_compression_quality a opts"
  using assms unfolding stepwise_compression_quality_def claimed_compression_quality_def clamp_def
  by (simp add: max_def min_def)

lemma base_tiers: "predictQualityFromSize w h f \<in> {85, 80, 75, 70, 65}"
  by (simp add: predictQualityFromSize_def Let_def)

lemma base_antitone:
  "w * h * f \<le> w' * h' * f' \<Longrightarrow> predictQualityFromSize w' h' f' \<le> predictQualityFromSize w h f"
  by (simp add: predictQualityFromSize_def Let_def)

text \<open>
  The default target ratio: \<open>0.62\<close> is the double \<open>5584463537939415 / 2^53\<close>, and
  \<open>Math.floor((1 - 0.62) * 30)\<close> is 11.
\<close>

lemma adjustment_at_default_ratio:
  assumes "targetCompressionRatio opts = fl (62 / 100)"
  shows "targetAdjustment opts = 11"
proof -
  have t1: "fl (62 / 100) = 5584463537939415 / 2 ^ 53"
    by (subst fl_scaled[where k = 53]) (simp_all add: round_even_def)
  have t2: "fl (1 - (5584463537939415 / 2 ^ 53)) = 3422735716801577 / 2 ^ 53"
    by (subst fl_scaled[where k = 54]) (simp_all add: round_even_def)
  have t3: "fl ((3422735716801577 / 2 ^ 53) * 30) = 6417629469002957 / 2 ^ 49"
    by (subst fl_scaled[where k = 49]) (simp_all add: round_even_def)
  show ?thesis
    unfolding targetAdjustment_def assms t1 t2 t3 by simp
qed

text \<open>
  A target ratio of \<open>0.9\<close>: one minus the double is \<open>0.09999999999999998\<close>, and
  \<open>Math.floor((1 - 0.9) * 30)\<close> is 2, not 3.
\<close>

lemma adjustment_at_nine_tenths:
  assumes "targetCompressionRatio opts = fl (9 / 10)"
  shows "targetAdjustment opts = 2"
proof -
  have t1: "fl (9 / 10) = 8106479329266893 / 2 ^ 53"
    by (subst fl_scaled[where k = 53]) (simp_all add: round_even_def)
  have t2: "fl (1 - (8106479329266893 / 2 ^ 53)) = 900719925474099 / 2 ^ 53"
    by (subst fl_scaled[where k = 56]) (simp_all add: round_even_def)
  have t3: "fl ((900719925474099 / 2 ^ 53) * 30) = 3377699720527871 / 2 ^ 50"
    by (subst fl_scaled[where k = 51]) (simp_all add: round_even_def)
  show ?thesis
    unfolding targetAdjustment_def assms t1 t2 t3 by simp
qed

lemma tight_target_ratio:
  "targetCompressionRatio (DEFAULT_OPTIONS \<lparr> targetCompressionRatio := fl (9 / 10) \<rparr>)
     = fl (9 / 10)"
  by simp

lemma default_adjustment: "targetAdjustment DEFAULT_OPTIONS = 11"
  by (rule adjustment_at_default_ratio) (simp add: DEFAULT_OPTIONS_def)

lemma lossless_on_ratio:
  "targetCompressionRatio (DEFAULT_OPTIONS \<lparr> allowLossless := True \<rparr>) = fl (62 / 100)"
  by (simp add: DEFAULT_OPTIONS_def)

lemma low_ceiling_ratio:
  "targetCompressionRatio (DEFAULT_OPTIONS \<lparr> maxQuality := 60 \<rparr>) = fl (62 / 100)"
  by (simp add: DEFAULT_OPTIONS_def)

lemma high_floor_ratio:
  "targetCompressionRatio (DEFAULT_OPTIONS \<lparr> minQuality := 93 \<rparr>) = fl (62 / 100)"
  by (simp add: DEFAULT_OPTIONS_def)

lemma half_floor_ratio:
  "targetCompressionRatio (DEFAULT_OPTIONS \<lparr> minQuality := 159 / 2 \<rparr>) = fl (62 / 100)"
  by (simp add: DEFAULT_OPTIONS_def)

lemma small_gif_base: "baseQuality small_gif = 85"
  by (simp add: baseQuality_def small_gif_def predictQualityFromSize_def)

lemma scenario_base: "baseQuality scenario_attributes = 65"
  by (simp add: baseQuality_def scenario_attributes_def predictQualityFromSize_def)

lemma one_frame_base: "baseQuality one_frame = 85"
  by (simp add: baseQuality_def one_frame_def predictQualityFromSize_def)

lemma large_gif_base: "baseQuality large_gif = 85"
  by (simp add: baseQuality_def large_gif_def predictQualityFromSize_def)

lemma default_quality_is_clamp:
  "quality (optimizeForCompression a no_overrides)
     = claimed_compression_quality a DEFAULT_OPTIONS"
proof -
  have "baseQuality a \<le> 85"
    using base_tiers[of "width a" "height a" "frames a"] unfolding baseQuality_def by auto
  then have "baseQuality a - targetAdjustment DEFAULT_OPTIONS \<le> maxQuality DEFAULT_OPTIONS"
    unfolding default_adjustment by (simp add: DEFAULT_OPTIONS_def)
  then show ?thesis
    unfolding stepwise_eq default_spread by (rule stepwise_is_clamp)
qed

text \<open>The results on concrete inputs, each rounding evaluated.\<close>

lemma small_default_quality: "quality (optimizeForCompression small_gif no_overrides) = 69"
  unfolding stepwise_eq stepwise_compression_quality_def default_spread default_adjustment
    small_gif_base
  by (simp add: clamp_def small_gif_def DEFAULT_OPTIONS_def)

lemma small_default_ratio:
  "compressionRatio (optimizeForCompression small_gif no_overrides) = 7638104968020361 / 2 ^ 54"
proof -
  have r1: "fl (8 / 10) = 3602879701896397 / 2 ^ 52"
    by (subst fl_scaled[where k = 53]) (simp_all add: round_even_def)
  have r2: "fl (3 / 10) = 5404319552844595 / 2 ^ 54"
    by (subst fl_scaled[where k = 54]) (simp_all add: round_even_def)
  have r3: "fl (100 - 69) = 31"
    by (subst fl_scaled[where k = 48]) (simp_all add: round_even_def)
  have r4: "fl (31 / 100) = 5584463537939415 / 2 ^ 54"
    by (subst fl_scaled[where k = 54]) (simp_all add: round_even_def)
  have r5: "fl (4 / 10) = 3602879701896397 / 2 ^ 53"
    by (subst fl_scaled[where k = 54]) (simp_all add: round_even_def)
  have r6: "fl ((5584463537939415 / 2 ^ 54) * (3602879701896397 / 2 ^ 53)) = 1116892707587883 / 2 ^ 53"
    by (subst fl_scaled[where k = 56]) (simp_all add: round_even_def)
  have r7: "fl ((5404319552844595 / 2 ^ 54) + (1116892707587883 / 2 ^ 53)) = 7638104968020361 / 2 ^ 54"
    by (subst fl_scaled[where k = 54]) (simp_all add: round_even_def)
  show ?thesis
    unfolding compression_ratio small_default_quality r1 r2 r3 r4 r5 r6 r7 by simp
qed

lemma small_default_size:
  "fl (real (fileSize small_gif) * fl (1 - compressionRatio (optimizeForCompression small_gif no_overrides))) = 633952016296575 / 2 ^ 40"
  "predictedSize (optimizeForCompression small_gif no_overrides) = 576"
proof -
  have fs: "real (fileSize small_gif) = 1001" by (simp add: small_gif_def)
  have s1: "fl (1 - (7638104968020361 / 2 ^ 54)) = 1297036692682703 / 2 ^ 51"
    by (subst fl_scaled[where k = 53]) (simp_all add: round_even_def)
  have s2: "fl (1001 * (1297036692682703 / 2 ^ 51)) = 633952016296575 / 2 ^ 40"
    by (subst fl_scaled[where k = 43]) (simp_all add: round_even_def)
  show p: "fl (real (fileSize small_gif) * fl (1 - compressionRatio (optimizeForCompression small_gif no_overrides))) = 633952016296575 / 2 ^ 40"
    unfolding small_default_ratio fs s1 s2 ..
  show "predictedSize (optimizeForCompression small_gif no_overrides) = 576"
    unfolding compression_size p by simp
qed

lemma small_default_psnr:
  "estimatedPSNR (optimizeForCompression small_gif no_overrides) = Num (2730307274093363 / 2 ^ 46)"
proof -
  have p1: "fl (69 / 100) = 1553741871442821 / 2 ^ 51"
    by (subst fl_scaled[where k = 53]) (simp_all add: round_even_def)
  have p2: "fl ((1553741871442821 / 2 ^ 51) * 20) = 7768709357214105 / 2 ^ 49"
    by (subst fl_scaled[where k = 49]) (simp_all add: round_even_def)
  have p3: "fl (25 + (7768709357214105 / 2 ^ 49)) = 2730307274093363 / 2 ^ 46"
    by (subst fl_scaled[where k = 47]) (simp_all add: round_even_def)
  show ?thesis
    unfolding compression_psnr small_default_quality p1 p2 p3 by simp
qed

lemma one_frame_floor_quality: "quality (optimizeForCompression one_frame high_floor) = 93"
  unfolding stepwise_eq stepwise_compression_quality_def high_floor_spread
    adjustment_at_default_ratio[OF high_floor_ratio] one_frame_base
  by (simp add: clamp_def one_frame_def DEFAULT_OPTIONS_def)

lemma one_frame_floor_ratio:
  "compressionRatio (optimizeForCompression one_frame high_floor) = 5908722711110091 / 2 ^ 54"
proof -
  have r1: "fl (8 / 10) = 3602879701896397 / 2 ^ 52"
    by (subst fl_scaled[where k = 53]) (simp_all add: round_even_def)
  have r2: "fl (3 / 10) = 5404319552844595 / 2 ^ 54"
    by (subst fl_scaled[where k = 54]) (simp_all add: round_even_def)
  have r3: "fl (100 - 93) = 7"
    by (subst fl_scaled[where k = 50]) (simp_all add: round_even_def)
  have r4: "fl (7 / 100) = 1261007895663739 / 2 ^ 54"
    by (subst fl_scaled[where k = 56]) (simp_all add: round_even_def)
  have r5: "fl (4 / 10) = 3602879701896397 / 2 ^ 53"
    by (subst fl_scaled[where k = 54]) (simp_all add: round_even_def)
  have r6: "fl ((1261007895663739 / 2 ^ 54) * (3602879701896397 / 2 ^ 53)) = 4035225266123965 / 2 ^ 57"
    by (subst fl_scaled[where k = 58]) (simp_all add: round_even_def)
  have r7: "fl ((5404319552844595 / 2 ^ 54) + (4035225266123965 / 2 ^ 57)) = 5908722711110091 / 2 ^ 54"
    by (subst fl_scaled[where k = 54]) (simp_all add: round_even_def)
  show ?thesis
    unfolding compression_ratio one_frame_floor_quality r1 r2 r3 r4 r5 r6 r7 by simp
qed

lemma one_frame_floor_size:
  "fl (real (fileSize one_frame) * fl (1 - compressionRatio (optimizeForCompression one_frame high_floor))) = 5910974510923775 / 2 ^ 43"
  "predictedSize (optimizeForCompression one_frame high_floor) = 671"
proof -
  have fs: "real (fileSize one_frame) = 1000" by (simp add: one_frame_def)
  have s1: "fl (1 - (5908722711110091 / 2 ^ 54)) = 3026418949592973 / 2 ^ 52"
    by (subst fl_scaled[where k = 53]) (simp_all add: round_even_def)
  have s2: "fl (1000 * (3026418949592973 / 2 ^ 52)) = 5910974510923775 / 2 ^ 43"
    by (subst fl_scaled[where k = 43]) (simp_all add: round_even_def)
  show p: "fl (real (fileSize one_frame) * fl (1 - compressionRatio (optimizeForCompression one_frame high_floor))) = 5910974510923775 / 2 ^ 43"
    unfolding one_frame_floor_ratio fs s1 s2 ..
  show "predictedSize (optimizeForCompression one_frame high_floor) = 671"
    unfolding compression_size p by simp
qed

lemma one_frame_floor_psnr:
  "estimatedPSNR (optimizeForCompression one_frame high_floor) = Num (6136154492292301 / 2 ^ 47)"
proof -
  have p1: "fl (93 / 100) = 8376695306909123 / 2 ^ 53"
    by (subst fl_scaled[where k = 53]) (simp_all add: round_even_def)
  have p2: "fl ((8376695306909123 / 2 ^ 53) * 20) = 2617717283409101 / 2 ^ 47"
    by (subst fl_scaled[where k = 48]) (simp_all add: round_even_def)
  have p3: "fl (25 + (2617717283409101 / 2 ^ 47)) = 6136154492292301 / 2 ^ 47"
    by (subst fl_scaled[where k = 47]) (simp_all add: round_even_def)
  show ?thesis
    unfolding compression_psnr one_frame_floor_quality p1 p2 p3 by simp
qed

lemma small_lossless_quality: "quality (optimizeForCompression small_gif lossless_on) = 69"
  unfolding stepwise_eq stepwise_compression_quality_def lossless_on_spread
    adjustment_at_default_ratio[OF lossless_on_ratio] small_gif_base
  by (simp add: clamp_def small_gif_def DEFAULT_OPTIONS_def)

lemma scenario_lossless_quality:
  "quality (optimizeForCompression scenario_attributes lossless_on) = 45"
  unfolding stepwise_eq stepwise_compression_quality_def lossless_on_spread
    adjustment_at_default_ratio[OF lossless_on_ratio] scenario_base
  by (simp add: clamp_def scenario_attributes_def DEFAULT_OPTIONS_def)

lemma small_ceiling_quality: "quality (optimizeForCompression small_gif low_ceiling) = 55"
  unfolding stepwise_eq stepwise_compression_quality_def low_ceiling_spread
    adjustment_at_default_ratio[OF low_ceiling_ratio] small_gif_base
  by (simp add: clamp_def small_gif_def DEFAULT_OPTIONS_def)

lemma large_half_quality: "quality (optimizeForCompression large_gif half_floor) = 159 / 2"
  unfolding stepwise_eq stepwise_compression_quality_def half_floor_spread
    adjustment_at_default_ratio[OF half_floor_ratio] large_gif_base
  by (simp add: clamp_def large_gif_def DEFAULT_OPTIONS_def)

text \<open>
  The default options on a small GIF (the fixed quality is 90, the balanced one 79); the
  lossless option on the same file (the balanced quality 84 is within the bounds, the
  fixed quality 100 is not); and the lossless option on a file of 12,000,000 bytes, which
  is too large for the lossless branch.
\<close>

theorem optimizer_quality_effort_bounds_witness:
  "minQuality (spread DEFAULT_OPTIONS no_overrides) \<in> \<int>
   \<and> minQuality (spread DEFAULT_OPTIONS no_overrides)
        \<le> quality (optimizeForQuality small_gif no_overrides)
   \<and> quality (optimizeForQuality small_gif no_overrides)
        \<le> maxQuality (spread DEFAULT_OPTIONS no_overrides)
   \<and> optimizeBalanced small_gif no_overrides \<in> set (strategy_results small_gif no_overrides)
   \<and> quality (optimizeBalanced small_gif no_overrides) = 79
   \<and> minQuality (spread DEFAULT_OPTIONS no_overrides)
        \<le> quality (optimizeBalanced small_gif no_overrides)
   \<and> quality (optimizeBalanced small_gif no_overrides)
        \<le> maxQuality (spread DEFAULT_OPTIONS no_overrides)
   \<and> effort (optimizeBalanced small_gif no_overrides) = 6
   \<and> 0 \<le> effort (optimizeBalanced small_gif no_overrides)
   \<and> effort (optimizeBalanced small_gif no_overrides) \<le> 6
   \<and> quality (optimizeForCompression small_gif lossless_on) = 69
   \<and> quality (optimizeForQuality small_gif lossless_on) = 100
   \<and> lossless (optimizeForQuality small_gif lossless_on)
   \<and> quality (optimizeBalanced small_gif lossless_on) = 84
   \<and> minQuality (spread DEFAULT_OPTIONS lossless_on)
        \<le> quality (optimizeBalanced small_gif lossless_on)
   \<and> quality (optimizeBalanced small_gif lossless_on)
        \<le> maxQuality (spread DEFAULT_OPTIONS lossless_on)
   \<and> minQuality (spread DEFAULT_OPTIONS lossless_on) \<in> \<int>
   \<and> minQuality (spread DEFAULT_OPTIONS lossless_on)
        \<le> quality (optimizeForQuality scenario_attributes lossless_on)
   \<and> quality (optimizeForQuality scenario_attributes lossless_on)
        \<le> maxQuality (spread DEFAULT_OPTIONS lossless_on)
   \<and> optimizeForQuality scenario_attributes lossless_on
        \<in> set (strategy_results scenario_attributes lossless_on)
   \<and> optimizeBalanced scenario_attributes lossless_on
        \<in> set (strategy_results scenario_attributes lossless_on)
   \<and> quality (optimizeForQuality scenario_attributes lossless_on) = 80
   \<and> \<not> lossless (optimizeForQuality scenario_attributes lossless_on)
   \<and> minQuality (spread DEFAULT_OPTIONS lossless_on)
        \<le> quality (optimizeBalanced scenario_attributes lossless_on)
   \<and> quality (optimizeBalanced scenario_attributes lossless_on)
        \<le> maxQuality (spread DEFAULT_OPTIONS lossless_on)"
proof -
  let ?lo = "minQuality (spread DEFAULT_OPTIONS no_overrides)"
  let ?hi = "maxQuality (spread DEFAULT_OPTIONS no_overrides)"
  let ?lo' = "minQuality (spread DEFAULT_OPTIONS lossless_on)"
  let ?hi' = "maxQuality (spread DEFAULT_OPTIONS lossless_on)"
  note d = optimizer_quality_effort_bounds[of small_gif no_overrides]
  note l = optimizer_quality_effort_bounds[of small_gif lossless_on]
  note s = optimizer_quality_effort_bounds[of scenario_attributes lossless_on]
  have lo: "?lo = 45" and hi: "?hi = 95" and ef: "maxEffort (spread DEFAULT_OPTIONS no_overrides) = 6"
    and nl: "\<not> allowLossless (spread DEFAULT_OPTIONS no_overrides)"
    unfolding default_spread by (simp_all add: DEFAULT_OPTIONS_def)
  have lo': "?lo' = 45" and hi': "?hi' = 95" and al: "allowLossless (spread DEFAULT_OPTIONS lossless_on)"
    unfolding lossless_on_spread by (simp_all add: DEFAULT_OPTIONS_def)
  have fs: "fileSize small_gif = 1001" by (simp add: small_gif_def)
  have fs': "fileSize scenario_attributes = 12000000" by (simp add: scenario_attributes_def)
  have whole: "?lo \<in> \<int>" "?lo' \<in> \<int>" unfolding lo lo' by simp_all
  have m1: "optimizeBalanced small_gif no_overrides \<in> set (strategy_results small_gif no_overrides)"
    by (simp add: strategy_results_def)
  have m2: "optimizeForQuality scenario_attributes lossless_on
        \<in> set (strategy_results scenario_attributes lossless_on)"
    by (simp add: strategy_results_def)
  have m3: "optimizeBalanced scenario_attributes lossless_on
        \<in> set (strategy_results scenario_attributes lossless_on)"
    by (simp add: strategy_results_def)
  have q1: "quality (optimizeForQuality small_gif no_overrides) = 90"
    using d nl by (simp add: fs)
  have b1: "quality (optimizeBalanced small_gif no_overrides) = 79"
    using d unfolding q1 small_default_quality by simp
  have h1: "?lo \<le> quality (optimizeForQuality small_gif no_overrides)"
    "quality (optimizeForQuality small_gif no_overrides) \<le> ?hi"
    unfolding q1 lo hi by simp_all
  from d whole(1) h1 m1
  have r1: "?lo \<le> quality (optimizeBalanced small_gif no_overrides)"
    "quality (optimizeBalanced small_gif no_overrides) \<le> ?hi"
    "effort (optimizeBalanced small_gif no_overrides)
       = maxEffort (spread DEFAULT_OPTIONS no_overrides)"
    by blast+
  have e1: "effort (optimizeBalanced small_gif no_overrides) = 6" unfolding r1(3) ef ..
  have q2: "quality (optimizeForQuality small_gif lossless_on) = 100"
    using l al by (simp add: fs)
  have l2: "lossless (optimizeForQuality small_gif lossless_on)"
    using l al by (simp add: fs)
  have b2: "quality (optimizeBalanced small_gif lossless_on) = 84"
    using l unfolding q2 small_lossless_quality by simp
  have r2: "?lo' \<le> quality (optimizeBalanced small_gif lossless_on)"
    "quality (optimizeBalanced small_gif lossless_on) \<le> ?hi'"
    using l unfolding q2 small_lossless_quality lo' hi' by simp_all
  have q3: "quality (optimizeForQuality scenario_attributes lossless_on) = 80"
    using s by (simp add: fs')
  have l3: "\<not> lossless (optimizeForQuality scenario_attributes lossless_on)"
    using s by (simp add: fs')
  have h3: "?lo' \<le> quality (optimizeForQuality scenario_attributes lossless_on)"
    "quality (optimizeForQuality scenario_attributes lossless_on) \<le> ?hi'"
    unfolding q3 lo' hi' by simp_all
  from s whole(2) h3 m3
  have r3: "?lo' \<le> quality (optimizeBalanced scenario_attributes lossless_on)"
    "quality (optimizeBalanced scenario_attributes lossless_on) \<le> ?hi'"
    by blast+
  show ?thesis
    using whole h1 m1 b1 r1(1,2) e1 small_lossless_quality q2 l2 b2 r2 h3 m2 m3 q3 l3 r3
    by simp
qed

text \<open>
  The claim as stated fails. With \<open>allowLossless\<close> on, the quality strategy returns quality
  100 above the default \<open>maxQuality = 95\<close>; \<open>maxEffort = 9\<close> is returned as the effort;
  with \<open>maxQuality = 60\<close> the quality strategy still returns 90, and with \<open>minQuality = 93\<close>
  it returns 80 for a file of 6,000,000 bytes; and with \<open>minQuality = 79.5\<close> the balanced
  strategy returns 79 for that file, the floor of the mean of 79.5 and 80.
\<close>

theorem optimizer_quality_effort_bounds_counterexample:
  "optimizeForQuality small_gif lossless_on \<in> set (strategy_results small_gif lossless_on)
   \<and> quality (optimizeForQuality small_gif lossless_on) = 100
   \<and> maxQuality (spread DEFAULT_OPTIONS lossless_on) = 95
   \<and> \<not> quality (optimizeForQuality small_gif lossless_on)
         \<le> maxQuality (spread DEFAULT_OPTIONS lossless_on)
   \<and> effort (optimizeForCompression small_gif high_effort) = 9
   \<and> \<not> effort (optimizeForCompression small_gif high_effort) \<le> 6
   \<and> quality (optimizeForQuality small_gif low_ceiling) = 90
   \<and> maxQuality (spread DEFAULT_OPTIONS low_ceiling) = 60
   \<and> \<not> quality (optimizeForQuality small_gif low_ceiling)
         \<le> maxQuality (spread DEFAULT_OPTIONS low_ceiling)
   \<and> quality (optimizeForQuality large_gif high_floor) = 80
   \<and> minQuality (spread DEFAULT_OPTIONS high_floor) = 93
   \<and> \<not> minQuality (spread DEFAULT_OPTIONS high_floor)
         \<le> quality (optimizeForQuality large_gif high_floor)
   \<and> quality (optimizeBalanced large_gif half_floor) = 79
   \<and> minQuality (spread DEFAULT_OPTIONS half_floor) = 159 / 2
   \<and> \<not> minQuality (spread DEFAULT_OPTIONS half_floor)
         \<le> quality (optimizeBalanced large_gif half_floor)"
proof -
  have mem: "optimizeForQuality small_gif lossless_on \<in> set (strategy_results small_gif lossless_on)"
    by (simp add: strategy_results_def)
  have q1: "quality (optimizeForQuality small_gif lossless_on) = 100"
    unfolding quality_quality lossless_on_spread by (simp add: small_gif_def)
  have e: "effort (optimizeForCompression small_gif high_effort) = 9"
    unfolding compression_effort high_effort_spread by simp
  have q2: "quality (optimizeForQuality small_gif low_ceiling) = 90"
    unfolding quality_quality low_ceiling_spread by (simp add: small_gif_def DEFAULT_OPTIONS_def)
  have q3: "quality (optimizeForQuality large_gif high_floor) = 80"
    unfolding quality_quality high_floor_spread by (simp add: large_gif_def DEFAULT_OPTIONS_def)
  have q4: "quality (optimizeForQuality large_gif half_floor) = 80"
    unfolding quality_quality half_floor_spread by (simp add: large_gif_def DEFAULT_OPTIONS_def)
  have b: "quality (optimizeBalanced large_gif half_floor) = 79"
    unfolding balanced_quality q4 large_half_quality by simp
  show ?thesis
    unfolding q1 e q2 q3 b using mem
    unfolding lossless_on_spread low_ceiling_spread high_floor_spread half_floor_spread
    by (simp add: DEFAULT_OPTIONS_def)
qed

text \<open>
  Claim C4, as amended. For every analysis and options the compression strategy returns
  the quality of the stepwise order (the adjusted base quality clamped to
  \<open>[minQuality, maxQuality]\<close>, then each penalty subtracted and the result raised to
  \<open>minQuality\<close>), which is the single clamp of the claim whenever the adjusted base quality
  does not exceed \<open>maxQuality\<close>, as it never does under the default options;
  \<open>effort = maxEffort\<close>; the predicted ratio is
  \<open>min(0.8, 0.3 + (100 - quality) / 100 * 0.4)\<close>, the predicted size is the floor of
  \<open>fileSize * (1 - ratio)\<close> and the predicted PSNR is \<open>max(30, 25 + quality / 100 * 20)\<close>,
  each evaluated in doubles, every operation rounded, in the order written, as is
  \<open>(1 - targetRatio) * 30\<close> under the floor of the adjustment; the base quality is one of
  the five tiers 85, 80, 75, 70, 65 and does not grow with the pixel volume
  \<open>width * height * frames\<close>.
\<close>

theorem compression_strategy_formula:
  "quality (optimizeForCompression a ov)
     = stepwise_compression_quality a (spread DEFAULT_OPTIONS ov)
   \<and> (baseQuality a - targetAdjustment (spread DEFAULT_OPTIONS ov)
         \<le> maxQuality (spread DEFAULT_OPTIONS ov) \<longrightarrow>
       quality (optimizeForCompression a ov)
         = claimed_compression_quality a (spread DEFAULT_OPTIONS ov))
   \<and> quality (optimizeForCompression a no_overrides)
       = claimed_compression_quality a DEFAULT_OPTIONS
   \<and> effort (optimizeForCompression a ov) = maxEffort (spread DEFAULT_OPTIONS ov)
   \<and> compressionRatio (optimizeForCompression a ov)
       = min (fl (8 / 10))
           (fl (fl (3 / 10)
                + fl (fl (fl (100 - quality (optimizeForCompression a ov)) / 100)
                      * fl (4 / 10))))
   \<and> predictedSize (optimizeForCompression a ov)
       = \<lfloor>fl (real (fileSize a) * fl (1 - compressionRatio (optimizeForCompression a ov)))\<rfloor>
   \<and> estimatedPSNR (optimizeForCompression a ov)
       = Num (max 30 (fl (25 + fl (fl (quality (optimizeForCompression a ov) / 100) * 20))))
   \<and> baseQuality a \<in> {85, 80, 75, 70, 65}
   \<and> (width a * height a * frames a \<le> width b * height b * frames b \<longrightarrow>
        baseQuality b \<le> baseQuality a)"
  using stepwise_eq[of a ov] stepwise_is_clamp[of a "spread DEFAULT_OPTIONS ov"]
    default_quality_is_clamp[of a] compression_effort[of a ov] compression_ratio[of a ov] compression_size[of a ov]
    compression_psnr[of a ov] base_tiers[of "width a" "height a" "frames a"]
    base_antitone[of "width a" "height a" "frames a" "width b" "height b" "frames b"]
  unfolding baseQuality_def[of a] baseQuality_def[of b]
  by (intro conjI impI) simp_all

text \<open>
  The formulas at the default options, on a small GIF of 30 frames and 1001 bytes: the
  ratio is the double \<open>0.424\<close>, the product before the floor the double \<open>576.576\<close>. And with
  \<open>minQuality = 93\<close> on a single frame of 1000 bytes: the ratio is the double nearest to
  \<open>0.328\<close>, one minus it the double \<open>0.6719999999999999\<close>, and the predicted size is 671.
  And with a target ratio of \<open>0.9\<close> on that frame: the adjustment is 2 and the quality 83.
\<close>

theorem compression_strategy_formula_witness:
  "baseQuality small_gif - targetAdjustment (spread DEFAULT_OPTIONS no_overrides)
      \<le> maxQuality (spread DEFAULT_OPTIONS no_overrides)
   \<and> width small_gif * height small_gif * frames small_gif
      \<le> width scenario_attributes * height scenario_attributes * frames scenario_attributes
   \<and> quality (optimizeForCompression small_gif no_overrides) = 69
   \<and> claimed_compression_quality small_gif (spread DEFAULT_OPTIONS no_overrides) = 69
   \<and> effort (optimizeForCompression small_gif no_overrides) = 6
   \<and> compressionRatio (optimizeForCompression small_gif no_overrides)
       = 7638104968020361 / 2 ^ 54
   \<and> fl (real (fileSize small_gif)
          * fl (1 - compressionRatio (optimizeForCompression small_gif no_overrides)))
       = 633952016296575 / 2 ^ 40
   \<and> predictedSize (optimizeForCompression small_gif no_overrides) = 576
   \<and> estimatedPSNR (optimizeForCompression small_gif no_overrides)
       = Num (2730307274093363 / 2 ^ 46)
   \<and> baseQuality scenario_attributes \<le> baseQuality small_gif
   \<and> baseQuality one_frame - targetAdjustment (spread DEFAULT_OPTIONS high_floor)
      \<le> maxQuality (spread DEFAULT_OPTIONS high_floor)
   \<and> quality (optimizeForCompression one_frame high_floor) = 93
   \<and> claimed_compression_quality one_frame (spread DEFAULT_OPTIONS high_floor) = 93
   \<and> compressionRatio (optimizeForCompression one_frame high_floor)
       = 5908722711110091 / 2 ^ 54
   \<and> fl (real (fileSize one_frame)
          * fl (1 - compressionRatio (optimizeForCompression one_frame high_floor)))
       = 5910974510923775 / 2 ^ 43
   \<and> predictedSize (optimizeForCompression one_frame high_floor) = 671
   \<and> targetAdjustment (spread DEFAULT_OPTIONS tight_target) = 2
   \<and> baseQuality one_frame - targetAdjustment (spread DEFAULT_OPTIONS tight_target)
      \<le> maxQuality (spread DEFAULT_OPTIONS tight_target)
   \<and> claimed_compression_quality one_frame (spread DEFAULT_OPTIONS tight_target) = 83
   \<and> quality (optimizeForCompression one_frame tight_target) = 83"
proof -
  note t = compression_strategy_formula[of small_gif no_overrides scenario_attributes]
  note u = compression_strategy_formula[of one_frame high_floor scenario_attributes]
  note v = compression_strategy_formula[of one_frame tight_target scenario_attributes]
  have h1: "baseQuality small_gif - targetAdjustment (spread DEFAULT_OPTIONS no_overrides)
      \<le> maxQuality (spread DEFAULT_OPTIONS no_overrides)"
    unfolding default_spread default_adjustment small_gif_base by (simp add: DEFAULT_OPTIONS_def)
  have h2: "width small_gif * height small_gif * frames small_gif
      \<le> width scenario_attributes * height scenario_attributes * frames scenario_attributes"
    by (simp add: small_gif_def scenario_attributes_def)
  have c: "claimed_compression_quality small_gif (spread DEFAULT_OPTIONS no_overrides) = 69"
    unfolding claimed_compression_quality_def default_spread default_adjustment small_gif_base
    by (simp add: clamp_def small_gif_def DEFAULT_OPTIONS_def)
  have q: "quality (optimizeForCompression small_gif no_overrides) = 69"
    using t h1 c by simp
  have e: "effort (optimizeForCompression small_gif no_overrides) = 6"
    using t unfolding default_spread by (simp add: DEFAULT_OPTIONS_def)
  have r: "compressionRatio (optimizeForCompression small_gif no_overrides)
       = 7638104968020361 / 2 ^ 54"
    by (rule small_default_ratio)
  have s: "predictedSize (optimizeForCompression small_gif no_overrides) = 576"
    using t unfolding small_default_size(1) by simp
  have p: "estimatedPSNR (optimizeForCompression small_gif no_overrides)
       = Num (2730307274093363 / 2 ^ 46)"
    by (rule small_default_psnr)
  have b: "baseQuality scenario_attributes \<le> baseQuality small_gif"
    using t h2 by blast
  have h3: "baseQuality one_frame - targetAdjustment (spread DEFAULT_OPTIONS high_floor)
      \<le> maxQuality (spread DEFAULT_OPTIONS high_floor)"
    unfolding high_floor_spread adjustment_at_default_ratio[OF high_floor_ratio] one_frame_base
    by (simp add: DEFAULT_OPTIONS_def)
  have c': "claimed_compression_quality one_frame (spread DEFAULT_OPTIONS high_floor) = 93"
    unfolding claimed_compression_quality_def high_floor_spread
      adjustment_at_default_ratio[OF high_floor_ratio] one_frame_base
    by (simp add: clamp_def one_frame_def DEFAULT_OPTIONS_def)
  have q': "quality (optimizeForCompression one_frame high_floor) = 93"
    using u h3 c' by simp
  have s': "predictedSize (optimizeForCompression one_frame high_floor) = 671"
    using u unfolding one_frame_floor_size(1) by simp
  have a2: "targetAdjustment (spread DEFAULT_OPTIONS tight_target) = 2"
    unfolding tight_target_spread by (rule adjustment_at_nine_tenths[OF tight_target_ratio])
  have h4: "baseQuality one_frame - targetAdjustment (spread DEFAULT_OPTIONS tight_target)
      \<le> maxQuality (spread DEFAULT_OPTIONS tight_target)"
    unfolding a2 one_frame_base unfolding tight_target_spread by (simp add: DEFAULT_OPTIONS_def)
  have c'': "claimed_compression_quality one_frame (spread DEFAULT_OPTIONS tight_target) = 83"
    unfolding claimed_compression_quality_def a2 one_frame_base
    unfolding tight_target_spread
    by (simp add: clamp_def one_frame_def DEFAULT_OPTIONS_def)
  have q'': "quality (optimizeForCompression one_frame tight_target) = 83"
    using v h4 c'' by simp
  show ?thesis
    using h1 h2 q c e r small_default_size(1) s p b h3 q' c' one_frame_floor_ratio
      one_frame_floor_size(1) s' a2 h4 c'' q''
    by blast
qed

text \<open>
  The claim as stated fails twice. At the default options the predicted size of a file of
  1001 bytes is 576, below \<open>fileSize * (1 - ratio)\<close>. With \<open>maxQuality = 60\<close> the quality is
  55 (74 clamped to 60, then the frame penalty), not the single clamp 60.
\<close>

theorem compression_strategy_formula_counterexample:
  "real_of_int (predictedSize (optimizeForCompression small_gif no_overrides)) = 576
   \<and> compressionRatio (optimizeForCompression small_gif no_overrides)
       = 7638104968020361 / 2 ^ 54
   \<and> real_of_int (predictedSize (optimizeForCompression small_gif no_overrides))
        < real (fileSize small_gif)
            * (1 - compressionRatio (optimizeForCompression small_gif no_overrides))
   \<and> real_of_int (predictedSize (optimizeForCompression small_gif no_overrides))
        \<noteq> real (fileSize small_gif)
            * (1 - compressionRatio (optimizeForCompression small_gif no_overrides))
   \<and> quality (optimizeForCompression small_gif low_ceiling) = 55
   \<and> claimed_compression_quality small_gif (spread DEFAULT_OPTIONS low_ceiling) = 60
   \<and> quality (optimizeForCompression small_gif low_ceiling)
        \<noteq> claimed_compression_quality small_gif (spread DEFAULT_OPTIONS low_ceiling)"
proof -
  have fs: "real (fileSize small_gif) = 1001" by (simp add: small_gif_def)
  have c1: "claimed_compression_quality small_gif (spread DEFAULT_OPTIONS low_ceiling) = 60"
    unfolding claimed_compression_quality_def low_ceiling_spread
      adjustment_at_default_ratio[OF low_ceiling_ratio] small_gif_base
    by (simp add: clamp_def small_gif_def DEFAULT_OPTIONS_def)
  show ?thesis
    unfolding small_default_size(2) small_default_ratio fs small_ceiling_quality c1 by simp
qed

section \<open>Properties of the quality metrics\<close>

subsection \<open>Mean squared error\<close>

lemma channel_step:
  assumes "k < length a" "length a = length b"
  shows "(let diff = js_sub (px a k) (px b k) in js_add (Num t) (js_mul diff diff))
         = Num (t + sq_diff a b k)"
  using assms by (simp add: px_def js_sub_def sq_diff_def power2_eq_square)

lemma channel_fold:
  assumes "i + c \<le> length a" "length a = length b"
  shows "fold (\<lambda>c acc. let diff = js_sub (px a (i + c)) (px b (i + c))
                     in js_add acc (js_mul diff diff)) [0..<c] (Num t)
         = Num (t + (\<Sum>k = i..<i + c. sq_diff a b k))"
  using assms
proof (induction c)
  case 0
  then show ?case by simp
next
  case (Suc c)
  have in_range: "i + c < length a" using Suc.prems by simp
  have "fold (\<lambda>c acc. let diff = js_sub (px a (i + c)) (px b (i + c))
                     in js_add acc (js_mul diff diff)) [0..<c] (Num t)
         = Num (t + (\<Sum>k = i..<i + c. sq_diff a b k))"
    using Suc by simp
  then show ?case
    using channel_step[OF in_range Suc.prems(2)] by (simp add: add.assoc)
qed

lemma channel_loop_in_range:
  assumes "i + channels \<le> length a" "length a = length b"
  shows "channel_loop a b channels i (Num t) = Num (t + (\<Sum>k = i..<i + channels. sq_diff a b k))"
  unfolding channel_loop_def by (rule channel_fold[OF assms])

lemma pixel_loop_aligned:
  assumes "length a = length b" "0 < channels" "length a = i + m * channels"
  shows "pixel_loop a b channels i (Num t) = Some (Num (t + (\<Sum>k = i..<length a. sq_diff a b k)))"
  using assms(3)
proof (induction m arbitrary: i t)
  case 0
  then show ?case by (subst pixel_loop.simps) simp
next
  case (Suc m)
  have lt: "i < length a" using Suc.prems assms(2) by simp
  have fits: "i + channels \<le> length a" using Suc.prems by simp
  have rest: "length a = (i + channels) + m * channels" using Suc.prems by simp
  have split: "(\<Sum>k = i..<length a. sq_diff a b k)
      = (\<Sum>k = i..<i + channels. sq_diff a b k) + (\<Sum>k = i + channels..<length a. sq_diff a b k)"
    using fits by (simp add: sum.atLeastLessThan_concat)
  show ?case
    by (subst pixel_loop.simps)
       (simp add: lt channel_loop_in_range[OF fits assms(1)] Suc.IH[OF rest] split add.assoc)
qed

lemma calculateMSE_mean:
  assumes "length a = length b" "0 < channels" "channels dvd length a" "a \<noteq> []"
  shows "calculateMSE a b channels
         = Some (Inr (Num ((\<Sum>k < length a. sq_diff a b k) / real (length a))))"
proof -
  obtain m where m: "length a = 0 + m * channels" using assms(3) by (auto simp: dvd_def mult.commute)
  have loop: "pixel_loop a b channels 0 (Num 0) = Some (Num (\<Sum>k < length a. sq_diff a b k))"
    using pixel_loop_aligned[OF assms(1,2) m, of 0] by (simp add: atLeast0LessThan)
  have ch: "real channels \<noteq> 0" using assms(2) by simp
  have len: "real (length a) \<noteq> 0" using assms(4) by simp
  show ?thesis
    using assms(1) ch len by (simp add: calculateMSE_def loop)
qed

lemma calculateMSE_mismatch:
  "(calculateMSE a b channels = Some (Inl e)) = (length a \<noteq> length b \<and> e = SizeMismatch)"
  by (auto simp: calculateMSE_def Let_def split: option.splits)

lemma js_add_NaN_right: "js_add acc NaN = NaN"
  by (cases acc) simp_all

lemma channel_loop_past_end:
  assumes "0 < channels" "length a < i + channels"
  shows "channel_loop a b channels i t = NaN"
proof -
  obtain c where c: "channels = Suc c" using assms(1) by (cases channels) auto
  have out: "\<not> i + c < length a" using assms(2) c by simp
  have "px a (i + c) = NaN" using out by (simp add: px_def)
  then have "js_sub (px a (i + c)) (px b (i + c)) = NaN" by (simp add: js_sub_def)
  then show ?thesis
    unfolding channel_loop_def c by (simp add: js_add_NaN_right)
qed

lemma pixel_loop_partial:
  assumes "0 < channels" "i \<le> length a" "\<not> channels dvd (length a - i)"
  shows "pixel_loop a b channels i t = Some NaN"
  using assms(2,3)
proof (induction "length a - i" arbitrary: i t rule: less_induct)
  case less
  have lt: "i < length a"
  proof (rule ccontr)
    assume "\<not> i < length a"
    then have "length a - i = 0" by simp
    with less.prems(2) show False by simp
  qed
  show ?case
  proof (cases "i + channels \<le> length a")
    case True
    have sm: "length a - (i + channels) < length a - i" using lt assms(1) by simp
    have nd: "\<not> channels dvd (length a - (i + channels))"
    proof
      assume d: "channels dvd (length a - (i + channels))"
      have "length a - i = (length a - (i + channels)) + channels" using True by simp
      with d have "channels dvd (length a - i)" by simp
      with less.prems(2) show False by simp
    qed
    show ?thesis
      by (subst pixel_loop.simps) (simp add: lt less.hyps[OF sm True nd])
  next
    case False
    then have past: "length a < i + channels" by simp
    have stop: "\<not> i + channels < length a" using past by simp
    have "pixel_loop a b channels (i + channels) NaN = Some NaN"
      by (subst pixel_loop.simps) (simp add: stop)
    then show ?thesis
      by (subst pixel_loop.simps) (simp add: lt channel_loop_past_end[OF assms(1) past])
  qed
qed

lemma pixel_loop_zero_channels:
  assumes "pixel_loop a b channels i t = Some y"
  shows "\<not> (channels = 0 \<and> i < length a)"
proof (rule pixel_loop.raw_induct
        [where P = "\<lambda>a b channels i t y. \<not> (channels = 0 \<and> i < length a)", OF _ assms])
  fix f :: "pixels \<Rightarrow> pixels \<Rightarrow> nat \<Rightarrow> nat \<Rightarrow> jsnum \<Rightarrow> jsnum option"
  fix a b :: pixels and channels i :: nat and t y :: jsnum
  assume IH: "\<And>a b channels i t y. f a b channels i t = Some y
                \<Longrightarrow> \<not> (channels = 0 \<and> i < length a)"
    and body: "(if i < length a
                then f a b channels (i + channels) (channel_loop a b channels i t)
                else Some t) = Some y"
  show "\<not> (channels = 0 \<and> i < length a)"
  proof
    assume c: "channels = 0 \<and> i < length a"
    then have "f a b channels (i + channels) (channel_loop a b channels i t) = Some y"
      using body by simp
    from IH[OF this] c show False by simp
  qed
qed

lemma calculateMSE_no_channels:
  assumes "length a = length b" "a \<noteq> []"
  shows "calculateMSE a b 0 = None"
proof -
  have "pixel_loop a b 0 0 (Num 0) = None"
  proof (cases "pixel_loop a b 0 0 (Num 0)")
    case None
    then show ?thesis .
  next
    case (Some y)
    then show ?thesis using pixel_loop_zero_channels[OF Some] assms(2) by simp
  qed
  then show ?thesis using assms(1) by (simp add: calculateMSE_def)
qed

lemma calculateMSE_empty: "calculateMSE [] [] channels = Some (Inr NaN)"
  by (simp add: calculateMSE_def pixel_loop.simps signed_inf_def)

lemma calculateMSE_partial_pixel:
  assumes "length a = length b" "0 < channels" "\<not> channels dvd length a"
  shows "calculateMSE a b channels = Some (Inr NaN)"
proof -
  have "pixel_loop a b channels 0 (Num 0) = Some NaN"
    using pixel_loop_partial[OF assms(2), of 0 a b "Num 0"] assms(3) by simp
  then show ?thesis using assms(1) by (simp add: calculateMSE_def)
qed

text \<open>
  Claim C8, as amended. \<open>calculateMSE\<close> throws exactly when the two buffers differ in length,
  and the error is the size mismatch. For buffers of equal length that hold whole pixels
  (the length is a positive multiple of a positive channel count) it returns the mean of
  the squared differences over all channel values. For every other pair of buffers of
  equal length it returns no mean: the result is \<open>NaN\<close> for empty buffers and for a length
  that is not a multiple of a positive channel count, and with zero channels the loop over
  a non-empty buffer does not end.
\<close>

theorem calculateMSE_mismatch_or_mean:
  "(calculateMSE a b channels = Some (Inl SizeMismatch)) = (length a \<noteq> length b)
   \<and> (calculateMSE a b channels = Some (Inl e)) = (length a \<noteq> length b \<and> e = SizeMismatch)
   \<and> (length a = length b \<and> 0 < channels \<and> channels dvd length a \<and> a \<noteq> [] \<longrightarrow>
        calculateMSE a b channels
        = Some (Inr (Num ((\<Sum>k < length a. sq_diff a b k) / real (length a)))))
   \<and> (length a = length b \<and> (a = [] \<or> (0 < channels \<and> \<not> channels dvd length a)) \<longrightarrow>
        calculateMSE a b channels = Some (Inr NaN))
   \<and> (length a = length b \<and> channels = 0 \<and> a \<noteq> [] \<longrightarrow>
        calculateMSE a b channels = None)"
proof -
  have c1: "(calculateMSE a b channels = Some (Inl SizeMismatch)) = (length a \<noteq> length b)"
    using calculateMSE_mismatch[of a b channels SizeMismatch] by simp
  have c2: "(calculateMSE a b channels = Some (Inl e)) = (length a \<noteq> length b \<and> e = SizeMismatch)"
    by (rule calculateMSE_mismatch)
  have c3: "length a = length b \<and> 0 < channels \<and> channels dvd length a \<and> a \<noteq> [] \<longrightarrow>
        calculateMSE a b channels
        = Some (Inr (Num ((\<Sum>k < length a. sq_diff a b k) / real (length a))))"
    by (intro impI, elim conjE) (rule calculateMSE_mean)
  have c4: "length a = length b \<and> (a = [] \<or> (0 < channels \<and> \<not> channels dvd length a)) \<longrightarrow>
        calculateMSE a b channels = Some (Inr NaN)"
    using calculateMSE_empty[of channels] calculateMSE_partial_pixel[of a b channels]
    by auto
  have c5: "length a = length b \<and> channels = 0 \<and> a \<noteq> [] \<longrightarrow>
        calculateMSE a b channels = None"
    using calculateMSE_no_channels[of a b] by simp
  show ?thesis using c1 c2 c3 c4 c5 by (intro conjI)
qed

text \<open>
  Two pixels of three channels, one value differing by 2; buffers of lengths 3 and 2; four
  values read as pixels of three channels; and one value read with zero channels.
\<close>

theorem calculateMSE_mismatch_or_mean_witness:
  "length [1, 2, 3, 4, 5, 6 :: 8 word] = length [1, 2, 3, 4, 5, 8 :: 8 word]
   \<and> (0::nat) < 3 \<and> (3::nat) dvd length [1, 2, 3, 4, 5, 6 :: 8 word]
   \<and> [1, 2, 3, 4, 5, 6 :: 8 word] \<noteq> []
   \<and> calculateMSE [1, 2, 3, 4, 5, 6] [1, 2, 3, 4, 5, 8] 3 = Some (Inr (Num (4 / 6)))
   \<and> calculateMSE [1, 2, 3] [1, 2] 3 = Some (Inl SizeMismatch)
   \<and> length [1, 2, 3, 4 :: 8 word] = length [1, 2, 3, 5 :: 8 word]
   \<and> \<not> (3::nat) dvd length [1, 2, 3, 4 :: 8 word]
   \<and> calculateMSE [1, 2, 3, 4] [1, 2, 3, 5] 3 = Some (Inr NaN)
   \<and> length [7 :: 8 word] = length [9 :: 8 word] \<and> [7 :: 8 word] \<noteq> []
   \<and> calculateMSE [7] [9] 0 = None"
proof -
  have len: "length [1, 2, 3, 4, 5, 6 :: 8 word] = 6" by simp
  have hyp: "length [1, 2, 3, 4, 5, 6 :: 8 word] = length [1, 2, 3, 4, 5, 8 :: 8 word]
     \<and> (0::nat) < 3 \<and> (3::nat) dvd length [1, 2, 3, 4, 5, 6 :: 8 word]
     \<and> [1, 2, 3, 4, 5, 6 :: 8 word] \<noteq> []"
    unfolding len by simp
  have s: "(\<Sum>k < 6. sq_diff [1, 2, 3, 4, 5, 6] [1, 2, 3, 4, 5, 8] k) = 4"
    by (simp add: sq_diff_def lessThan_nat_numeral lessThan_Suc)
  have m: "calculateMSE [1, 2, 3] [1, 2] 3 = Some (Inl SizeMismatch)"
    using calculateMSE_mismatch_or_mean[of "[1, 2, 3]" "[1, 2]" 3 SizeMismatch] by simp
  have "calculateMSE [1, 2, 3, 4, 5, 6] [1, 2, 3, 4, 5, 8] 3
        = Some (Inr (Num ((\<Sum>k < length [1, 2, 3, 4, 5, 6 :: 8 word].
             sq_diff [1, 2, 3, 4, 5, 6] [1, 2, 3, 4, 5, 8] k)
           / real (length [1, 2, 3, 4, 5, 6 :: 8 word]))))"
    using calculateMSE_mismatch_or_mean[of "[1, 2, 3, 4, 5, 6]" "[1, 2, 3, 4, 5, 8]" 3 SizeMismatch]
      hyp by blast
  then have mean: "calculateMSE [1, 2, 3, 4, 5, 6] [1, 2, 3, 4, 5, 8] 3 = Some (Inr (Num (4 / 6)))"
    unfolding len s by simp
  have len4: "length [1, 2, 3, 4 :: 8 word] = 4" by simp
  have hyp2: "length [1, 2, 3, 4 :: 8 word] = length [1, 2, 3, 5 :: 8 word]"
    "\<not> (3::nat) dvd length [1, 2, 3, 4 :: 8 word]"
    unfolding len4 by simp_all
  have nan: "calculateMSE [1, 2, 3, 4] [1, 2, 3, 5] 3 = Some (Inr NaN)"
    using calculateMSE_mismatch_or_mean[of "[1, 2, 3, 4]" "[1, 2, 3, 5]" 3 SizeMismatch] hyp2
    by simp
  have hyp3: "length [7 :: 8 word] = length [9 :: 8 word]" "[7 :: 8 word] \<noteq> []"
    by simp_all
  have none: "calculateMSE [7] [9] 0 = None"
    using calculateMSE_mismatch_or_mean[of "[7]" "[9]" 0 SizeMismatch] hyp3 by simp
  from hyp mean m hyp2 nan hyp3 none show ?thesis by blast
qed

text \<open>
  The claim as stated fails for buffers of equal length that do not hold whole pixels. Four
  equal values read as pixels of three channels have squared differences of mean 0, and
  the result is \<open>NaN\<close>: the second pixel reads two values past the end. Two empty buffers
  give \<open>NaN\<close> as well (\<open>0 / 0\<close>), and with zero channels nothing is returned.
\<close>

theorem calculateMSE_mismatch_or_mean_counterexample:
  "length [1, 2, 3, 4 :: 8 word] = length [1, 2, 3, 4 :: 8 word]
   \<and> sum (sq_diff [1, 2, 3, 4] [1, 2, 3, 4]) {..<length [1, 2, 3, 4 :: 8 word]}
        / real (length [1, 2, 3, 4 :: 8 word]) = 0
   \<and> calculateMSE [1, 2, 3, 4] [1, 2, 3, 4] 3 = Some (Inr NaN)
   \<and> calculateMSE [1, 2, 3, 4] [1, 2, 3, 4] 3 \<noteq> Some (Inr (Num 0))
   \<and> calculateMSE [] [] 3 = Some (Inr NaN)
   \<and> calculateMSE [7] [7] 0 = None"
proof -
  have z: "sum (sq_diff [1, 2, 3, 4] [1, 2, 3, 4]) {..<length [1, 2, 3, 4 :: 8 word]} = 0"
    by (simp add: sq_diff_def)
  have len4: "length [1, 2, 3, 4 :: 8 word] = 4" by simp
  have nd: "\<not> (3::nat) dvd length [1, 2, 3, 4 :: 8 word]" unfolding len4 by simp
  have nan: "calculateMSE [1, 2, 3, 4] [1, 2, 3, 4] 3 = Some (Inr NaN)"
    by (rule calculateMSE_partial_pixel[OF _ _ nd]) simp_all
  have none: "calculateMSE [7] [7] 0 = None"
    by (rule calculateMSE_no_channels) simp_all
  show ?thesis
    unfolding z nan none using calculateMSE_empty[of 3] by simp
qed

subsection \<open>Score and grade\<close>

lemma js_min_Num: "js_min (Num a) (Num b) = Num (min a b)"
  by (simp add: min_def)

lemma js_max_Num: "js_max (Num a) (Num b) = Num (max a b)"
  by (simp add: max_def)

lemma psnrScore_Num: "psnrScore (Num p) = Num (psnr_points p)"
  by (simp add: psnrScore_def psnr_points_def js_ge_def js_sub_def js_max_Num
      QT_excellent_def QT_good_def QT_acceptable_def)

lemma psnrScore_PosInf: "psnrScore PosInf = Num 100"
  by (simp add: psnrScore_def js_ge_def QT_excellent_def)

lemma psnrScore_NegInf: "psnrScore NegInf = Num 0"
  by (simp add: psnrScore_def js_ge_def signed_inf_def QT_excellent_def QT_good_def
      QT_acceptable_def)

lemma psnr_points_range: "0 \<le> psnr_points p \<and> psnr_points p \<le> 100"
  by (simp add: psnr_points_def)

lemma psnr_points_mono: "p \<le> q \<Longrightarrow> psnr_points p \<le> psnr_points q"
  unfolding psnr_points_def by (simp add: max_def field_simps)

lemma psnrScore_mono:
  assumes "js_le p1 p2"
  shows "\<exists>x y. psnrScore p1 = Num x \<and> psnrScore p2 = Num y \<and> x \<le> y"
proof (cases p1)
  case (Num a)
  show ?thesis
  proof (cases p2)
    case (Num b)
    with \<open>p1 = Num a\<close> assms show ?thesis
      by (simp add: psnrScore_Num psnr_points_mono)
  next
    case PosInf
    with \<open>p1 = Num a\<close> show ?thesis
      using psnr_points_range[of a] by (simp add: psnrScore_Num psnrScore_PosInf)
  next
    case NegInf
    with \<open>p1 = Num a\<close> assms show ?thesis by simp
  next
    case NaN
    with \<open>p1 = Num a\<close> assms show ?thesis by simp
  qed
next
  case PosInf
  with assms show ?thesis by (cases p2) (simp_all add: psnrScore_PosInf)
next
  case NegInf
  show ?thesis
  proof (cases p2)
    case (Num b)
    with NegInf show ?thesis
      using psnr_points_range[of b] by (simp add: psnrScore_Num psnrScore_NegInf)
  next
    case PosInf
    with NegInf show ?thesis by (simp add: psnrScore_PosInf psnrScore_NegInf)
  next
    case NegInf
    with \<open>p1 = NegInf\<close> show ?thesis by (simp add: psnrScore_NegInf)
  next
    case NaN
    with \<open>p1 = NegInf\<close> assms show ?thesis by simp
  qed
next
  case NaN
  with assms show ?thesis by simp
qed

lemma score_Num:
  assumes "psnrScore p = Num x"
  shows "calculateQualityScore p (Num s) (Num r) = Num (score_of_points x s r)"
  by (simp add: calculateQualityScore_def Let_def assms js_min_Num js_max_Num score_of_points_def)

lemma score_of_points_mono: "x \<le> y \<Longrightarrow> score_of_points x s r \<le> score_of_points y s r"
  unfolding score_of_points_def
  by (intro of_int_le_iff[THEN iffD2] floor_mono add_right_mono min.mono max.mono order_refl
      mult_right_mono) simp_all

text \<open>
  Claim C7. For fixed finite \<open>ssim\<close> and \<open>compressionRatio\<close> and PSNR values \<open>p1 \<le> p2\<close>
  (finite or infinite), the score of \<open>p1\<close> is at most the score of \<open>p2\<close>.
\<close>

theorem quality_score_monotone_in_psnr:
  assumes "js_le p1 p2"
  shows "js_le (calculateQualityScore p1 (Num s) (Num r))
               (calculateQualityScore p2 (Num s) (Num r))"
proof -
  obtain x y where xy: "psnrScore p1 = Num x" "psnrScore p2 = Num y" "x \<le> y"
    using psnrScore_mono[OF assms] by blast
  show ?thesis
    unfolding score_Num[OF xy(1)] score_Num[OF xy(2)]
    using score_of_points_mono[OF xy(3)] by simp
qed

text \<open>PSNR 32 dB scores 64 and PSNR 38 dB scores 82, at \<open>ssim = 0.9\<close> and ratio \<open>0.5\<close>.\<close>

theorem quality_score_monotone_in_psnr_witness:
  "js_le (Num 32) (Num 38)
   \<and> calculateQualityScore (Num 32) (Num (9 / 10)) (Num (1 / 2)) = Num 64
   \<and> calculateQualityScore (Num 38) (Num (9 / 10)) (Num (1 / 2)) = Num 82
   \<and> js_le (calculateQualityScore (Num 32) (Num (9 / 10)) (Num (1 / 2)))
            (calculateQualityScore (Num 38) (Num (9 / 10)) (Num (1 / 2)))"
proof -
  have h: "js_le (Num 32) (Num 38)" by simp
  have a: "calculateQualityScore (Num 32) (Num (9 / 10)) (Num (1 / 2)) = Num 64"
    unfolding score_Num[OF psnrScore_Num] by (simp add: score_of_points_def psnr_points_def)
  have b: "calculateQualityScore (Num 38) (Num (9 / 10)) (Num (1 / 2)) = Num 82"
    unfolding score_Num[OF psnrScore_Num] by (simp add: score_of_points_def psnr_points_def)
  from quality_score_monotone_in_psnr[OF h, of "9 / 10" "1 / 2"] h a b show ?thesis by simp
qed

lemma psnr_of_zero: "calculatePSNR (Num 0) mx = PosInf"
  by (simp add: calculatePSNR_def)

lemma ssim_of_inf: "estimateSSIM PosInf = Num 1"
  by (simp add: estimateSSIM_def)

lemma score_identical:
  "calculateQualityScore PosInf (Num 1) (Num r) = Num (score_of_points 100 1 r)"
  by (rule score_Num[OF psnrScore_PosInf])

lemma excellent_iff_score:
  "(getQualityGrade PosInf (Num 1) (Num x) = ''excellent'') = (90 \<le> x)"
  by (simp add: getQualityGrade_def js_ge_def QT_excellent_def QT_good_def QT_acceptable_def
      QT_poor_def)

lemma ninety_le_round: "(90 \<le> real_of_int \<lfloor>x\<rfloor>) = (90 \<le> (x::real))"
proof -
  have "(real_of_int 90 \<le> real_of_int \<lfloor>x\<rfloor>) = (90 \<le> \<lfloor>x\<rfloor>)" by (rule of_int_le_iff)
  also have "\<dots> = (real_of_int 90 \<le> x)" by (rule le_floor_iff)
  finally show ?thesis by simp
qed

lemma identical_total:
  "(100::real) * (6 / 10) + 1 * 100 * (3 / 10) + min 10 (r * 15) * (1 / 10) = 90 + min 10 (r * 15) / 10"
  by simp

lemma clamp_half: "(90 \<le> min 100 (max 0 (90 + min 10 (r * 15) / 10)) + 1 / 2) = (- 1 / 3 \<le> (r::real))"
  unfolding min_def max_def by argo

lemma score_identical_ge_90: "(90 \<le> score_of_points 100 1 r) = (- 1 / 3 \<le> r)"
  unfolding score_of_points_def ninety_le_round identical_total by (rule clamp_half)

lemma grade_identical:
  "(getQualityGrade PosInf (Num 1) (calculateQualityScore PosInf (Num 1) (Num r)) = ''excellent'')
   = (- 1 / 3 \<le> r)"
  unfolding score_identical excellent_iff_score by (rule score_identical_ge_90)

lemma compare_identical:
  assumes "calculateMSE (data img1) (data img2)
             (min (min (img_channels img1) (img_channels img2)) 3) = Some (Inr (Num 0))"
  shows "compareImageQuality osz csz img1 img2 =
     Some (Inr \<lparr> r_psnr = PosInf, r_mse = Num 0, r_ssim = Num 1,
       r_compressionRatio = js_div (js_sub (Num (real osz)) (Num (real csz))) (Num (real osz)),
       r_qualityScore = calculateQualityScore PosInf (Num 1)
          (js_div (js_sub (Num (real osz)) (Num (real csz))) (Num (real osz))),
       r_qualityGrade = getQualityGrade PosInf (Num 1) (calculateQualityScore PosInf (Num 1)
          (js_div (js_sub (Num (real osz)) (Num (real csz))) (Num (real osz)))) \<rparr>)"
  unfolding compareImageQuality_def Let_def assms option.case sum.case psnr_of_zero ssim_of_inf ..

lemma ratio_of_sizes:
  "0 < osz \<Longrightarrow> js_div (js_sub (Num (real osz)) (Num (real csz))) (Num (real osz))
     = Num ((real osz - real csz) / real osz)"
  by (simp add: js_sub_def)

lemma grade_by_sizes:
  assumes "0 < osz"
  shows "(getQualityGrade PosInf (Num 1) (calculateQualityScore PosInf (Num 1)
            (js_div (js_sub (Num (real osz)) (Num (real csz))) (Num (real osz)))) = ''excellent'')
         = (3 * csz \<le> 4 * osz)"
proof -
  have pos: "0 < real osz" using assms by simp
  have "(- 1 / 3 \<le> (real osz - real csz) / real osz)
        = (- 1 / 3 * real osz \<le> real osz - real csz)"
    by (rule pos_le_divide_eq[OF pos])
  also have "\<dots> = (3 * real csz \<le> 4 * real osz)" by argo
  also have "\<dots> = (real (3 * csz) \<le> real (4 * osz))" by simp
  also have "\<dots> = (3 * csz \<le> 4 * osz)" by (rule of_nat_le_iff)
  finally show ?thesis
    unfolding ratio_of_sizes[OF assms] grade_identical .
qed

text \<open>
  Claim C2, as amended. For two buffers whose MSE is 0 the PSNR is \<open>Infinity\<close> and the
  estimated SSIM is exactly 1, whatever the compression ratio is; the grade is
  \<open>excellent\<close> exactly when the compression ratio is at least \<open>-1/3\<close>, that is when the
  compressed file is at most 4/3 of the original (in particular whenever it is not larger).
\<close>

theorem identical_pixels_grade:
  assumes "calculateMSE (data img1) (data img2)
             (min (min (img_channels img1) (img_channels img2)) 3) = Some (Inr (Num 0))"
  shows "calculatePSNR (Num 0) (Num 255) = PosInf
    \<and> estimateSSIM PosInf = Num 1
    \<and> (getQualityGrade PosInf (Num 1) (calculateQualityScore PosInf (Num 1) (Num r))
          = ''excellent'') = (- 1 / 3 \<le> r)
    \<and> (\<exists>res. compareImageQuality osz csz img1 img2 = Some (Inr res)
          \<and> r_mse res = Num 0 \<and> r_psnr res = PosInf \<and> r_ssim res = Num 1
          \<and> (0 < osz \<longrightarrow>
               r_compressionRatio res = Num ((real osz - real csz) / real osz)
               \<and> (r_qualityGrade res = ''excellent'') = (3 * csz \<le> 4 * osz)))"
proof -
  let ?ratio = "js_div (js_sub (Num (real osz)) (Num (real csz))) (Num (real osz))"
  let ?res = "\<lparr> r_psnr = PosInf, r_mse = Num 0, r_ssim = Num 1, r_compressionRatio = ?ratio,
       r_qualityScore = calculateQualityScore PosInf (Num 1) ?ratio,
       r_qualityGrade = getQualityGrade PosInf (Num 1)
          (calculateQualityScore PosInf (Num 1) ?ratio) \<rparr>"
  have c: "compareImageQuality osz csz img1 img2 = Some (Inr ?res)"
    by (rule compare_identical[OF assms])
  have f: "r_mse ?res = Num 0" "r_psnr ?res = PosInf" "r_ssim ?res = Num 1"
    by (simp_all only: quality_result.select_convs)
  have g: "0 < osz \<longrightarrow>
      r_compressionRatio ?res = Num ((real osz - real csz) / real osz)
      \<and> (r_qualityGrade ?res = ''excellent'') = (3 * csz \<le> 4 * osz)"
  proof
    assume pos: "0 < osz"
    show "r_compressionRatio ?res = Num ((real osz - real csz) / real osz)
      \<and> (r_qualityGrade ?res = ''excellent'') = (3 * csz \<le> 4 * osz)"
      unfolding quality_result.select_convs
      using ratio_of_sizes[OF pos, of csz] grade_by_sizes[OF pos, of csz] by (rule conjI)
  qed
  have run: "\<exists>res. compareImageQuality osz csz img1 img2 = Some (Inr res)
          \<and> r_mse res = Num 0 \<and> r_psnr res = PosInf \<and> r_ssim res = Num 1
          \<and> (0 < osz \<longrightarrow>
               r_compressionRatio res = Num ((real osz - real csz) / real osz)
               \<and> (r_qualityGrade res = ''excellent'') = (3 * csz \<le> 4 * osz))"
    using c f g by (intro exI[of _ ?res] conjI)
  show ?thesis
    by (intro conjI) (rule psnr_of_zero, rule ssim_of_inf, rule grade_identical, rule run)
qed

lemma flat_mse: "calculateMSE (data flat_image) (data flat_image)
             (min (min (img_channels flat_image) (img_channels flat_image)) 3) = Some (Inr (Num 0))"
  by (simp add: flat_image_def calculateMSE_def pixel_loop.simps channel_loop_def px_def
      js_sub_def upt_rec)

text \<open>An image compared with itself, the file shrinking from 1000 to 400 bytes.\<close>

theorem identical_pixels_grade_witness:
  "calculateMSE (data flat_image) (data flat_image)
      (min (min (img_channels flat_image) (img_channels flat_image)) 3) = Some (Inr (Num 0))
   \<and> (0::nat) < 1000
   \<and> (\<exists>res. compareImageQuality 1000 400 flat_image flat_image = Some (Inr res)
          \<and> r_psnr res = PosInf \<and> r_ssim res = Num 1
          \<and> r_compressionRatio res = Num (6 / 10)
          \<and> r_qualityGrade res = ''excellent'')"
proof -
  have pos: "(0::nat) < 1000" by simp
  obtain res where res: "compareImageQuality 1000 400 flat_image flat_image = Some (Inr res)"
      "r_psnr res = PosInf" "r_ssim res = Num 1"
      "r_compressionRatio res = Num ((real (1000::nat) - real (400::nat)) / real (1000::nat))"
      "(r_qualityGrade res = ''excellent'') = (3 * (400::nat) \<le> 4 * 1000)"
    using identical_pixels_grade[OF flat_mse, of 0 1000 400] pos by blast
  have "r_compressionRatio res = Num (6 / 10)" using res(4) by simp
  moreover have "r_qualityGrade res = ''excellent''" using res(5) by simp
  ultimately show ?thesis using flat_mse pos res(1,2,3) by blast
qed

text \<open>
  The claim as stated fails: an image compared with itself has MSE 0, and when the
  compressed file is twice the original (ratio \<open>-1\<close>) the score is 89 and the grade is
  \<open>good\<close>.
\<close>

theorem identical_pixels_grade_counterexample:
  "calculateMSE (data flat_image) (data flat_image)
      (min (min (img_channels flat_image) (img_channels flat_image)) 3) = Some (Inr (Num 0))
   \<and> compareImageQuality 100 200 flat_image flat_image =
       Some (Inr \<lparr> r_psnr = PosInf, r_mse = Num 0, r_ssim = Num 1,
                   r_compressionRatio = Num (- 1), r_qualityScore = Num 89,
                   r_qualityGrade = ''good'' \<rparr>)"
proof -
  have ratio: "js_div (js_sub (Num (real (100::nat))) (Num (real (200::nat)))) (Num (real (100::nat)))
      = Num (- 1)"
    by (simp add: js_sub_def)
  have score: "calculateQualityScore PosInf (Num 1) (Num (- 1)) = Num 89"
    unfolding score_identical by (simp add: score_of_points_def)
  have grade: "getQualityGrade PosInf (Num 1) (Num 89) = ''good''"
    by (simp add: getQualityGrade_def js_ge_def QT_excellent_def QT_good_def)
  show ?thesis
    unfolding compare_identical[OF flat_mse] ratio score grade using flat_mse by simp
qed

section \<open>Properties of batch runs\<close>

subsection \<open>The pool keeps its bound\<close>

lemma admit_funpow:
  "(admit n ^^ k) \<lparr> next_index = 0, in_flight = [], result_slots = rs, rejection = None,
         collected = cs, completed_count = cc, pool_stats = st \<rparr>
   = \<lparr> next_index = min k n, in_flight = [0..<min k n], result_slots = rs, rejection = None,
         collected = cs, completed_count = cc, pool_stats = st \<rparr>"
proof (induction k)
  case 0
  show ?case by simp
next
  case (Suc k)
  let ?p0 = "\<lparr> next_index = 0, in_flight = [], result_slots = rs, rejection = None,
         collected = cs, completed_count = cc, pool_stats = st \<rparr>"
  let ?pk = "\<lparr> next_index = min k n, in_flight = [0..<min k n], result_slots = rs,
         rejection = None, collected = cs, completed_count = cc, pool_stats = st \<rparr>"
  have "(admit n ^^ Suc k) ?p0 = admit n ((admit n ^^ k) ?p0)" by simp
  also have "\<dots> = admit n ?pk" unfolding Suc ..
  also have "\<dots> = \<lparr> next_index = min (Suc k) n, in_flight = [0..<min (Suc k) n],
         result_slots = rs, rejection = None, collected = cs, completed_count = cc,
         pool_stats = st \<rparr>"
  proof (cases "k < n")
    case True
    then have "min k n = k" "min (Suc k) n = Suc k" by simp_all
    then show ?thesis using True by (simp add: admit_def)
  next
    case False
    then have "min k n = n" "min (Suc k) n = n" by simp_all
    then show ?thesis by (simp add: admit_def)
  qed
  finally show ?case .
qed

lemma start_pool_eq:
  "start_pool bp n =
     \<lparr> next_index = min (concurrency bp) n, in_flight = [0..<min (concurrency bp) n],
       result_slots = Map.empty, rejection = None, collected = [], completed_count = 0,
       pool_stats = converter_stats bp \<rparr>"
  unfolding start_pool_def by (rule admit_funpow)

lemma start_pool_inv: "pool_inv (concurrency bp) n (start_pool bp n)"
  unfolding start_pool_eq pool_inv_def by (auto simp: min_def)

lemma length_removeAll_distinct:
  "distinct xs \<Longrightarrow> i \<in> set xs \<Longrightarrow> length (removeAll i xs) = length xs - 1"
  by (simp add: distinct_remove1_removeAll[symmetric] length_remove1)

text \<open>The pool after the job of \<open>i\<close> has left the list of jobs in flight.\<close>

lemma admit_after_removal:
  assumes inv: "pool_inv c n p" and i: "i \<in> set (in_flight p)"
    and q: "in_flight q = removeAll i (in_flight p)" "next_index q = next_index p"
      "rejection q = rejection p"
  shows "pool_inv c n (admit n q)"
proof -
  have d: "distinct (in_flight p)" and lt: "\<forall>j \<in> set (in_flight p). j < next_index p"
    and le: "next_index p \<le> n" and len: "length (in_flight p) \<le> c"
    and full: "rejection p = None \<longrightarrow> next_index p = n \<or> length (in_flight p) = c"
    using inv by (simp_all add: pool_inv_def)
  have l1: "length (in_flight q) = length (in_flight p) - 1"
    unfolding q(1) by (rule length_removeAll_distinct[OF d i])
  have pos: "0 < length (in_flight p)" using i by (rule length_pos_if_in_set)
  have d1: "distinct (removeAll i (in_flight p))" using d by (rule distinct_removeAll)
  show ?thesis
  proof (cases "rejection q \<noteq> None")
    case True
    then have "admit n q = q" by (simp add: admit_def)
    then show ?thesis
      using True d1 lt le len l1 by (auto simp: pool_inv_def q)
  next
    case False
    then have none: "rejection p = None" using q(3) by simp
    show ?thesis
    proof (cases "next_index q < n")
      case True
      then have c: "length (in_flight p) = c" using full none q(2) by simp
      have "admit n q = q \<lparr> next_index := next_index q + 1,
                             in_flight := in_flight q @ [next_index q] \<rparr>"
        using True False by (simp add: admit_def)
      then show ?thesis
        using d1 lt l1 c pos True by (auto simp: pool_inv_def q)
    next
      case False
      then have "admit n q = q" by (simp add: admit_def)
      moreover have "next_index q = n" using False le q(2) by simp
      ultimately show ?thesis
        using d1 lt len l1 by (auto simp: pool_inv_def q)
    qed
  qed
qed

lemma stop_after_removal:
  assumes inv: "pool_inv c n p" and i: "i \<in> set (in_flight p)"
    and q: "in_flight q = removeAll i (in_flight p)" "next_index q = next_index p"
      "rejection q \<noteq> None"
  shows "pool_inv c n q"
proof -
  have d: "distinct (in_flight p)" and lt: "\<forall>j \<in> set (in_flight p). j < next_index p"
    and le: "next_index p \<le> n" and len: "length (in_flight p) \<le> c"
    using inv by (simp_all add: pool_inv_def)
  have l1: "length (in_flight q) = length (in_flight p) - 1"
    unfolding q(1) by (rule length_removeAll_distinct[OF d i])
  have d1: "distinct (removeAll i (in_flight p))" using d by (rule distinct_removeAll)
  show ?thesis using d1 lt le len l1 q(3) by (auto simp: pool_inv_def q(1,2))
qed

lemma finish_inv:
  assumes inv: "pool_inv c (length paths) p" and f: "finish env bp paths out p i = Some p'"
  shows "pool_inv c (length paths) p'"
proof -
  have i: "i \<in> set (in_flight p)" using f by (auto simp: finish_def split: if_splits)
  obtain outcome cc st where job:
    "item_job env bp paths out (completed_count p, pool_stats p) (paths ! i) = (outcome, cc, st)"
    by (metis prod_cases3)
  let ?p1 = "p \<lparr> in_flight := removeAll i (in_flight p), completed_count := cc, pool_stats := st \<rparr>"
  show ?thesis
  proof (cases outcome)
    case (Resolved r)
    then have "p' = admit (length paths) (?p1 \<lparr> result_slots := (result_slots ?p1)(i \<mapsto> r) \<rparr>)"
      using f i job by (simp add: finish_def)
    then show ?thesis using admit_after_removal[OF inv i] by simp
  next
    case (Rejected msg)
    show ?thesis
    proof (cases "stopOnError bp")
      case True
      then have "p' = ?p1 \<lparr> rejection := (case rejection ?p1 of None \<Rightarrow> Some msg | Some m \<Rightarrow> Some m) \<rparr>"
        using f i job Rejected by (simp add: finish_def)
      then show ?thesis using stop_after_removal[OF inv i] by (simp split: option.splits)
    next
      case False
      then have "p' = admit (length paths) (?p1 \<lparr> collected := collected ?p1 @ [msg] \<rparr>)"
        using f i job Rejected by (simp add: finish_def)
      then show ?thesis using admit_after_removal[OF inv i] by simp
    qed
  qed
qed

lemma run_pool_inv:
  assumes "pool_inv c (length paths) p" "run_pool env bp paths out p schedule = Some p'"
  shows "pool_inv c (length paths) p'"
  using assms
proof (induction schedule arbitrary: p)
  case Nil
  then show ?case by simp
next
  case (Cons i schedule)
  then obtain q where q: "finish env bp paths out p i = Some q"
    and r: "run_pool env bp paths out q schedule = Some p'"
    by (auto split: option.splits)
  show ?case by (rule Cons.IH[OF finish_inv[OF Cons.prems(1) q] r])
qed

lemma running_set: "{i. status_of p i = Running} = set (in_flight p)"
  by (auto simp: status_of_def split: option.splits if_splits)

lemma finish_in_flight:
  assumes "finish env bp paths out p i = Some p'"
  shows "i \<in> set (in_flight p)"
  using assms by (auto simp: finish_def split: if_splits)

lemma finish_cases [consumes 1, case_names admitted stopped]:
  assumes f: "finish env bp paths out p i = Some p'"
  obtains (admitted) q where "p' = admit (length paths) q"
      "in_flight q = removeAll i (in_flight p)" "next_index q = next_index p"
      "rejection q = rejection p"
  | (stopped) "in_flight p' = removeAll i (in_flight p)" "next_index p' = next_index p"
      "rejection p' \<noteq> None"
proof -
  have i: "i \<in> set (in_flight p)" by (rule finish_in_flight[OF f])
  obtain outcome cc st where job:
    "item_job env bp paths out (completed_count p, pool_stats p) (paths ! i) = (outcome, cc, st)"
    by (metis prod_cases3)
  let ?p1 = "p \<lparr> in_flight := removeAll i (in_flight p), completed_count := cc, pool_stats := st \<rparr>"
  show thesis
  proof (cases outcome)
    case (Resolved r)
    then have "p' = admit (length paths) (?p1 \<lparr> result_slots := (result_slots ?p1)(i \<mapsto> r) \<rparr>)"
      using f i job by (simp add: finish_def)
    then show thesis by (rule admitted) simp_all
  next
    case (Rejected msg)
    show thesis
    proof (cases "stopOnError bp")
      case True
      then have "p' = ?p1 \<lparr> rejection := (case rejection ?p1 of None \<Rightarrow> Some msg | Some m \<Rightarrow> Some m) \<rparr>"
        using f i job Rejected by (simp add: finish_def)
      then show thesis by (intro stopped) (simp_all split: option.splits)
    next
      case False
      then have "p' = admit (length paths) (?p1 \<lparr> collected := collected ?p1 @ [msg] \<rparr>)"
        using f i job Rejected by (simp add: finish_def)
      then show thesis by (rule admitted) simp_all
    qed
  qed
qed

lemma admit_next_running:
  assumes "rejection (admit n q) = None" "next_index q < n"
  shows "next_index q \<in> set (in_flight (admit n q))"
  using assms by (auto simp: admit_def split: if_splits)

lemma admitted_at_once:
  assumes f: "finish env bp paths out p i = Some p'"
    and live: "rejection p' = None" and queued: "next_index p < length paths"
  shows "status_of p' (next_index p) = Running"
  using f
proof (cases rule: finish_cases)
  case (admitted q)
  have "next_index q \<in> set (in_flight (admit (length paths) q))"
    by (rule admit_next_running) (use admitted live queued in simp_all)
  then show ?thesis using admitted by (simp add: status_of_def)
next
  case stopped
  then show ?thesis using live by simp
qed

text \<open>
  Claim C9. In every state that a run of the pool reaches, the number of items in the
  running state is at most the concurrency; as long as the pool is not stopped it is
  exactly \<open>min(C, remaining)\<close>, where the remaining items are those in flight or queued;
  and when a job finishes while an item is queued and the pool is not stopped, that item
  is running in the very next state.
\<close>

theorem pool_concurrency_bound:
  assumes "run_pool env bp paths out (start_pool bp (length paths)) schedule = Some p"
  shows "card {i. status_of p i = Running} \<le> concurrency bp
       \<and> (rejection p = None \<longrightarrow>
            card {i. status_of p i = Running}
              = min (concurrency bp) (remaining (length paths) p))
       \<and> (\<forall>i p'. finish env bp paths out p i = Some p' \<and> rejection p' = None
                   \<and> next_index p < length paths
               \<longrightarrow> status_of p' (next_index p) = Running)"
proof -
  have inv: "pool_inv (concurrency bp) (length paths) p"
    by (rule run_pool_inv[OF start_pool_inv assms])
  have card: "card {i. status_of p i = Running} = length (in_flight p)"
    unfolding running_set using inv by (simp add: pool_inv_def distinct_card)
  have bound: "length (in_flight p) \<le> concurrency bp"
    using inv by (simp add: pool_inv_def)
  have full: "rejection p = None \<longrightarrow>
      length (in_flight p) = min (concurrency bp) (remaining (length paths) p)"
    using inv by (auto simp: pool_inv_def remaining_def)
  show ?thesis
    unfolding card using bound full admitted_at_once by blast
qed

lemma start_two: "start_pool two_at_once 3 =
     \<lparr> next_index = 2, in_flight = [0, 1], result_slots = Map.empty, rejection = None,
       collected = [], completed_count = 0, pool_stats = resetStats \<rparr>"
  unfolding start_pool_eq by (simp add: two_at_once_def new_BatchProcessor_def upt_rec)

lemma finish_two:
  "finish plain_env two_at_once three_paths ''out'' (start_pool two_at_once 3) 1
   = Some \<lparr> next_index = 3, in_flight = [0, 2],
       result_slots = [1 \<mapsto> Converted ''b.gif'' ''out/b.gif.webp'' 100 50],
       rejection = None, collected = [], completed_count = 1,
       pool_stats = \<lparr> processed = 1, failed = 0, totalSizeBefore = 100, totalSizeAfter = 50 \<rparr> \<rparr>"
  unfolding start_two
  by (simp add: finish_def item_job_def convertFile_def admit_def updateStats_def
      resetStats_def three_paths_def plain_env_def two_at_once_def new_BatchProcessor_def)

text \<open>Three files, two at a time: two run at the start, and the third follows the second.\<close>

theorem pool_concurrency_bound_witness:
  "run_pool plain_env two_at_once three_paths ''out''
      (start_pool two_at_once (length three_paths)) [] = Some (start_pool two_at_once 3)
   \<and> rejection (start_pool two_at_once 3) = None
   \<and> concurrency two_at_once = 2
   \<and> remaining (length three_paths) (start_pool two_at_once 3) = 3
   \<and> card {i. status_of (start_pool two_at_once 3) i = Running} = 2
   \<and> finish plain_env two_at_once three_paths ''out'' (start_pool two_at_once 3) 1
       = Some \<lparr> next_index = 3, in_flight = [0, 2],
           result_slots = [1 \<mapsto> Converted ''b.gif'' ''out/b.gif.webp'' 100 50],
           rejection = None, collected = [], completed_count = 1,
           pool_stats = \<lparr> processed = 1, failed = 0, totalSizeBefore = 100,
                           totalSizeAfter = 50 \<rparr> \<rparr>
   \<and> next_index (start_pool two_at_once 3) < length three_paths
   \<and> status_of \<lparr> next_index = 3, in_flight = [0, 2],
           result_slots = [1 \<mapsto> Converted ''b.gif'' ''out/b.gif.webp'' 100 50],
           rejection = None, collected = [], completed_count = 1,
           pool_stats = \<lparr> processed = 1, failed = 0, totalSizeBefore = 100,
                           totalSizeAfter = 50 \<rparr> \<rparr> (next_index (start_pool two_at_once 3))
       = Running"
proof -
  let ?p' = "\<lparr> next_index = 3, in_flight = [0, 2],
           result_slots = [1 \<mapsto> Converted ''b.gif'' ''out/b.gif.webp'' 100 50],
           rejection = None, collected = [], completed_count = 1,
           pool_stats = \<lparr> processed = 1, failed = 0, totalSizeBefore = 100,
                           totalSizeAfter = 50 \<rparr> \<rparr>"
  have len: "length three_paths = 3" by (simp add: three_paths_def)
  have run: "run_pool plain_env two_at_once three_paths ''out''
      (start_pool two_at_once (length three_paths)) [] = Some (start_pool two_at_once 3)"
    unfolding len by simp
  have live: "rejection (start_pool two_at_once 3) = None" unfolding start_two by simp
  have c: "concurrency two_at_once = 2" by (simp add: two_at_once_def new_BatchProcessor_def)
  have r: "remaining (length three_paths) (start_pool two_at_once 3) = 3"
    unfolding len start_two by (simp add: remaining_def)
  have queued: "next_index (start_pool two_at_once 3) < length three_paths"
    unfolding len start_two by simp
  have live': "rejection ?p' = None" by simp
  note t = pool_concurrency_bound[OF run]
  have "card {i. status_of (start_pool two_at_once 3) i = Running}
      = min (concurrency two_at_once) (remaining (length three_paths) (start_pool two_at_once 3))"
    using t live by blast
  then have card: "card {i. status_of (start_pool two_at_once 3) i = Running} = 2"
    unfolding c r by simp
  have next_up: "status_of ?p' (next_index (start_pool two_at_once 3)) = Running"
    using t finish_two live' queued by blast
  show ?thesis
    using run live c r card finish_two queued next_up by (intro conjI)
qed

subsection \<open>Totals and results of a run\<close>

lemma item_job_effect:
  assumes "item_job env bp paths out (cc, st) path = (outcome, cc', st')"
  shows "cc' = cc + 1"
    and "st' = \<lparr> processed = processed st + (if converts env path then 1 else 0),
                 failed = failed st + (if converts env path then 0 else 1),
                 totalSizeBefore = totalSizeBefore st + bytes_before env path,
                 totalSizeAfter = totalSizeAfter st + bytes_after env path \<rparr>"
    and "outcome = Resolved (record_of env out path) \<or> (\<exists>msg. outcome = Rejected msg)"
  using assms
  by (auto simp: item_job_def convertFile_def updateStats_def record_of_def converts_def
      bytes_before_def bytes_after_def Let_def split: attempt.splits option.splits)

lemma finite_settled: "finite (settled p)"
proof -
  have "settled p \<subseteq> {..<next_index p}" by (auto simp: settled_def)
  then show ?thesis by (rule finite_subset) simp
qed

lemma settled_start: "settled (start_pool bp n) = {}"
  unfolding start_pool_eq by (auto simp: settled_def)

lemma settled_admit:
  assumes "\<forall>j \<in> set (in_flight q). j < next_index q"
  shows "settled (admit n q) = settled q"
  using assms by (auto simp: settled_def admit_def less_Suc_eq)

lemma settled_removed:
  assumes "i \<in> set (in_flight p)" "\<forall>j \<in> set (in_flight p). j < next_index p"
    and "in_flight q = removeAll i (in_flight p)" "next_index q = next_index p"
  shows "settled q = insert i (settled p)"
  using assms by (auto simp: settled_def)

lemma finish_settled:
  assumes inv: "pool_inv c (length paths) p" and f: "finish env bp paths out p i = Some p'"
  shows "settled p' = insert i (settled p)" and "i \<notin> settled p"
proof -
  have i: "i \<in> set (in_flight p)" by (rule finish_in_flight[OF f])
  have lt: "\<forall>j \<in> set (in_flight p). j < next_index p" using inv by (simp add: pool_inv_def)
  show "i \<notin> settled p" using i by (simp add: settled_def)
  from f show "settled p' = insert i (settled p)"
  proof (cases rule: finish_cases)
    case (admitted q)
    have "\<forall>j \<in> set (in_flight q). j < next_index q" using lt admitted(2,3) by simp
    then have "settled (admit (length paths) q) = settled q" by (rule settled_admit)
    also have "\<dots> = insert i (settled p)" by (rule settled_removed[OF i lt admitted(2,3)])
    finally show ?thesis using admitted(1) by simp
  next
    case stopped
    show ?thesis by (rule settled_removed[OF i lt stopped(1,2)])
  qed
qed

lemma admit_fields:
  "pool_stats (admit n q) = pool_stats q" "completed_count (admit n q) = completed_count q"
  "result_slots (admit n q) = result_slots q" "rejection (admit n q) = rejection q"
  "collected (admit n q) = collected q"
  by (simp_all add: admit_def)

lemma finish_fields:
  assumes f: "finish env bp paths out p i = Some p'"
    and job: "item_job env bp paths out (completed_count p, pool_stats p) (paths ! i)
                = (outcome, cc, st)"
  shows "pool_stats p' = st" and "completed_count p' = cc"
    and "result_slots p' =
           (case outcome of Resolved r \<Rightarrow> (result_slots p)(i \<mapsto> r) | Rejected msg \<Rightarrow> result_slots p)"
    and "(\<exists>msg. outcome = Rejected msg) \<longrightarrow> rejection p' \<noteq> None \<or> collected p' \<noteq> []"
    and "rejection p' = None \<longrightarrow> rejection p = None"
    and "collected p' = [] \<longrightarrow> collected p = []"
proof -
  have i: "i \<in> set (in_flight p)" by (rule finish_in_flight[OF f])
  have p': "p' = (case outcome of
      Resolved r \<Rightarrow> admit (length paths)
        (p \<lparr> in_flight := removeAll i (in_flight p), completed_count := cc, pool_stats := st,
             result_slots := (result_slots p)(i \<mapsto> r) \<rparr>)
    | Rejected msg \<Rightarrow>
        if stopOnError bp
        then p \<lparr> in_flight := removeAll i (in_flight p), completed_count := cc, pool_stats := st,
                 rejection := (case rejection p of None \<Rightarrow> Some msg | Some m \<Rightarrow> Some m) \<rparr>
        else admit (length paths)
          (p \<lparr> in_flight := removeAll i (in_flight p), completed_count := cc, pool_stats := st,
               collected := collected p @ [msg] \<rparr>))"
    using f i job by (auto simp: finish_def Let_def split: settlement.splits)
  show "pool_stats p' = st" unfolding p' by (simp add: admit_fields split: settlement.splits)
  show "completed_count p' = cc" unfolding p' by (simp add: admit_fields split: settlement.splits)
  show "result_slots p' =
           (case outcome of Resolved r \<Rightarrow> (result_slots p)(i \<mapsto> r) | Rejected msg \<Rightarrow> result_slots p)"
    unfolding p' by (simp add: admit_fields split: settlement.splits)
  show "(\<exists>msg. outcome = Rejected msg) \<longrightarrow> rejection p' \<noteq> None \<or> collected p' \<noteq> []"
    unfolding p' by (auto simp: admit_fields split: settlement.splits option.splits)
  show "rejection p' = None \<longrightarrow> rejection p = None"
    unfolding p' by (auto simp: admit_fields split: settlement.splits option.splits)
  show "collected p' = [] \<longrightarrow> collected p = []"
    unfolding p' by (auto simp: admit_fields split: settlement.splits option.splits)
qed

lemma tally_insert:
  assumes "finite S" "i \<notin> S"
  shows "tally env paths st0 (insert i S) =
     \<lparr> processed = processed (tally env paths st0 S) + (if converts env (paths ! i) then 1 else 0),
       failed = failed (tally env paths st0 S) + (if converts env (paths ! i) then 0 else 1),
       totalSizeBefore = totalSizeBefore (tally env paths st0 S) + bytes_before env (paths ! i),
       totalSizeAfter = totalSizeAfter (tally env paths st0 S) + bytes_after env (paths ! i) \<rparr>"
  using assms by (simp add: tally_def)

lemma finish_run_inv:
  assumes inv: "pool_inv c (length paths) p" and rinv: "run_inv env paths out st0 p"
    and f: "finish env bp paths out p i = Some p'"
  shows "run_inv env paths out st0 p'"
proof -
  obtain outcome cc st where job:
    "item_job env bp paths out (completed_count p, pool_stats p) (paths ! i) = (outcome, cc, st)"
    by (metis prod_cases3)
  note eff = item_job_effect[OF job]
  note fld = finish_fields[OF f job]
  note set = finish_settled[OF inv f]
  have fin: "finite (settled p)" by (rule finite_settled)
  have st: "pool_stats p = tally env paths st0 (settled p)"
    and cc: "completed_count p = card (settled p)"
    and slots: "\<forall>j r. result_slots p j = Some r \<longrightarrow> r = record_of env out (paths ! j)"
    and full: "rejection p = None \<and> collected p = [] \<longrightarrow>
            (\<forall>j \<in> settled p. result_slots p j \<noteq> None)"
    using rinv by (simp_all add: run_inv_def)
  have 1: "pool_stats p' = tally env paths st0 (settled p')"
    unfolding fld(1) eff(2) set(1) tally_insert[OF fin set(2)] st ..
  have 2: "completed_count p' = card (settled p')"
    unfolding fld(2) eff(1) set(1) cc using fin set(2) by simp
  have 3: "\<forall>j r. result_slots p' j = Some r \<longrightarrow> r = record_of env out (paths ! j)"
    unfolding fld(3) using slots eff(3) by (auto split: settlement.splits if_splits)
  have 4: "rejection p' = None \<and> collected p' = [] \<longrightarrow>
            (\<forall>j \<in> settled p'. result_slots p' j \<noteq> None)"
  proof
    assume clean: "rejection p' = None \<and> collected p' = []"
    then have "rejection p = None \<and> collected p = []" using fld(5,6) by blast
    then have old: "\<forall>j \<in> settled p. result_slots p j \<noteq> None" using full by blast
    have "outcome = Resolved (record_of env out (paths ! i))"
      using eff(3) fld(4) clean by auto
    then show "\<forall>j \<in> settled p'. result_slots p' j \<noteq> None"
      unfolding fld(3) set(1) using old by simp
  qed
  show ?thesis unfolding run_inv_def using 1 2 3 4 by blast
qed

lemma start_run_inv: "run_inv env paths out (converter_stats bp) (start_pool bp n)"
  unfolding run_inv_def settled_start
  by (simp add: start_pool_eq tally_def)

lemma run_pool_run_inv:
  assumes "pool_inv c (length paths) p" "run_inv env paths out st0 p"
    and "run_pool env bp paths out p schedule = Some p'"
  shows "run_inv env paths out st0 p'"
  using assms
proof (induction schedule arbitrary: p)
  case Nil
  then show ?case by simp
next
  case (Cons i schedule)
  then obtain q where q: "finish env bp paths out p i = Some q"
    and r: "run_pool env bp paths out q schedule = Some p'"
    by (auto split: option.splits)
  show ?case
    by (rule Cons.IH[OF finish_inv[OF Cons.prems(1) q] finish_run_inv[OF Cons.prems(1,2) q] r])
qed

lemma settled_finished: "all_finished n p \<Longrightarrow> settled p = {..<n}"
  by (auto simp: all_finished_def settled_def)

lemma sum_over_paths: "(\<Sum>i<length xs. f (xs ! i)) = sum_list (map f xs)"
  by (induction xs rule: rev_induct) (simp_all add: nth_append)

lemma count_over_paths:
  "sum_list (map (\<lambda>x. if P x then 1 else 0) xs) = length (filter P xs)"
  by (induction xs) simp_all

lemma count_over_paths_not:
  "sum_list (map (\<lambda>x. if P x then 0 else 1) xs) = length (filter (\<lambda>x. \<not> P x) xs)"
  by (induction xs) simp_all

lemma bytes_of_converted:
  "sum_list (map (bytes_before env) (filter (converts env) xs)) = sum_list (map (bytes_before env) xs)"
  "sum_list (map (bytes_after env) (filter (converts env) xs)) = sum_list (map (bytes_after env) xs)"
  by (induction xs)
     (auto simp: converts_def bytes_before_def bytes_after_def split: attempt.splits)

lemma tally_all: "tally env paths st {..<length paths} = stats_after env paths st"
  unfolding tally_def stats_after_def bytes_of_converted
  by (simp add: sum_over_paths[of "\<lambda>x. if converts env x then 1 else 0"]
      sum_over_paths[of "\<lambda>x. if converts env x then 0 else 1"]
      sum_over_paths[of "bytes_before env"] sum_over_paths[of "bytes_after env"]
      count_over_paths count_over_paths_not)

lemma finished_stats:
  assumes r: "run_pool env bp paths out (start_pool bp (length paths)) schedule = Some p"
    and fin: "all_finished (length paths) p"
  shows "pool_stats p = stats_after env paths (converter_stats bp)"
proof -
  have "run_inv env paths out (converter_stats bp) p"
    by (rule run_pool_run_inv[OF start_pool_inv start_run_inv r])
  then have "pool_stats p = tally env paths (converter_stats bp) (settled p)"
    by (simp add: run_inv_def)
  then show ?thesis unfolding settled_finished[OF fin] tally_all .
qed

lemma finished_results:
  assumes r: "run_pool env bp paths out (start_pool bp (length paths)) schedule = Some p"
    and fin: "all_finished (length paths) p"
    and clean: "rejection p = None" "collected p = []"
  shows "map (\<lambda>i. the (result_slots p i)) [0..<length paths] = map (record_of env out) paths"
proof -
  have inv: "run_inv env paths out (converter_stats bp) p"
    by (rule run_pool_run_inv[OF start_pool_inv start_run_inv r])
  have slot: "the (result_slots p i) = record_of env out (paths ! i)" if "i < length paths" for i
  proof -
    have "i \<in> settled p" using that unfolding settled_finished[OF fin] by simp
    then obtain r where "result_slots p i = Some r"
      using inv clean by (auto simp: run_inv_def)
    then show ?thesis using inv by (auto simp: run_inv_def)
  qed
  show ?thesis by (rule nth_equalityI) (simp_all add: slot)
qed

subsection \<open>Failures and the stop option\<close>

lemma convertFiles_returns:
  assumes "convertFiles env bp (Some paths) out schedule = (Some (Inr results), bp')"
  obtains p where "run_pool env bp paths out (start_pool bp (length paths)) schedule = Some p"
    and "all_finished (length paths) p" and "rejection p = None" and "collected p = []"
    and "results = map (\<lambda>i. the (result_slots p i)) [0..<length paths]"
    and "bp' = bp \<lparr> converter_stats := pool_stats p \<rparr>"
  using assms
  by (auto simp: convertFiles_def split: if_splits option.splits)

lemma finish_defined:
  assumes "i \<in> set (in_flight p)"
  shows "\<exists>p'. finish env bp paths out p i = Some p'"
  using assms by (simp add: finish_def Let_def split: prod.splits)

lemma success_record_of: "success (record_of env out path) = converts env path"
  by (simp add: record_of_def converts_def split: attempt.splits)

lemma pending_iff: "(status_of p i = Pending) = (i \<notin> set (in_flight p) \<and> next_index p \<le> i)"
  by (auto simp: status_of_def split: option.splits)

lemma running_iff: "(status_of p i = Running) = (i \<in> set (in_flight p))"
  by (auto simp: status_of_def split: option.splits)

text \<open>A job that finishes leaves the other jobs in flight.\<close>

lemma running_stays_running:
  assumes run: "status_of p i = Running" and other: "j \<noteq> i"
    and f: "finish env bp paths out p j = Some p'"
  shows "status_of p' i = Running"
proof -
  have i: "i \<in> set (in_flight p)" using run by (simp add: running_iff)
  then have kept: "i \<in> set (removeAll j (in_flight p))" using other by simp
  have "i \<in> set (in_flight p')"
    using f
  proof (cases rule: finish_cases)
    case (admitted q)
    then show ?thesis using kept by (auto simp: admit_def)
  next
    case stopped
    then show ?thesis using kept by simp
  qed
  then show ?thesis by (simp add: running_iff)
qed

text \<open>The job of a running item can finish, and the item is then completed or failed.\<close>

lemma running_can_finish:
  assumes inv: "pool_inv c (length paths) p" and rinv: "run_inv env paths out st0 p"
    and run: "status_of p i = Running"
  shows "\<exists>p'. finish env bp paths out p i = Some p'
            \<and> (status_of p' i = Completed \<or> status_of p' i = Failed)
            \<and> (status_of p' i = Completed \<longrightarrow> converts env (paths ! i))
            \<and> ((\<exists>r. fst (item_job env bp paths out (completed_count p, pool_stats p) (paths ! i))
                      = Resolved r) \<and> converts env (paths ! i)
                 \<longrightarrow> status_of p' i = Completed)"
proof -
  have i: "i \<in> set (in_flight p)" using run by (simp add: running_iff)
  have lt: "i < next_index p" using inv i by (simp add: pool_inv_def)
  obtain p' where f: "finish env bp paths out p i = Some p'"
    using finish_defined[OF i] by blast
  have gone: "i \<notin> set (in_flight p') \<and> i < next_index p'"
    using f
  proof (cases rule: finish_cases)
    case (admitted q)
    then show ?thesis using lt by (auto simp: admit_def)
  next
    case stopped
    then show ?thesis using lt by simp
  qed
  then have settled: "status_of p' i = Completed \<or> status_of p' i = Failed"
    by (auto simp: status_of_def split: option.splits)
  have rinv': "run_inv env paths out st0 p'" by (rule finish_run_inv[OF inv rinv f])
  have conv: "converts env (paths ! i)" if fin: "status_of p' i = Completed"
  proof -
    obtain r where r: "result_slots p' i = Some r" "success r"
      using fin gone by (auto simp: status_of_def split: option.splits if_splits)
    then have "r = record_of env out (paths ! i)" using rinv' by (simp add: run_inv_def)
    then show ?thesis using r(2) by (simp add: success_record_of)
  qed
  have comp: "status_of p' i = Completed"
    if res: "fst (item_job env bp paths out (completed_count p, pool_stats p) (paths ! i))
               = Resolved r"
      and c: "converts env (paths ! i)" for r
  proof -
    obtain cc st where job:
      "item_job env bp paths out (completed_count p, pool_stats p) (paths ! i)
         = (Resolved r, cc, st)"
      using res by (metis fst_conv prod_cases3)
    have rec: "r = record_of env out (paths ! i)" using item_job_effect(3)[OF job] by simp
    have "result_slots p' i = Some r"
      using f i job by (auto simp: finish_def admit_def Let_def split: if_splits)
    then show ?thesis
      using gone rec c by (simp add: status_of_def success_record_of)
  qed
  show ?thesis using f settled conv comp by blast
qed

text \<open>A rejected job stops the pool under \<open>stopOnError\<close>.\<close>

lemma rejected_job_stops:
  assumes "stopOnError bp"
    and "fst (item_job env bp paths out (completed_count p, pool_stats p) (paths ! j))
           = Rejected msg"
    and "finish env bp paths out p j = Some p'"
  shows "rejection p' \<noteq> None"
  using assms
  by (auto simp: finish_def Let_def split: if_splits prod.splits option.splits)

text \<open>A stopped pool admits nothing: the queue stays as it is, whatever finishes.\<close>

lemma stopped_pool_stays:
  assumes "rejection p \<noteq> None" and "run_pool env bp paths out p sched = Some p'"
  shows "rejection p' \<noteq> None \<and> next_index p' = next_index p
    \<and> set (in_flight p') \<subseteq> set (in_flight p)"
  using assms
proof (induction sched arbitrary: p)
  case Nil
  then show ?case by simp
next
  case (Cons i sched)
  from Cons.prems(2) obtain q where q: "finish env bp paths out p i = Some q"
    and r: "run_pool env bp paths out q sched = Some p'"
    by (auto split: option.splits)
  have step: "rejection q \<noteq> None \<and> next_index q = next_index p
      \<and> set (in_flight q) \<subseteq> set (in_flight p)"
    using q
  proof (cases rule: finish_cases)
    case (admitted q0)
    have "admit (length paths) q0 = q0" using admitted(4) Cons.prems(1) by (simp add: admit_def)
    then show ?thesis using admitted Cons.prems(1) by auto
  next
    case stopped
    then show ?thesis by auto
  qed
  from Cons.IH[OF _ r] step show ?case by auto
qed

lemma pending_stays_pending:
  assumes "rejection p \<noteq> None" and "run_pool env bp paths out p sched = Some p'"
    and "status_of p i = Pending"
  shows "status_of p' i = Pending"
  using stopped_pool_stays[OF assms(1,2)] assms(3) unfolding pending_iff by auto

lemma run_pool_append:
  "run_pool env bp paths out p (s1 @ s2) =
     (case run_pool env bp paths out p s1 of
        None \<Rightarrow> None
      | Some q \<Rightarrow> run_pool env bp paths out q s2)"
  by (induction s1 arbitrary: p) (auto split: option.splits)

text \<open>A stopped run returns no results, however it goes on.\<close>

lemma stopped_run_no_results:
  assumes r: "run_pool env bp paths out (start_pool bp (length paths)) schedule = Some p"
    and stop: "rejection p \<noteq> None"
  shows "convertFiles env bp (Some paths) out (schedule @ sched) \<noteq> (Some (Inr results), bp')"
proof
  assume "convertFiles env bp (Some paths) out (schedule @ sched) = (Some (Inr results), bp')"
  then obtain q where
    q: "run_pool env bp paths out (start_pool bp (length paths)) (schedule @ sched) = Some q"
    and live: "rejection q = None"
    by (rule convertFiles_returns)
  from q have "run_pool env bp paths out p sched = Some q"
    unfolding run_pool_append r by simp
  from stopped_pool_stays[OF stop this] live show False by simp
qed

lemma stopped_run_rejects:
  assumes r: "run_pool env bp paths out (start_pool bp (length paths)) schedule = Some p"
    and stop: "rejection p = Some msg"
    and ok: "paths \<noteq> []" "ensureDir env out = None" "1 \<le> concurrency bp"
  shows "fst (convertFiles env bp (Some paths) out schedule) = Some (Inl (JobRejected msg))"
  using ok by (simp add: convertFiles_def r stop)

text \<open>The statuses at the end of a run that returns results.\<close>

lemma returned_statuses:
  assumes r: "run_pool env bp paths out (start_pool bp (length paths)) schedule = Some p"
    and ret: "convertFiles env bp (Some paths) out schedule = (Some (Inr results), bp')"
    and i: "i < length paths"
  shows "status_of p i = (if converts env (paths ! i) then Completed else Failed)"
  using ret
proof (rule convertFiles_returns)
  fix q
  assume q: "run_pool env bp paths out (start_pool bp (length paths)) schedule = Some q"
    and fin: "all_finished (length paths) q" and clean: "rejection q = None" "collected q = []"
  have qp: "q = p" using q r by simp
  have inv: "run_inv env paths out (converter_stats bp) p"
    by (rule run_pool_run_inv[OF start_pool_inv start_run_inv r])
  have "i \<in> settled p" using i fin unfolding qp settled_finished[OF fin[unfolded qp]] by simp
  then obtain rec where rec: "result_slots p i = Some rec"
    using inv clean unfolding qp by (auto simp: run_inv_def)
  then have "rec = record_of env out (paths ! i)" using inv by (simp add: run_inv_def)
  then show ?thesis
    using rec fin i unfolding qp
    by (simp add: status_of_def all_finished_def success_record_of)
qed

text \<open>
  Claim C1, as amended. In every state that a batch run reaches, with \<open>stopOnError\<close> or
  without: an item that is running when the job of another item finishes, whether that
  job resolves with a success or failure record or is rejected, is still running; the job
  of a running item can finish, and the item is then completed or failed (when the job
  resolves, completed exactly when the conversion succeeded). Under \<open>stopOnError\<close> a
  rejected job stops the pool, and once the pool is stopped no pending item ever starts,
  whatever finishes afterwards. No item is marked skipped: a stopped run returns no
  results, it rejects with the error of the job; and when \<open>convertFiles\<close> returns results,
  every item has finished and the results are the records of \<open>convertFile\<close> for all input
  paths, in input order, each a success or a failure. What a failed conversion, which
  \<open>convertFile\<close> reports as a failure record and not as an error, does to the pending items
  under \<open>stopOnError\<close> is left out.
\<close>

theorem batch_items_finish_never_skipped:
  assumes "run_pool env bp paths out (start_pool bp (length paths)) schedule = Some p"
  shows "(\<forall>i j p'. status_of p i = Running \<and> j \<noteq> i
                   \<and> finish env bp paths out p j = Some p'
             \<longrightarrow> status_of p' i = Running)
       \<and> (\<forall>i. status_of p i = Running \<longrightarrow>
            (\<exists>p'. finish env bp paths out p i = Some p'
                   \<and> (status_of p' i = Completed \<or> status_of p' i = Failed)
                   \<and> (status_of p' i = Completed \<longrightarrow> converts env (paths ! i))
                   \<and> ((\<exists>r. fst (item_job env bp paths out
                                  (completed_count p, pool_stats p) (paths ! i)) = Resolved r)
                         \<and> converts env (paths ! i)
                        \<longrightarrow> status_of p' i = Completed)))
       \<and> (\<forall>j p' msg. stopOnError bp
                   \<and> fst (item_job env bp paths out
                            (completed_count p, pool_stats p) (paths ! j)) = Rejected msg
                   \<and> finish env bp paths out p j = Some p'
             \<longrightarrow> rejection p' \<noteq> None)
       \<and> (rejection p \<noteq> None \<longrightarrow>
            (\<forall>sched p' i. run_pool env bp paths out p sched = Some p'
                        \<and> status_of p i = Pending
                  \<longrightarrow> status_of p' i = Pending)
            \<and> (\<forall>sched results bp'.
                  convertFiles env bp (Some paths) out (schedule @ sched)
                    \<noteq> (Some (Inr results), bp'))
            \<and> (paths \<noteq> [] \<and> ensureDir env out = None \<and> 1 \<le> concurrency bp \<longrightarrow>
                  fst (convertFiles env bp (Some paths) out schedule)
                    = Some (Inl (JobRejected (the (rejection p))))))
       \<and> (\<forall>results bp'.
             convertFiles env bp (Some paths) out schedule = (Some (Inr results), bp')
             \<longrightarrow> results = map (record_of env out) paths
                 \<and> (\<forall>i < length paths.
                       status_of p i
                         = (if converts env (paths ! i) then Completed else Failed)))"
proof -
  have inv: "pool_inv (concurrency bp) (length paths) p"
    by (rule run_pool_inv[OF start_pool_inv assms])
  have rinv: "run_inv env paths out (converter_stats bp) p"
    by (rule run_pool_run_inv[OF start_pool_inv start_run_inv assms])
  have a: "\<forall>i j p'. status_of p i = Running \<and> j \<noteq> i
                   \<and> finish env bp paths out p j = Some p'
             \<longrightarrow> status_of p' i = Running"
    using running_stays_running by blast
  have b: "\<forall>i. status_of p i = Running \<longrightarrow>
            (\<exists>p'. finish env bp paths out p i = Some p'
                   \<and> (status_of p' i = Completed \<or> status_of p' i = Failed)
                   \<and> (status_of p' i = Completed \<longrightarrow> converts env (paths ! i))
                   \<and> ((\<exists>r. fst (item_job env bp paths out
                                  (completed_count p, pool_stats p) (paths ! i)) = Resolved r)
                         \<and> converts env (paths ! i)
                        \<longrightarrow> status_of p' i = Completed))"
    using running_can_finish[OF inv rinv] by blast
  have c: "\<forall>j p' msg. stopOnError bp
                   \<and> fst (item_job env bp paths out
                            (completed_count p, pool_stats p) (paths ! j)) = Rejected msg
                   \<and> finish env bp paths out p j = Some p'
             \<longrightarrow> rejection p' \<noteq> None"
    using rejected_job_stops by blast
  have d1: "\<forall>sched p' i. run_pool env bp paths out p sched = Some p'
                        \<and> status_of p i = Pending
                  \<longrightarrow> status_of p' i = Pending"
    if "rejection p \<noteq> None"
    using pending_stays_pending[OF that] by blast
  have d2: "\<forall>sched results bp'.
                  convertFiles env bp (Some paths) out (schedule @ sched)
                    \<noteq> (Some (Inr results), bp')"
    if "rejection p \<noteq> None"
    using stopped_run_no_results[OF assms that] by blast
  have d3: "paths \<noteq> [] \<and> ensureDir env out = None \<and> 1 \<le> concurrency bp \<longrightarrow>
                  fst (convertFiles env bp (Some paths) out schedule)
                    = Some (Inl (JobRejected (the (rejection p))))"
    if stop: "rejection p \<noteq> None"
  proof -
    obtain msg where msg: "rejection p = Some msg" using stop by auto
    show ?thesis unfolding msg option.sel using stopped_run_rejects[OF assms msg] by blast
  qed
  have e: "results = map (record_of env out) paths
                 \<and> (\<forall>i < length paths.
                       status_of p i
                         = (if converts env (paths ! i) then Completed else Failed))"
    if ret: "convertFiles env bp (Some paths) out schedule = (Some (Inr results), bp')"
    for results bp'
  proof -
    have "results = map (record_of env out) paths"
      using ret
    proof (rule convertFiles_returns)
      fix q
      assume "run_pool env bp paths out (start_pool bp (length paths)) schedule = Some q"
        and "all_finished (length paths) q" and "rejection q = None" and "collected q = []"
        and "results = map (\<lambda>i. the (result_slots q i)) [0..<length paths]"
      then show ?thesis using finished_results by simp
    qed
    then show ?thesis using returned_statuses[OF assms ret] by blast
  qed
  show ?thesis using a b c d1 d2 d3 e by (intro conjI impI allI) blast+
qed

text \<open>
  Two runs, two jobs at a time. In the first the observer throws on the failed first file
  of three, under \<open>stopOnError\<close>; in the second, without \<open>stopOnError\<close> and without an
  observer, the first of two files fails.
\<close>

lemma start_observed:
  "start_pool stop_two_observed 3 =
     \<lparr> next_index = 2, in_flight = [0, 1], result_slots = Map.empty, rejection = None,
       collected = [], completed_count = 0, pool_stats = resetStats \<rparr>"
  unfolding start_pool_eq
  by (simp add: stop_two_observed_def setProgressCallback_def stop_two_def
      new_BatchProcessor_def upt_rec)

lemma job_observed:
  "item_job plain_env stop_two_observed bad_first ''out'' (0, resetStats) (bad_first ! 0)
   = (Rejected ''observer failed'', 1,
      \<lparr> processed = 0, failed = 1, totalSizeBefore = 0, totalSizeAfter = 0 \<rparr>)"
  by (simp add: item_job_def convertFile_def updateStats_def resetStats_def bad_first_def
      plain_env_def stop_two_observed_def setProgressCallback_def strict_observer_def)

lemma finish_observed_bad:
  "finish plain_env stop_two_observed bad_first ''out'' (start_pool stop_two_observed 3) 0
   = Some \<lparr> next_index = 2, in_flight = [1], result_slots = Map.empty,
       rejection = Some ''observer failed'', collected = [], completed_count = 1,
       pool_stats = \<lparr> processed = 0, failed = 1, totalSizeBefore = 0, totalSizeAfter = 0 \<rparr> \<rparr>"
  unfolding start_observed
  by (simp add: finish_def job_observed)
     (simp add: stop_two_observed_def setProgressCallback_def stop_two_def
        new_BatchProcessor_def)

lemma finish_observed_ok:
  "finish plain_env stop_two_observed bad_first ''out''
     \<lparr> next_index = 2, in_flight = [1], result_slots = Map.empty,
       rejection = Some ''observer failed'', collected = [], completed_count = 1,
       pool_stats = \<lparr> processed = 0, failed = 1, totalSizeBefore = 0, totalSizeAfter = 0 \<rparr> \<rparr> 1
   = Some \<lparr> next_index = 2, in_flight = [],
       result_slots = [1 \<mapsto> Converted ''b.gif'' ''out/b.gif.webp'' 100 50],
       rejection = Some ''observer failed'', collected = [], completed_count = 2,
       pool_stats = \<lparr> processed = 1, failed = 1, totalSizeBefore = 100, totalSizeAfter = 50 \<rparr> \<rparr>"
  by (simp add: finish_def item_job_def convertFile_def admit_def updateStats_def
      bad_first_def plain_env_def stop_two_observed_def setProgressCallback_def
      strict_observer_def stop_two_def new_BatchProcessor_def)

lemma run_observed:
  "run_pool plain_env stop_two_observed bad_first ''out'' (start_pool stop_two_observed 3) [0, 1]
   = Some \<lparr> next_index = 2, in_flight = [],
       result_slots = [1 \<mapsto> Converted ''b.gif'' ''out/b.gif.webp'' 100 50],
       rejection = Some ''observer failed'', collected = [], completed_count = 2,
       pool_stats = \<lparr> processed = 1, failed = 1, totalSizeBefore = 100, totalSizeAfter = 50 \<rparr> \<rparr>"
  by (simp only: run_pool.simps finish_observed_bad finish_observed_ok option.case)

lemma observed_facts:
  "length bad_first = 3" "bad_first \<noteq> []" "ensureDir plain_env ''out'' = None"
  "concurrency stop_two_observed = 2" "stopOnError stop_two_observed"
  by (simp_all add: bad_first_def plain_env_def stop_two_observed_def setProgressCallback_def
      stop_two_def new_BatchProcessor_def)

lemma convert_observed:
  "convertFiles plain_env stop_two_observed (Some bad_first) ''out'' [0, 1]
   = (Some (Inl (JobRejected ''observer failed'')),
      stop_two_observed \<lparr> converter_stats :=
        \<lparr> processed = 1, failed = 1, totalSizeBefore = 100, totalSizeAfter = 50 \<rparr> \<rparr>)"
  unfolding convertFiles_def observed_facts(1,3,4) option.case run_observed by simp

lemma start_plain_two:
  "start_pool two_at_once 2 =
     \<lparr> next_index = 2, in_flight = [0, 1], result_slots = Map.empty, rejection = None,
       collected = [], completed_count = 0, pool_stats = resetStats \<rparr>"
  unfolding start_pool_eq by (simp add: two_at_once_def new_BatchProcessor_def upt_rec)

lemma finish_plain_bad:
  "finish plain_env two_at_once bad_then_ok ''out'' (start_pool two_at_once 2) 0
   = Some \<lparr> next_index = 2, in_flight = [1],
       result_slots = [0 \<mapsto> NotConverted ''bad.gif'' ''not found''],
       rejection = None, collected = [], completed_count = 1,
       pool_stats = \<lparr> processed = 0, failed = 1, totalSizeBefore = 0, totalSizeAfter = 0 \<rparr> \<rparr>"
  unfolding start_plain_two
  by (simp add: finish_def item_job_def convertFile_def admit_def updateStats_def
      resetStats_def bad_then_ok_def plain_env_def two_at_once_def new_BatchProcessor_def)

lemma finish_plain_ok:
  "finish plain_env two_at_once bad_then_ok ''out''
     \<lparr> next_index = 2, in_flight = [1],
       result_slots = [0 \<mapsto> NotConverted ''bad.gif'' ''not found''],
       rejection = None, collected = [], completed_count = 1,
       pool_stats = \<lparr> processed = 0, failed = 1, totalSizeBefore = 0, totalSizeAfter = 0 \<rparr> \<rparr> 1
   = Some \<lparr> next_index = 2, in_flight = [],
       result_slots = [0 \<mapsto> NotConverted ''bad.gif'' ''not found'',
                       1 \<mapsto> Converted ''ok.gif'' ''out/ok.gif.webp'' 100 50],
       rejection = None, collected = [], completed_count = 2,
       pool_stats = \<lparr> processed = 1, failed = 1, totalSizeBefore = 100, totalSizeAfter = 50 \<rparr> \<rparr>"
  by (simp add: finish_def item_job_def convertFile_def admit_def updateStats_def
      bad_then_ok_def plain_env_def two_at_once_def new_BatchProcessor_def)

lemma run_plain:
  "run_pool plain_env two_at_once bad_then_ok ''out'' (start_pool two_at_once 2) [0, 1]
   = Some \<lparr> next_index = 2, in_flight = [],
       result_slots = [0 \<mapsto> NotConverted ''bad.gif'' ''not found'',
                       1 \<mapsto> Converted ''ok.gif'' ''out/ok.gif.webp'' 100 50],
       rejection = None, collected = [], completed_count = 2,
       pool_stats = \<lparr> processed = 1, failed = 1, totalSizeBefore = 100, totalSizeAfter = 50 \<rparr> \<rparr>"
  by (simp only: run_pool.simps finish_plain_bad finish_plain_ok option.case)

lemma convert_plain:
  "convertFiles plain_env two_at_once (Some bad_then_ok) ''out'' [0, 1]
   = (Some (Inr [NotConverted ''bad.gif'' ''not found'',
                 Converted ''ok.gif'' ''out/ok.gif.webp'' 100 50]),
      two_at_once \<lparr> converter_stats :=
        \<lparr> processed = 1, failed = 1, totalSizeBefore = 100, totalSizeAfter = 50 \<rparr> \<rparr>)"
proof -
  have len: "length bad_then_ok = 2" by (simp add: bad_then_ok_def)
  have env: "ensureDir plain_env ''out'' = None" by (simp add: plain_env_def)
  have c: "concurrency two_at_once = 2" by (simp add: two_at_once_def new_BatchProcessor_def)
  show ?thesis
    unfolding convertFiles_def len option.case env c run_plain
    by (simp add: all_finished_def upt_rec)
qed

text \<open>
  The first run: the second file, running when the job of the first is rejected, is still
  running and then completes; the third file is pending when the pool stops and stays
  pending; the run rejects. The second run returns a failure and a success record.
\<close>

theorem batch_items_finish_never_skipped_witness:
  "run_pool plain_env stop_two_observed bad_first ''out''
     (start_pool stop_two_observed (length bad_first)) [] = Some (start_pool stop_two_observed 3)
   \<and> status_of (start_pool stop_two_observed 3) 0 = Running
   \<and> status_of (start_pool stop_two_observed 3) 1 = Running
   \<and> (0::nat) \<noteq> 1
   \<and> stopOnError stop_two_observed
   \<and> fst (item_job plain_env stop_two_observed bad_first ''out''
             (completed_count (start_pool stop_two_observed 3),
              pool_stats (start_pool stop_two_observed 3)) (bad_first ! 0))
       = Rejected ''observer failed''
   \<and> finish plain_env stop_two_observed bad_first ''out'' (start_pool stop_two_observed 3) 0
       = Some \<lparr> next_index = 2, in_flight = [1], result_slots = Map.empty,
           rejection = Some ''observer failed'', collected = [], completed_count = 1,
           pool_stats = \<lparr> processed = 0, failed = 1, totalSizeBefore = 0,
                           totalSizeAfter = 0 \<rparr> \<rparr>
   \<and> status_of \<lparr> next_index = 2, in_flight = [1], result_slots = Map.empty,
           rejection = Some ''observer failed'', collected = [], completed_count = 1,
           pool_stats = \<lparr> processed = 0, failed = 1, totalSizeBefore = 0,
                           totalSizeAfter = 0 \<rparr> \<rparr> 1 = Running
   \<and> status_of \<lparr> next_index = 2, in_flight = [1], result_slots = Map.empty,
           rejection = Some ''observer failed'', collected = [], completed_count = 1,
           pool_stats = \<lparr> processed = 0, failed = 1, totalSizeBefore = 0,
                           totalSizeAfter = 0 \<rparr> \<rparr> 0 = Failed
   \<and> rejection \<lparr> next_index = 2, in_flight = [1], result_slots = Map.empty,
           rejection = Some ''observer failed'', collected = [], completed_count = 1,
           pool_stats = \<lparr> processed = 0, failed = 1, totalSizeBefore = 0,
                           totalSizeAfter = 0 \<rparr> \<rparr> \<noteq> None
   \<and> run_pool plain_env stop_two_observed bad_first ''out''
        (start_pool stop_two_observed (length bad_first)) [0]
       = Some \<lparr> next_index = 2, in_flight = [1], result_slots = Map.empty,
           rejection = Some ''observer failed'', collected = [], completed_count = 1,
           pool_stats = \<lparr> processed = 0, failed = 1, totalSizeBefore = 0,
                           totalSizeAfter = 0 \<rparr> \<rparr>
   \<and> run_pool plain_env stop_two_observed bad_first ''out''
        \<lparr> next_index = 2, in_flight = [1], result_slots = Map.empty,
           rejection = Some ''observer failed'', collected = [], completed_count = 1,
           pool_stats = \<lparr> processed = 0, failed = 1, totalSizeBefore = 0,
                           totalSizeAfter = 0 \<rparr> \<rparr> [1]
       = Some \<lparr> next_index = 2, in_flight = [],
           result_slots = [1 \<mapsto> Converted ''b.gif'' ''out/b.gif.webp'' 100 50],
           rejection = Some ''observer failed'', collected = [], completed_count = 2,
           pool_stats = \<lparr> processed = 1, failed = 1, totalSizeBefore = 100,
                           totalSizeAfter = 50 \<rparr> \<rparr>
   \<and> status_of \<lparr> next_index = 2, in_flight = [1], result_slots = Map.empty,
           rejection = Some ''observer failed'', collected = [], completed_count = 1,
           pool_stats = \<lparr> processed = 0, failed = 1, totalSizeBefore = 0,
                           totalSizeAfter = 0 \<rparr> \<rparr> 2 = Pending
   \<and> status_of \<lparr> next_index = 2, in_flight = [],
           result_slots = [1 \<mapsto> Converted ''b.gif'' ''out/b.gif.webp'' 100 50],
           rejection = Some ''observer failed'', collected = [], completed_count = 2,
           pool_stats = \<lparr> processed = 1, failed = 1, totalSizeBefore = 100,
                           totalSizeAfter = 50 \<rparr> \<rparr> 2 = Pending
   \<and> bad_first \<noteq> [] \<and> ensureDir plain_env ''out'' = None \<and> 1 \<le> concurrency stop_two_observed
   \<and> fst (convertFiles plain_env stop_two_observed (Some bad_first) ''out'' [0])
       = Some (Inl (JobRejected ''observer failed''))
   \<and> convertFiles plain_env stop_two_observed (Some bad_first) ''out'' ([0] @ [1])
       \<noteq> (Some (Inr (map (record_of plain_env ''out'') bad_first)), stop_two_observed)
   \<and> run_pool plain_env two_at_once bad_then_ok ''out''
        (start_pool two_at_once (length bad_then_ok)) [0, 1]
       = Some \<lparr> next_index = 2, in_flight = [],
           result_slots = [0 \<mapsto> NotConverted ''bad.gif'' ''not found'',
                           1 \<mapsto> Converted ''ok.gif'' ''out/ok.gif.webp'' 100 50],
           rejection = None, collected = [], completed_count = 2,
           pool_stats = \<lparr> processed = 1, failed = 1, totalSizeBefore = 100,
                           totalSizeAfter = 50 \<rparr> \<rparr>
   \<and> convertFiles plain_env two_at_once (Some bad_then_ok) ''out'' [0, 1]
      = (Some (Inr (map (record_of plain_env ''out'') bad_then_ok)),
         two_at_once \<lparr> converter_stats :=
           \<lparr> processed = 1, failed = 1, totalSizeBefore = 100, totalSizeAfter = 50 \<rparr> \<rparr>)
   \<and> (0::nat) < length bad_then_ok \<and> (1::nat) < length bad_then_ok
   \<and> status_of \<lparr> next_index = 2, in_flight = [],
           result_slots = [0 \<mapsto> NotConverted ''bad.gif'' ''not found'',
                           1 \<mapsto> Converted ''ok.gif'' ''out/ok.gif.webp'' 100 50],
           rejection = None, collected = [], completed_count = 2,
           pool_stats = \<lparr> processed = 1, failed = 1, totalSizeBefore = 100,
                           totalSizeAfter = 50 \<rparr> \<rparr> 0 = Failed
   \<and> status_of \<lparr> next_index = 2, in_flight = [],
           result_slots = [0 \<mapsto> NotConverted ''bad.gif'' ''not found'',
                           1 \<mapsto> Converted ''ok.gif'' ''out/ok.gif.webp'' 100 50],
           rejection = None, collected = [], completed_count = 2,
           pool_stats = \<lparr> processed = 1, failed = 1, totalSizeBefore = 100,
                           totalSizeAfter = 50 \<rparr> \<rparr> 1 = Completed"
proof -
  let ?S0 = "start_pool stop_two_observed 3"
  let ?S1 = "\<lparr> next_index = 2, in_flight = [1], result_slots = Map.empty,
           rejection = Some ''observer failed'', collected = [], completed_count = 1,
           pool_stats = \<lparr> processed = 0, failed = 1, totalSizeBefore = 0,
                           totalSizeAfter = 0 \<rparr> \<rparr>"
  let ?S2 = "\<lparr> next_index = 2, in_flight = [],
           result_slots = [1 \<mapsto> Converted ''b.gif'' ''out/b.gif.webp'' 100 50],
           rejection = Some ''observer failed'', collected = [], completed_count = 2,
           pool_stats = \<lparr> processed = 1, failed = 1, totalSizeBefore = 100,
                           totalSizeAfter = 50 \<rparr> \<rparr>"
  let ?T2 = "\<lparr> next_index = 2, in_flight = [],
           result_slots = [0 \<mapsto> NotConverted ''bad.gif'' ''not found'',
                           1 \<mapsto> Converted ''ok.gif'' ''out/ok.gif.webp'' 100 50],
           rejection = None, collected = [], completed_count = 2,
           pool_stats = \<lparr> processed = 1, failed = 1, totalSizeBefore = 100,
                           totalSizeAfter = 50 \<rparr> \<rparr>"
  have len: "length bad_first = 3" by (rule observed_facts(1))
  have len2: "length bad_then_ok = 2" by (simp add: bad_then_ok_def)
  have r0: "run_pool plain_env stop_two_observed bad_first ''out''
     (start_pool stop_two_observed (length bad_first)) [] = Some ?S0"
    unfolding len by simp
  have r1: "run_pool plain_env stop_two_observed bad_first ''out''
     (start_pool stop_two_observed (length bad_first)) [0] = Some ?S1"
    unfolding len by (simp only: run_pool.simps finish_observed_bad option.case)
  have r2: "run_pool plain_env stop_two_observed bad_first ''out'' ?S1 [1] = Some ?S2"
    by (simp only: run_pool.simps finish_observed_ok option.case)
  have r3: "run_pool plain_env two_at_once bad_then_ok ''out''
        (start_pool two_at_once (length bad_then_ok)) [0, 1] = Some ?T2"
    unfolding len2 by (rule run_plain)
  note t0 = batch_items_finish_never_skipped[OF r0]
  note t1 = batch_items_finish_never_skipped[OF r1]
  note t3 = batch_items_finish_never_skipped[OF r3]
  have run0: "status_of ?S0 0 = Running" and run1: "status_of ?S0 1 = Running"
    by (simp_all add: start_observed status_of_def)
  have ne: "(0::nat) \<noteq> 1" by simp
  have job: "fst (item_job plain_env stop_two_observed bad_first ''out''
             (completed_count ?S0, pool_stats ?S0) (bad_first ! 0))
       = Rejected ''observer failed''"
    unfolding start_observed by (simp add: job_observed)
  have stays: "status_of ?S1 1 = Running"
    using t0 run1 ne finish_observed_bad by blast
  have nc: "\<not> converts plain_env (bad_first ! 0)"
    by (simp add: converts_def plain_env_def bad_first_def)
  have "\<exists>p'. finish plain_env stop_two_observed bad_first ''out'' ?S0 0 = Some p'
           \<and> (status_of p' 0 = Completed \<or> status_of p' 0 = Failed)
           \<and> (status_of p' 0 = Completed \<longrightarrow> converts plain_env (bad_first ! 0))"
    using t0 run0 by blast
  then have failed0: "status_of ?S1 0 = Failed"
    unfolding finish_observed_bad using nc by auto
  have stop: "rejection ?S1 \<noteq> None"
    using t0 observed_facts(5) job finish_observed_bad by blast
  have pend1: "status_of ?S1 2 = Pending" by (simp add: status_of_def)
  have pend2: "status_of ?S2 2 = Pending"
    using t1 stop r2 pend1 by blast
  have ok: "bad_first \<noteq> []" "ensureDir plain_env ''out'' = None"
    "1 \<le> concurrency stop_two_observed"
    using observed_facts by simp_all
  have "fst (convertFiles plain_env stop_two_observed (Some bad_first) ''out'' [0])
       = Some (Inl (JobRejected (the (rejection ?S1))))"
    using t1 stop ok by blast
  then have rej: "fst (convertFiles plain_env stop_two_observed (Some bad_first) ''out'' [0])
       = Some (Inl (JobRejected ''observer failed''))"
    by simp
  have none: "convertFiles plain_env stop_two_observed (Some bad_first) ''out'' ([0] @ [1])
       \<noteq> (Some (Inr (map (record_of plain_env ''out'') bad_first)), stop_two_observed)"
    using t1 stop by blast
  have ret: "convertFiles plain_env two_at_once (Some bad_then_ok) ''out'' [0, 1]
      = (Some (Inr [NotConverted ''bad.gif'' ''not found'',
                    Converted ''ok.gif'' ''out/ok.gif.webp'' 100 50]),
         two_at_once \<lparr> converter_stats :=
           \<lparr> processed = 1, failed = 1, totalSizeBefore = 100, totalSizeAfter = 50 \<rparr> \<rparr>)"
    by (rule convert_plain)
  from t3 ret
  have e: "[NotConverted ''bad.gif'' ''not found'',
            Converted ''ok.gif'' ''out/ok.gif.webp'' 100 50]
           = map (record_of plain_env ''out'') bad_then_ok"
    and st: "\<forall>i < length bad_then_ok.
               status_of ?T2 i = (if converts plain_env (bad_then_ok ! i) then Completed else Failed)"
    by blast+
  have ret': "convertFiles plain_env two_at_once (Some bad_then_ok) ''out'' [0, 1]
      = (Some (Inr (map (record_of plain_env ''out'') bad_then_ok)),
         two_at_once \<lparr> converter_stats :=
           \<lparr> processed = 1, failed = 1, totalSizeBefore = 100, totalSizeAfter = 50 \<rparr> \<rparr>)"
    using ret unfolding e .
  have lt: "(0::nat) < length bad_then_ok" "(1::nat) < length bad_then_ok"
    unfolding len2 by simp_all
  have cv: "\<not> converts plain_env (bad_then_ok ! 0)" "converts plain_env (bad_then_ok ! 1)"
    by (simp_all add: converts_def plain_env_def bad_then_ok_def)
  have f0: "status_of ?T2 0 = Failed" using st lt(1) cv(1) by simp
  have c1: "status_of ?T2 1 = Completed" using st lt(2) cv(2) by simp
  show ?thesis
    using r0 run0 run1 ne observed_facts(5) job finish_observed_bad stays failed0 stop r1 r2
      pend1 pend2 ok rej none r3 ret' lt f0 c1
    by (intro conjI)
qed

text \<open>
  The claim as stated fails. Under \<open>stopOnError\<close>, two jobs at a time, the first of three
  files fails and its job is rejected, which stops the pool. The third file never starts:
  it is still pending when the last running job has finished, and the run rejects with
  the error of the job. There are no results in which the third file could be marked
  skipped, and no item has such a status.
\<close>

theorem batch_items_finish_never_skipped_counterexample:
  "stopOnError stop_two_observed
   \<and> status_of (start_pool stop_two_observed (length bad_first)) 0 = Running
   \<and> status_of (start_pool stop_two_observed (length bad_first)) 1 = Running
   \<and> status_of (start_pool stop_two_observed (length bad_first)) 2 = Pending
   \<and> run_pool plain_env stop_two_observed bad_first ''out''
        (start_pool stop_two_observed (length bad_first)) [0, 1]
      = Some \<lparr> next_index = 2, in_flight = [],
          result_slots = [1 \<mapsto> Converted ''b.gif'' ''out/b.gif.webp'' 100 50],
          rejection = Some ''observer failed'', collected = [], completed_count = 2,
          pool_stats = \<lparr> processed = 1, failed = 1, totalSizeBefore = 100,
                          totalSizeAfter = 50 \<rparr> \<rparr>
   \<and> status_of \<lparr> next_index = 2, in_flight = [],
          result_slots = [1 \<mapsto> Converted ''b.gif'' ''out/b.gif.webp'' 100 50],
          rejection = Some ''observer failed'', collected = [], completed_count = 2,
          pool_stats = \<lparr> processed = 1, failed = 1, totalSizeBefore = 100,
                          totalSizeAfter = 50 \<rparr> \<rparr> 0 = Failed
   \<and> status_of \<lparr> next_index = 2, in_flight = [],
          result_slots = [1 \<mapsto> Converted ''b.gif'' ''out/b.gif.webp'' 100 50],
          rejection = Some ''observer failed'', collected = [], completed_count = 2,
          pool_stats = \<lparr> processed = 1, failed = 1, totalSizeBefore = 100,
                          totalSizeAfter = 50 \<rparr> \<rparr> 1 = Completed
   \<and> status_of \<lparr> next_index = 2, in_flight = [],
          result_slots = [1 \<mapsto> Converted ''b.gif'' ''out/b.gif.webp'' 100 50],
          rejection = Some ''observer failed'', collected = [], completed_count = 2,
          pool_stats = \<lparr> processed = 1, failed = 1, totalSizeBefore = 100,
                          totalSizeAfter = 50 \<rparr> \<rparr> 2 = Pending
   \<and> convertFiles plain_env stop_two_observed (Some bad_first) ''out'' [0, 1]
      = (Some (Inl (JobRejected ''observer failed'')),
         stop_two_observed \<lparr> converter_stats :=
           \<lparr> processed = 1, failed = 1, totalSizeBefore = 100, totalSizeAfter = 50 \<rparr> \<rparr>)"
  unfolding observed_facts(1) run_observed convert_observed
  using observed_facts(5) by (simp add: start_observed status_of_def)

subsection \<open>Aggregate statistics, empty inputs\<close>

text \<open>One job at a time: a file that fails, then a file that converts.\<close>

lemma start_stop_first:
  "start_pool stop_first 2 =
     \<lparr> next_index = 1, in_flight = [0], result_slots = Map.empty, rejection = None,
       collected = [], completed_count = 0, pool_stats = resetStats \<rparr>"
  unfolding start_pool_eq by (simp add: stop_first_def new_BatchProcessor_def)

lemma finish_bad:
  "finish plain_env stop_first bad_then_ok ''out'' (start_pool stop_first 2) 0
   = Some \<lparr> next_index = 2, in_flight = [1],
       result_slots = [0 \<mapsto> NotConverted ''bad.gif'' ''not found''],
       rejection = None, collected = [], completed_count = 1,
       pool_stats = \<lparr> processed = 0, failed = 1, totalSizeBefore = 0, totalSizeAfter = 0 \<rparr> \<rparr>"
  unfolding start_stop_first
  by (simp add: finish_def item_job_def convertFile_def admit_def updateStats_def
      resetStats_def bad_then_ok_def plain_env_def stop_first_def new_BatchProcessor_def)

lemma finish_ok:
  "finish plain_env stop_first bad_then_ok ''out''
     \<lparr> next_index = 2, in_flight = [1],
       result_slots = [0 \<mapsto> NotConverted ''bad.gif'' ''not found''],
       rejection = None, collected = [], completed_count = 1,
       pool_stats = \<lparr> processed = 0, failed = 1, totalSizeBefore = 0, totalSizeAfter = 0 \<rparr> \<rparr> 1
   = Some \<lparr> next_index = 2, in_flight = [],
       result_slots = [0 \<mapsto> NotConverted ''bad.gif'' ''not found'',
                       1 \<mapsto> Converted ''ok.gif'' ''out/ok.gif.webp'' 100 50],
       rejection = None, collected = [], completed_count = 2,
       pool_stats = \<lparr> processed = 1, failed = 1, totalSizeBefore = 100, totalSizeAfter = 50 \<rparr> \<rparr>"
  by (simp add: finish_def item_job_def convertFile_def admit_def updateStats_def
      bad_then_ok_def plain_env_def stop_first_def new_BatchProcessor_def)

lemma run_bad_then_ok:
  "run_pool plain_env stop_first bad_then_ok ''out'' (start_pool stop_first 2) [0, 1]
   = Some \<lparr> next_index = 2, in_flight = [],
       result_slots = [0 \<mapsto> NotConverted ''bad.gif'' ''not found'',
                       1 \<mapsto> Converted ''ok.gif'' ''out/ok.gif.webp'' 100 50],
       rejection = None, collected = [], completed_count = 2,
       pool_stats = \<lparr> processed = 1, failed = 1, totalSizeBefore = 100, totalSizeAfter = 50 \<rparr> \<rparr>"
  by (simp only: run_pool.simps finish_bad finish_ok option.case)

lemma convert_bad_then_ok:
  "convertFiles plain_env stop_first (Some bad_then_ok) ''out'' [0, 1]
   = (Some (Inr [NotConverted ''bad.gif'' ''not found'',
                 Converted ''ok.gif'' ''out/ok.gif.webp'' 100 50]),
      stop_first \<lparr> converter_stats :=
        \<lparr> processed = 1, failed = 1, totalSizeBefore = 100, totalSizeAfter = 50 \<rparr> \<rparr>)"
proof -
  have len: "length bad_then_ok = 2" by (simp add: bad_then_ok_def)
  have env: "ensureDir plain_env ''out'' = None" by (simp add: plain_env_def)
  have c: "concurrency stop_first = 1" by (simp add: stop_first_def new_BatchProcessor_def)
  show ?thesis
    unfolding convertFiles_def len option.case env c run_bad_then_ok
    by (simp add: all_finished_def upt_rec)
qed

lemma convertFiles_stats:
  assumes "convertFiles env bp (Some paths) out schedule = (Some (Inr results), bp')"
  shows "converter_stats bp' = stats_after env paths (converter_stats bp)"
  using assms
proof (rule convertFiles_returns)
  fix p
  assume "run_pool env bp paths out (start_pool bp (length paths)) schedule = Some p"
    and "all_finished (length paths) p" and "bp' = bp \<lparr> converter_stats := pool_stats p \<rparr>"
  then show ?thesis using finished_stats by simp
qed

text \<open>
  Claim C5, as amended. When a batch run has returned its results, the totals of the
  converter have grown by the bytes of the converted files only, the failure count by every
  failed file, and the exposed ratio is the percentage
  \<open>100 * (totalSizeBefore - totalSizeAfter) / totalSizeBefore\<close>, or 0 when
  \<open>totalSizeBefore\<close> is 0.
\<close>

theorem finished_run_aggregate_ratio:
  assumes "convertFiles env bp (Some paths) out schedule = (Some (Inr results), bp')"
  shows "rep_processed (getStats (converter_stats bp'))
           = processed (converter_stats bp) + length (filter (converts env) paths)
       \<and> rep_failed (getStats (converter_stats bp'))
           = failed (converter_stats bp) + length (filter (\<lambda>path. \<not> converts env path) paths)
       \<and> rep_totalSizeBefore (getStats (converter_stats bp'))
           = totalSizeBefore (converter_stats bp)
             + sum_list (map (bytes_before env) (filter (converts env) paths))
       \<and> rep_totalSizeAfter (getStats (converter_stats bp'))
           = totalSizeAfter (converter_stats bp)
             + sum_list (map (bytes_after env) (filter (converts env) paths))
       \<and> totalCompressionRatio (getStats (converter_stats bp'))
           = (if 0 < rep_totalSizeBefore (getStats (converter_stats bp'))
              then 100 * ((real (rep_totalSizeBefore (getStats (converter_stats bp')))
                            - real (rep_totalSizeAfter (getStats (converter_stats bp'))))
                          / real (rep_totalSizeBefore (getStats (converter_stats bp'))))
              else 0)"
  unfolding convertFiles_stats[OF assms]
  by (simp add: getStats_def stats_after_def)

text \<open>One failed and one converted file (100 bytes to 50): one failure, ratio 50.\<close>

theorem finished_run_aggregate_ratio_witness:
  "convertFiles plain_env stop_first (Some bad_then_ok) ''out'' [0, 1]
     = (Some (Inr [NotConverted ''bad.gif'' ''not found'',
                   Converted ''ok.gif'' ''out/ok.gif.webp'' 100 50]),
        stop_first \<lparr> converter_stats :=
          \<lparr> processed = 1, failed = 1, totalSizeBefore = 100, totalSizeAfter = 50 \<rparr> \<rparr>)
   \<and> filter (converts plain_env) bad_then_ok = [''ok.gif'']
   \<and> rep_failed (getStats \<lparr> processed = 1, failed = 1, totalSizeBefore = 100,
                             totalSizeAfter = 50 \<rparr>) = 1
   \<and> rep_totalSizeBefore (getStats \<lparr> processed = 1, failed = 1, totalSizeBefore = 100,
                                      totalSizeAfter = 50 \<rparr>) = 100
   \<and> totalCompressionRatio (getStats \<lparr> processed = 1, failed = 1, totalSizeBefore = 100,
                                        totalSizeAfter = 50 \<rparr>) = 50"
proof -
  have f: "filter (converts plain_env) bad_then_ok = [''ok.gif'']"
    by (simp add: converts_def plain_env_def bad_then_ok_def)
  have nf: "filter (\<lambda>path. \<not> converts plain_env path) bad_then_ok = [''bad.gif'']"
    by (simp add: converts_def plain_env_def bad_then_ok_def)
  have b: "bytes_before plain_env ''ok.gif'' = 100" "bytes_after plain_env ''ok.gif'' = 50"
    by (simp_all add: bytes_before_def bytes_after_def plain_env_def)
  have s0: "converter_stats stop_first = resetStats"
    by (simp add: stop_first_def new_BatchProcessor_def)
  note t = finished_run_aggregate_ratio[OF convert_bad_then_ok]
  have "rep_failed (getStats \<lparr> processed = 1, failed = 1, totalSizeBefore = 100,
                             totalSizeAfter = 50 \<rparr>) = 1"
    using t unfolding nf s0 by (simp add: resetStats_def)
  moreover have bef: "rep_totalSizeBefore (getStats \<lparr> processed = 1, failed = 1,
       totalSizeBefore = 100, totalSizeAfter = 50 \<rparr>) = 100"
    using t unfolding f s0 by (simp add: resetStats_def b)
  moreover have aft: "rep_totalSizeAfter (getStats \<lparr> processed = 1, failed = 1,
       totalSizeBefore = 100, totalSizeAfter = 50 \<rparr>) = 50"
    using t unfolding f s0 by (simp add: resetStats_def b)
  moreover have "totalCompressionRatio (getStats \<lparr> processed = 1, failed = 1,
       totalSizeBefore = 100, totalSizeAfter = 50 \<rparr>) = 50"
  proof -
    have "totalCompressionRatio (getStats \<lparr> processed = 1, failed = 1,
       totalSizeBefore = 100, totalSizeAfter = 50 \<rparr>)
       = (if 0 < rep_totalSizeBefore (getStats \<lparr> processed = 1, failed = 1,
                   totalSizeBefore = 100, totalSizeAfter = 50 \<rparr>)
              then 100 * ((real (rep_totalSizeBefore (getStats \<lparr> processed = 1, failed = 1,
                   totalSizeBefore = 100, totalSizeAfter = 50 \<rparr>))
                            - real (rep_totalSizeAfter (getStats \<lparr> processed = 1, failed = 1,
                   totalSizeBefore = 100, totalSizeAfter = 50 \<rparr>)))
                          / real (rep_totalSizeBefore (getStats \<lparr> processed = 1, failed = 1,
                   totalSizeBefore = 100, totalSizeAfter = 50 \<rparr>)))
              else 0)"
      using t by simp
    then show ?thesis unfolding bef aft by simp
  qed
  ultimately show ?thesis using convert_bad_then_ok f by (intro conjI)
qed

text \<open>
  The claim as stated fails: for that run the exposed ratio is 50, not
  \<open>(100 - 50) / 100 = 0.5\<close>.
\<close>

theorem finished_run_aggregate_ratio_counterexample:
  "convertFiles plain_env stop_first (Some bad_then_ok) ''out'' [0, 1]
     = (Some (Inr [NotConverted ''bad.gif'' ''not found'',
                   Converted ''ok.gif'' ''out/ok.gif.webp'' 100 50]),
        stop_first \<lparr> converter_stats :=
          \<lparr> processed = 1, failed = 1, totalSizeBefore = 100, totalSizeAfter = 50 \<rparr> \<rparr>)
   \<and> totalCompressionRatio (getStats \<lparr> processed = 1, failed = 1, totalSizeBefore = 100,
                                        totalSizeAfter = 50 \<rparr>) = 50
   \<and> (real (100::nat) - real (50::nat)) / real (100::nat) = 1 / 2
   \<and> totalCompressionRatio (getStats \<lparr> processed = 1, failed = 1, totalSizeBefore = 100,
                                        totalSizeAfter = 50 \<rparr>)
       \<noteq> (real (100::nat) - real (50::nat)) / real (100::nat)"
  using convert_bad_then_ok by (simp add: getStats_def)

text \<open>
  Claim C10. \<open>convertFiles\<close> on a missing or empty list throws, and the processor is as
  before (no directory is made, no job is started); \<open>convertDirectory\<close> on a directory in
  which \<open>findGifFiles\<close> finds nothing returns the empty array, and so it does on a
  directory that cannot be read and on an empty one.
\<close>

theorem empty_input_throws_empty_directory_returns:
  "convertFiles env bp None out schedule = (Some (Inl NoFiles), bp)
   \<and> convertFiles env bp (Some []) out schedule = (Some (Inl NoFiles), bp)
   \<and> (findGifFiles node inputDir recursive = [] \<longrightarrow>
        convertDirectory env bp node inputDir out recursive schedule = (Some (Inr []), bp))
   \<and> findGifFiles UnreadableDir inputDir recursive = []
   \<and> findGifFiles (Dir []) inputDir recursive = []"
  by (simp add: convertFiles_def convertDirectory_def)

text \<open>A directory with a text file, a PNG and a GIF one level down, not searched recursively.\<close>

theorem empty_input_throws_empty_directory_returns_witness:
  "findGifFiles no_gifs_here ''in'' False = []
   \<and> convertDirectory plain_env stop_first no_gifs_here ''in'' ''out'' False [0]
       = (Some (Inr []), stop_first)
   \<and> findGifFiles no_gifs_here ''in'' True = [''in/sub/inner.gif'']"
proof -
  have e: "findGifFiles no_gifs_here ''in'' False = []"
    by (simp add: no_gifs_here_def extname_def toLowerCase_def Let_def)
  have r: "findGifFiles no_gifs_here ''in'' True = [''in/sub/inner.gif'']"
    by (simp add: no_gifs_here_def extname_def toLowerCase_def path_join_def Let_def)
  from empty_input_throws_empty_directory_returns[of plain_env stop_first "''out''" "[0]"
      no_gifs_here "''in''" False] e
  have "convertDirectory plain_env stop_first no_gifs_here ''in'' ''out'' False [0]
       = (Some (Inr []), stop_first)" by blast
  with e r show ?thesis by (intro conjI)
qed

end
